theory Spec2Isabelle
  imports Main "HOL-Library.Word" "HOL-Library.Signed_Division"
begin

unbundle bit_operations_syntax

section \<open>The simple encoder driver (simpleEncoder/main.cpp)\<close>

text \<open>
  The program is a single C++ file: a frame reader (\<open>aom_img_read\<close>), a submit-and-drain
  step (\<open>encode_frame\<close>) and \<open>main\<close>, which validates its configuration, sets the
  encoder up, runs the input loop and then the flush loop. The encoder itself (libaom),
  the C library's files and \<open>printf\<close> are outside the file; they appear here as
  parameters and as explicit state.

  C \<open>int\<close> values are modelled as \<open>int\<close>. The only arithmetic the program does on them
  is the two increments of the frame counters; signed overflow of those is undefined in
  C and is a separate outcome of the model (\<open>Undefined\<close> below). C's \<open>%\<close> truncates
  towards zero: it is \<open>smod\<close>.
\<close>

subsection \<open>Keyframe scheduling (main, lines 366-368)\<close>

text \<open>
  \<open>AOM_EFLAG_FORCE_KF\<close> and \<open>AOM_FRAME_IS_KEY\<close> come from libaom's headers
  (\<open>aom/aom_encoder.h\<close>, \<open>aom/aom_codec.h\<close>), where both are bit 0.
\<close>

definition AOM_EFLAG_FORCE_KF :: int where
  "AOM_EFLAG_FORCE_KF = 1"

text \<open>
  \<^verbatim>\<open>int flags = 0;
  if (keyframe_interval > 0 && frame_count % keyframe_interval == 0)
    flags |= AOM_EFLAG_FORCE_KF;\<close>
\<close>

definition force_kf_flags :: "int \<Rightarrow> int \<Rightarrow> int" where
  "force_kf_flags frame_count keyframe_interval =
     (let flags = 0 in
      if keyframe_interval > 0 \<and> frame_count smod keyframe_interval = 0
      then flags OR AOM_EFLAG_FORCE_KF
      else flags)"

text \<open>A keyframe is forced on a submission when the flag's bit is set in its flags.\<close>

definition forces_keyframe :: "int \<Rightarrow> bool" where
  "forces_keyframe flags = (flags AND AOM_EFLAG_FORCE_KF \<noteq> 0)"

subsection \<open>Memory, streams and the frame reader (aom_img_read, lines 206-224)\<close>

type_synonym byte = "8 word"

text \<open>
  Memory is a store from addresses to bytes. A pointer is an address, so \<open>buf += stride\<close>
  is addition, and writes through overlapping rows overwrite each other as they do in C.
\<close>

type_synonym memory = "int \<Rightarrow> byte"

definition store_bytes :: "memory \<Rightarrow> int \<Rightarrow> byte list \<Rightarrow> memory" where
  "store_bytes m a bs =
     (\<lambda>x. if a \<le> x \<and> x < a + int (length bs) then bs ! nat (x - a) else m x)"

text \<open>
  The fields of \<open>aom_image_t\<close> that the reader uses. \<open>aom_img_plane_width\<close> and
  \<open>aom_img_plane_height\<close> are libaom functions of the image and the plane; their values
  are fields here, as is the test \<open>img->fmt & AOM_IMG_FMT_HIGHBITDEPTH\<close>.
\<close>

record aom_image_t =
  planes :: "nat \<Rightarrow> int"
  stride :: "nat \<Rightarrow> int"
  aom_img_plane_width :: "nat \<Rightarrow> nat"
  aom_img_plane_height :: "nat \<Rightarrow> nat"
  fmt_highbitdepth :: bool

text \<open>
  An input stream is the list of bytes not yet read. \<open>fread(buf, 1, n, file)\<close> copies
  the next \<open>n\<close> bytes to \<open>buf\<close>, or as many as are left, and returns how many it copied.
\<close>

definition fread :: "int \<Rightarrow> nat \<Rightarrow> byte list \<Rightarrow> memory \<Rightarrow> nat \<times> byte list \<times> memory" where
  "fread buf n file m =
     (let got = take n file in (length got, drop n file, store_bytes m buf got))"

text \<open>
  \<^verbatim>\<open>for (y = 0; y < h; ++y) {
    if (fread(buf, 1, w, file) != (size_t)w) return 0;
    buf += stride;
  }\<close>
  The boolean is \<open>False\<close> when the loop left the function by \<open>return 0\<close>.
\<close>

function read_rows ::
  "nat \<Rightarrow> nat \<Rightarrow> int \<Rightarrow> int \<Rightarrow> nat \<Rightarrow> byte list \<Rightarrow> memory \<Rightarrow> bool \<times> byte list \<times> memory" where
  "read_rows y h buf strd w file m =
     (if y < h then
        (case fread buf w file m of
           (n, file', m') \<Rightarrow>
             if n \<noteq> w then (False, file', m')
             else read_rows (Suc y) h (buf + strd) strd w file' m')
      else (True, file, m))"
  by pat_completeness auto
termination
  by (relation "measure (\<lambda>(y, h, buf, strd, w, file, m). h - y)") auto

declare read_rows.simps [simp del]

text \<open>The bytes of one row of a plane: \<open>aom_img_plane_width * (highbitdepth ? 2 : 1)\<close>.\<close>

definition row_bytes :: "aom_image_t \<Rightarrow> nat \<Rightarrow> nat" where
  "row_bytes img plane =
     aom_img_plane_width img plane * (if fmt_highbitdepth img then 2 else 1)"

function read_planes ::
  "nat \<Rightarrow> aom_image_t \<Rightarrow> byte list \<Rightarrow> memory \<Rightarrow> int \<times> byte list \<times> memory" where
  "read_planes plane img file m =
     (if plane < 3 then
        (let buf = planes img plane;
             strd = stride img plane;
             w = row_bytes img plane;
             h = aom_img_plane_height img plane
         in case read_rows 0 h buf strd w file m of
              (False, file', m') \<Rightarrow> (0, file', m')
            | (True, file', m') \<Rightarrow> read_planes (Suc plane) img file' m')
      else (1, file, m))"
  by pat_completeness auto
termination
  by (relation "measure (\<lambda>(plane, img, file, m). 3 - plane)") auto

declare read_planes.simps [simp del]

definition aom_img_read :: "aom_image_t \<Rightarrow> byte list \<Rightarrow> memory \<Rightarrow> int \<times> byte list \<times> memory" where
  "aom_img_read img file m = read_planes 0 img file m"

text \<open>The bytes of one plane, and of a whole frame.\<close>

definition plane_bytes :: "aom_image_t \<Rightarrow> nat \<Rightarrow> nat" where
  "plane_bytes img plane = aom_img_plane_height img plane * row_bytes img plane"

definition frame_bytes :: "aom_image_t \<Rightarrow> nat" where
  "frame_bytes img = plane_bytes img 0 + plane_bytes img 1 + plane_bytes img 2"

text \<open>Where row \<open>y\<close> of plane \<open>p\<close> starts: in the input frame, and in memory.\<close>

definition row_offset :: "aom_image_t \<Rightarrow> nat \<Rightarrow> nat \<Rightarrow> nat" where
  "row_offset img p y = (\<Sum>q<p. plane_bytes img q) + y * row_bytes img p"

definition row_addr :: "aom_image_t \<Rightarrow> nat \<Rightarrow> nat \<Rightarrow> int" where
  "row_addr img p y = planes img p + int y * stride img p"

subsection \<open>The process: state, outcomes, and what lies outside the file\<close>

text \<open>
  A function that can call \<open>exit\<close> returns an outcome: its value, or the exit status, or
  \<open>Undefined\<close> where C gives the step no meaning (signed overflow of a frame counter).
\<close>

datatype 'a outcome = Return 'a | Exit int | Undefined

definition EXIT_SUCCESS :: int where "EXIT_SUCCESS = 0"

definition EXIT_FAILURE :: int where "EXIT_FAILURE = 1"

definition AOM_CODEC_OK :: int where "AOM_CODEC_OK = 0"

definition INT_MAX :: int where "INT_MAX = 2147483647"

text \<open>
  A packet is a tagged union; the program reads the fields of a frame packet only:
  \<open>data.frame.buf\<close> with its \<open>sz\<close> bytes, and \<open>data.frame.flags\<close>. Every other kind
  keeps its tag.
\<close>

datatype aom_codec_cx_pkt_t =
    AOM_CODEC_CX_FRAME_PKT (frame_buf: "byte list") (frame_flags: int)
  | Other_pkt nat

definition AOM_FRAME_IS_KEY :: int where
  "AOM_FRAME_IS_KEY = 1"

text \<open>
  What \<open>printf\<close> and \<open>fprintf(stderr, \<dots>)\<close> were called with: the format and its
  arguments, in call order. The library calls that allocate something or act on the
  encoder session or on a file are recorded the same way, in \<open>calls\<close>: the record is
  what the properties of the protocol are stated on. (The two read-only queries
  \<open>aom_codec_error\<close> and \<open>aom_codec_error_detail\<close> are not recorded.)
\<close>

datatype fmt_arg = S string | D int

datatype ctrl_id = AOME_SET_CPUUSED | AOME_SET_CQ_LEVEL

datatype call =
    Img_alloc int int
  | Enc_config_default
  | Fopen string string
  | Enc_init
  | Control ctrl_id int
  | Encode bool int int int
  | Get_cx_data bool
  | Fclose string
  | Img_free
  | Destroy

text \<open>
  \<open>Encode real pts duration flags\<close>: a call of \<open>aom_codec_encode\<close>, \<open>real\<close> when the
  image pointer was not \<open>NULL\<close>. \<open>Get_cx_data got\<close>: a call of \<open>aom_codec_get_cx_data\<close>,
  \<open>got\<close> when it returned a packet.
\<close>

record 's world =
  codec :: 's
  mem :: memory
  infile :: "byte list"
  outfile :: "byte list"
  outlimit :: "nat option"
  stdout :: "(string \<times> fmt_arg list) list"
  stderr :: "(string \<times> fmt_arg list) list"
  calls :: "call list"

text \<open>
  \<open>codec\<close> is the state of the \<open>aom_codec_ctx_t\<close>; \<open>infile\<close> the unread rest of the
  input; \<open>outfile\<close> the bytes written to the output so far; \<open>outlimit\<close> how many more
  bytes the output can take (\<open>None\<close>: any number), which is where a short write comes
  from.
\<close>

record aom_codec_enc_cfg_t =
  g_w :: int
  g_h :: int
  g_timebase_num :: int
  g_timebase_den :: int
  rc_target_bitrate :: int
  g_usage :: int
  g_error_resilient :: int

text \<open>
  libaom and the file system, as the program meets them. The encoder session is opaque:
  its state is any type \<open>'s\<close>, and each call is a function of that state. An iterator
  (\<open>aom_codec_iter_t\<close>) is a pointer value, \<open>0\<close> for \<open>NULL\<close>. \<open>fopen_rb\<close> gives the
  contents of a file that opens for reading; \<open>fopen_wb\<close> the limit of one that opens for
  writing.
\<close>

record 's env =
  aom_img_alloc :: "int \<Rightarrow> int \<Rightarrow> aom_image_t option"
  aom_codec_iface_name :: string
  aom_codec_enc_config_default :: int
  aom_codec_enc_init :: "aom_codec_enc_cfg_t \<Rightarrow> int \<times> 's"
  aom_codec_control :: "'s \<Rightarrow> ctrl_id \<Rightarrow> int \<Rightarrow> 's"
  aom_codec_encode :: "'s \<Rightarrow> (aom_image_t \<times> memory) option \<Rightarrow> int \<Rightarrow> int \<Rightarrow> int \<Rightarrow> int \<times> 's"
  aom_codec_get_cx_data :: "'s \<Rightarrow> nat \<Rightarrow> aom_codec_cx_pkt_t option \<times> nat \<times> 's"
  aom_codec_error :: "'s \<Rightarrow> string"
  aom_codec_error_detail :: "'s \<Rightarrow> string option"
  aom_codec_destroy :: "'s \<Rightarrow> int \<times> 's"
  fopen_rb :: "string \<Rightarrow> byte list option"
  fopen_wb :: "string \<Rightarrow> nat option option"

definition printf :: "string \<Rightarrow> fmt_arg list \<Rightarrow> 's world \<Rightarrow> 's world" where
  "printf fmt as w = w\<lparr>stdout := stdout w @ [(fmt, as)]\<rparr>"

definition fprintf_stderr :: "string \<Rightarrow> fmt_arg list \<Rightarrow> 's world \<Rightarrow> 's world" where
  "fprintf_stderr fmt as w = w\<lparr>stderr := stderr w @ [(fmt, as)]\<rparr>"

definition called :: "call \<Rightarrow> 's world \<Rightarrow> 's world" where
  "called c w = w\<lparr>calls := calls w @ [c]\<rparr>"

text \<open>
  \<open>fwrite(buf, 1, sz, outfile)\<close> with the \<open>sz\<close> bytes at \<open>buf\<close>: it appends what the
  output can take and returns how many bytes that was.
\<close>

definition fwrite :: "byte list \<Rightarrow> 's world \<Rightarrow> nat \<times> 's world" where
  "fwrite bs w =
     (case outlimit w of
        None \<Rightarrow> (length bs, w\<lparr>outfile := outfile w @ bs\<rparr>)
      | Some room \<Rightarrow>
          (let put = take room bs
           in (length put,
               w\<lparr>outfile := outfile w @ put, outlimit := Some (room - length put)\<rparr>)))"

subsection \<open>Leaving the process (usage_exit, die, die_codec; lines 138-176)\<close>

definition usage_text :: string where
  "usage_text = ''Usage: %s <codec> <width> <height> <infile> <outfile> <keyframe-interval> <error-resilient> <frames to encode>\<newline>See comments in simple_encoder.c for more information.\<newline>''"

definition usage_exit :: "string \<Rightarrow> 's world \<Rightarrow> 'a outcome \<times> 's world" where
  "usage_exit exec w = (Exit EXIT_FAILURE, fprintf_stderr usage_text [S exec] w)"

text \<open>\<open>die\<close> logs its message and a newline to \<open>stderr\<close> (\<open>LOG_ERROR(NULL)\<close>), then \<open>usage_exit\<close>.\<close>

definition die :: "string \<Rightarrow> fmt_arg list \<Rightarrow> string \<Rightarrow> 's world \<Rightarrow> 'a outcome \<times> 's world" where
  "die fmt as exec w =
     usage_exit exec (fprintf_stderr ''\<newline>'' [] (fprintf_stderr fmt as w))"

definition die_codec :: "'s env \<Rightarrow> string \<Rightarrow> 's world \<Rightarrow> 'a outcome \<times> 's world" where
  "die_codec L msg w =
     (let detail = aom_codec_error_detail L (codec w);
          w1 = printf ''%s: %s\<newline>'' [S msg, S (aom_codec_error L (codec w))] w;
          w2 = (case detail of None \<Rightarrow> w1 | Some d \<Rightarrow> printf ''    %s\<newline>'' [S d] w1)
      in (Exit EXIT_FAILURE, w2))"

subsection \<open>Submitting a frame and draining the packets (encode_frame, lines 227-251)\<close>

text \<open>
  The \<open>while\<close> loop of \<open>encode_frame\<close>, with \<open>iter\<close> and \<open>got_pkts\<close> as its variables. The
  session decides how long it runs, so the loop is a partial function: \<open>None\<close> is a loop
  that never ends.
\<close>

partial_function (option) get_pkts ::
  "'s env \<Rightarrow> nat \<Rightarrow> int \<Rightarrow> 's world \<Rightarrow> (int outcome \<times> 's world) option" where
  "get_pkts L iter got_pkts w =
     (case aom_codec_get_cx_data L (codec w) iter of
        (pkt, iter', s') \<Rightarrow>
          (let w1 = called (Get_cx_data (pkt \<noteq> None)) (w\<lparr>codec := s'\<rparr>)
           in case pkt of
                None \<Rightarrow> Some (Return got_pkts, w1)
              | Some (AOM_CODEC_CX_FRAME_PKT buf flags) \<Rightarrow>
                  (let keyframe = (flags AND AOM_FRAME_IS_KEY \<noteq> 0)
                   in case fwrite buf w1 of
                        (n, w2) \<Rightarrow>
                          if n \<noteq> length buf
                          then Some (die_codec L ''Failed to write compressed frame'' w2)
                          else get_pkts L iter' 1
                                 (printf (if keyframe then ''K'' else ''.'') [] w2))
              | Some (Other_pkt k) \<Rightarrow> get_pkts L iter' 1 w1))"

definition encode_frame ::
  "'s env \<Rightarrow> aom_image_t option \<Rightarrow> int \<Rightarrow> int \<Rightarrow> 's world \<Rightarrow> (int outcome \<times> 's world) option" where
  "encode_frame L img frame_index flags w =
     (case aom_codec_encode L (codec w) (map_option (\<lambda>i. (i, mem w)) img) frame_index 1 flags of
        (res, s') \<Rightarrow>
          (let w1 = called (Encode (img \<noteq> None) frame_index 1 flags) (w\<lparr>codec := s'\<rparr>)
           in if res \<noteq> AOM_CODEC_OK then Some (die_codec L ''Failed to encode frame'' w1)
              else get_pkts L 0 0 w1))"

subsection \<open>The input loop and the flush loop (main, lines 364-376)\<close>

text \<open>
  One pass through the body of \<open>while (aom_img_read(&raw, infile)) { \<dots> }\<close>, from the
  loop test on. It ends in \<open>Continue\<close> with the two counters for the next pass, or in
  \<open>Leave\<close>: the loop test failed or \<open>break\<close> was taken (\<open>Return\<close> with the counters), or
  the process exited.
\<close>

datatype loop_step = Continue int int | Leave "(int \<times> int) outcome"

definition main_iter ::
  "'s env \<Rightarrow> aom_image_t \<Rightarrow> int \<Rightarrow> int \<Rightarrow> int \<Rightarrow> int \<Rightarrow> 's world \<Rightarrow> (loop_step \<times> 's world) option" where
  "main_iter L raw keyframe_interval max_frames frame_count frames_encoded w =
     (case aom_img_read raw (infile w) (mem w) of
        (ok, file', m') \<Rightarrow>
          (let w1 = w\<lparr>infile := file', mem := m'\<rparr>
           in if ok = 0 then Some (Leave (Return (frame_count, frames_encoded)), w1)
              else
                (let flags = force_kf_flags frame_count keyframe_interval
                 in if frame_count = INT_MAX then Some (Leave Undefined, w1)
                    else
                      (case encode_frame L (Some raw) frame_count flags w1 of
                         None \<Rightarrow> None
                       | Some (Exit c, w2) \<Rightarrow> Some (Leave (Exit c), w2)
                       | Some (Undefined, w2) \<Rightarrow> Some (Leave Undefined, w2)
                       | Some (Return got, w2) \<Rightarrow>
                           (let w3 = printf ''encoded_frame: %d\<newline>'' [D frames_encoded] w2
                            in if frames_encoded = INT_MAX then Some (Leave Undefined, w3)
                               else if max_frames > 0 \<and> frames_encoded + 1 \<ge> max_frames
                               then Some (Leave (Return (frame_count + 1, frames_encoded + 1)), w3)
                               else Some (Continue (frame_count + 1) (frames_encoded + 1), w3))))))"

partial_function (option) main_loop ::
  "'s env \<Rightarrow> aom_image_t \<Rightarrow> int \<Rightarrow> int \<Rightarrow> int \<Rightarrow> int \<Rightarrow> 's world
     \<Rightarrow> ((int \<times> int) outcome \<times> 's world) option" where
  "main_loop L raw keyframe_interval max_frames frame_count frames_encoded w =
     (case main_iter L raw keyframe_interval max_frames frame_count frames_encoded w of
        None \<Rightarrow> None
      | Some (Leave out, w') \<Rightarrow> Some (out, w')
      | Some (Continue frame_count' frames_encoded', w') \<Rightarrow>
          main_loop L raw keyframe_interval max_frames frame_count' frames_encoded' w')"

text \<open>\<^verbatim>\<open>while (encode_frame(&codec, NULL, -1, 0, outfile)) continue;\<close>\<close>

partial_function (option) flush_loop ::
  "'s env \<Rightarrow> 's world \<Rightarrow> (unit outcome \<times> 's world) option" where
  "flush_loop L w =
     (case encode_frame L None (- 1) 0 w of
        None \<Rightarrow> None
      | Some (Exit c, w') \<Rightarrow> Some (Exit c, w')
      | Some (Undefined, w') \<Rightarrow> Some (Undefined, w')
      | Some (Return got, w') \<Rightarrow>
          if got \<noteq> 0 then flush_loop L w' else Some (Return (), w'))"

subsection \<open>The codec table (lines 178-203)\<close>

record AvxInterface =
  name :: string
  fourcc :: "32 word"

definition AV1_FOURCC :: "32 word" where
  "AV1_FOURCC = 0x31305641"

definition aom_encoders :: "AvxInterface list" where
  "aom_encoders = [\<lparr>name = ''av1'', fourcc = AV1_FOURCC\<rparr>]"

text \<open>The loop of \<open>get_aom_encoder_by_name\<close>: the first entry with that name, or \<open>NULL\<close>.\<close>

function get_aom_encoder_from :: "nat \<Rightarrow> string \<Rightarrow> AvxInterface option" where
  "get_aom_encoder_from i nm =
     (if i < length aom_encoders then
        (let encoder = aom_encoders ! i
         in if name encoder = nm then Some encoder else get_aom_encoder_from (Suc i) nm)
      else None)"
  by pat_completeness auto
termination
  by (relation "measure (\<lambda>(i, nm). length aom_encoders - i)") auto

declare get_aom_encoder_from.simps [simp del]

definition get_aom_encoder_by_name :: "string \<Rightarrow> AvxInterface option" where
  "get_aom_encoder_by_name nm = get_aom_encoder_from 0 nm"

subsection \<open>main (lines 254-388)\<close>

text \<open>
  The configuration \<open>main\<close> works from. In the file the values are written into \<open>main\<close>
  (the lines that took them from \<open>argv\<close> are commented out); \<open>main_body\<close> is \<open>main\<close>
  with them as a parameter, and \<open>main\<close> is \<open>main_body\<close> at the values of the file.
  The numbers are the results of \<open>strtol\<close> on the argument strings.
\<close>

record args =
  exec_name :: string
  codec_arg :: string
  frame_width :: int
  frame_height :: int
  infile_arg :: string
  outfile_arg :: string
  keyframe_interval :: int
  error_resilient :: int
  max_frames :: int

text \<open>Lines 378-387: after the flush loop.\<close>

definition finish :: "'s env \<Rightarrow> args \<Rightarrow> int \<Rightarrow> 's world \<Rightarrow> int outcome \<times> 's world" where
  "finish L a frame_count w =
     (let w1 = printf ''\<newline>'' [] w;
          w2 = called (Fclose (infile_arg a)) w1;
          w3 = printf ''Processed %d frames.\<newline>'' [D frame_count] w2;
          w4 = called Img_free w3
      in case aom_codec_destroy L (codec w4) of
           (res, s') \<Rightarrow>
             (let w5 = called Destroy (w4\<lparr>codec := s'\<rparr>)
              in if res \<noteq> 0 then die_codec L ''Failed to destroy codec.'' w5
                 else (Return EXIT_SUCCESS,
                       printf ''Process completed'' [] (called (Fclose (outfile_arg a)) w5))))"

text \<open>Lines 364-387: the input loop, the flush loop and the end.\<close>

definition encode_frames :: "'s env \<Rightarrow> args \<Rightarrow> aom_image_t \<Rightarrow> 's world \<Rightarrow> (int outcome \<times> 's world) option" where
  "encode_frames L a raw w =
     (case main_loop L raw (keyframe_interval a) (max_frames a) 0 0 w of
        None \<Rightarrow> None
      | Some (Exit c, w1) \<Rightarrow> Some (Exit c, w1)
      | Some (Undefined, w1) \<Rightarrow> Some (Undefined, w1)
      | Some (Return (frame_count, frames_encoded), w1) \<Rightarrow>
          (case flush_loop L w1 of
             None \<Rightarrow> None
           | Some (Exit c, w2) \<Rightarrow> Some (Exit c, w2)
           | Some (Undefined, w2) \<Rightarrow> Some (Undefined, w2)
           | Some (Return u, w2) \<Rightarrow> Some (finish L a frame_count w2)))"

text \<open>
  Lines 343-349: the configuration handed to \<open>aom_codec_enc_init\<close>, as far as \<open>main\<close>
  sets it (\<open>fps\<close> is 30 and \<open>bitrate\<close> 200 in the file).
\<close>

definition main_cfg :: "args \<Rightarrow> aom_codec_enc_cfg_t" where
  "main_cfg a =
     \<lparr>g_w = frame_width a, g_h = frame_height a, g_timebase_num = 1,
      g_timebase_den = 30, rc_target_bitrate = 200, g_usage = 8,
      g_error_resilient = error_resilient a\<rparr>"

text \<open>
  Lines 276-362: everything before the loops. \<open>s0\<close> and \<open>m0\<close> are what the
  uninitialised \<open>codec\<close> and the memory hold when \<open>main\<close> starts. The result is the
  allocated image \<open>raw\<close>, unless the process exited.
\<close>

definition main_setup :: "'s env \<Rightarrow> args \<Rightarrow> 's \<Rightarrow> memory \<Rightarrow> aom_image_t outcome \<times> 's world" where
  "main_setup L a s0 m0 =
     (let w = \<lparr>codec = s0, mem = m0, infile = [], outfile = [], outlimit = None,
                stdout = [], stderr = [], calls = []\<rparr>
      in case get_aom_encoder_by_name (codec_arg a) of
           None \<Rightarrow> die ''Unsupported codec.'' [] (exec_name a) w
         | Some encoder \<Rightarrow>
      if frame_width a \<le> 0 \<or> frame_height a \<le> 0 \<or>
         frame_width a smod 2 \<noteq> 0 \<or> frame_height a smod 2 \<noteq> 0
      then die ''Invalid frame size: %dx%d'' [D (frame_width a), D (frame_height a)]
             (exec_name a) w
      else
      (let w = called (Img_alloc (frame_width a) (frame_height a)) w
       in case aom_img_alloc L (frame_width a) (frame_height a) of
            None \<Rightarrow> die ''Failed to allocate image.'' [] (exec_name a) w
          | Some raw \<Rightarrow>
      if keyframe_interval a < 0
      then die ''Invalid keyframe interval value.'' [] (exec_name a) w
      else
      (let w = printf ''Using %s\<newline>'' [S (aom_codec_iface_name L)] w;
           w = called Enc_config_default w
       in if aom_codec_enc_config_default L \<noteq> 0
          then die_codec L ''Failed to get default codec config.'' w
          else
      (let cfg = main_cfg a;
           w = called (Fopen (infile_arg a) ''rb'') w
       in case fopen_rb L (infile_arg a) of
            None \<Rightarrow> die ''Failed to open %s for reading.'' [S (infile_arg a)] (exec_name a) w
          | Some bytes \<Rightarrow>
      (let w = called (Fopen (outfile_arg a) ''wb'') (w\<lparr>infile := bytes\<rparr>)
       in case fopen_wb L (outfile_arg a) of
            None \<Rightarrow> die ''Failed to open %s for reading.'' [S (outfile_arg a)] (exec_name a) w
          | Some limit \<Rightarrow>
      (let w = w\<lparr>outfile := [], outlimit := limit\<rparr>
       in case aom_codec_enc_init L cfg of
         (res, s1) \<Rightarrow>
      (let w = called Enc_init (w\<lparr>codec := s1\<rparr>)
       in if res \<noteq> 0 then die_codec L ''Failed to initialize encoder'' w
          else
      (let w = called (Control AOME_SET_CPUUSED 8)
                 (w\<lparr>codec := aom_codec_control L (codec w) AOME_SET_CPUUSED 8\<rparr>);
           w = called (Control AOME_SET_CQ_LEVEL 45)
                 (w\<lparr>codec := aom_codec_control L (codec w) AOME_SET_CQ_LEVEL 45\<rparr>)
       in (Return raw, w)))))))))"

definition main_body :: "'s env \<Rightarrow> args \<Rightarrow> 's \<Rightarrow> memory \<Rightarrow> (int outcome \<times> 's world) option" where
  "main_body L a s0 m0 =
     (case main_setup L a s0 m0 of
        (Return raw, w) \<Rightarrow> encode_frames L a raw w
      | (Exit c, w) \<Rightarrow> Some (Exit c, w)
      | (Undefined, w) \<Rightarrow> Some (Undefined, w))"

definition main_args :: "string \<Rightarrow> args" where
  "main_args argv0 =
     \<lparr>exec_name = argv0, codec_arg = ''av1'', frame_width = 416, frame_height = 240,
      infile_arg = ''99_BasketballPass_416x240_50.yuv'', outfile_arg = ''test.obu'',
      keyframe_interval = 30, error_resilient = 0, max_frames = 50\<rparr>"

definition main :: "'s env \<Rightarrow> string \<Rightarrow> 's \<Rightarrow> memory \<Rightarrow> (int outcome \<times> 's world) option" where
  "main L argv0 s0 m0 = main_body L (main_args argv0) s0 m0"

subsection \<open>Notions the properties are stated with\<close>

text \<open>The bytes of planes \<open>p\<close> to 2 of a frame.\<close>

definition planes_from :: "aom_image_t \<Rightarrow> nat \<Rightarrow> nat" where
  "planes_from img p = (\<Sum>q = p..<3. plane_bytes img q)"

text \<open>
  A frame buffer whose rows do not overlap: in every plane the stride is at least the
  row's bytes, and the planes follow each other in memory.
\<close>

definition planes_laid_out :: "aom_image_t \<Rightarrow> bool" where
  "planes_laid_out img =
     ((\<forall>p<3. int (row_bytes img p) \<le> stride img p) \<and>
      (\<forall>p q. p < q \<and> q < 3 \<longrightarrow>
         planes img p + int (aom_img_plane_height img p) * stride img p \<le> planes img q))"

text \<open>
  The session, polled from state \<open>s\<close> with iterator \<open>it\<close>, hands out the packets \<open>ps\<close>
  one by one, then \<open>NULL\<close>, and is left in state \<open>s'\<close>.
\<close>

inductive yields :: "'s env \<Rightarrow> 's \<Rightarrow> nat \<Rightarrow> aom_codec_cx_pkt_t list \<Rightarrow> 's \<Rightarrow> bool"
  for L :: "'s env" where
    yields_end: "aom_codec_get_cx_data L s it = (None, it', s') \<Longrightarrow> yields L s it [] s'"
  | yields_pkt: "aom_codec_get_cx_data L s it = (Some p, it', s1) \<Longrightarrow> yields L s1 it' ps s'
                 \<Longrightarrow> yields L s it (p # ps) s'"

text \<open>The bytes a packet stands for in the output: its payload if it is a frame packet.\<close>

fun payload :: "aom_codec_cx_pkt_t \<Rightarrow> byte list" where
  "payload (AOM_CODEC_CX_FRAME_PKT b f) = b"
| "payload (Other_pkt k) = []"

text \<open>The output bytes of a sequence of packets, and an output that can take \<open>n\<close> bytes.\<close>

definition output_of :: "aom_codec_cx_pkt_t list \<Rightarrow> byte list" where
  "output_of ps = concat (map payload ps)"

definition room_for :: "nat \<Rightarrow> 's world \<Rightarrow> bool" where
  "room_for n w = (case outlimit w of None \<Rightarrow> True | Some room \<Rightarrow> n \<le> room)"

text \<open>The submissions among recorded calls: (real frame, frame index, flags).\<close>

definition submits :: "call list \<Rightarrow> (bool \<times> int \<times> int) list" where
  "submits cs = concat (map (\<lambda>c. case c of Encode r p d f \<Rightarrow> [(r, p, f)] | _ \<Rightarrow> []) cs)"

text \<open>The calls of \<open>aom_codec_get_cx_data\<close> among recorded calls.\<close>

definition is_get :: "call \<Rightarrow> bool" where
  "is_get c = (c = Get_cx_data True \<or> c = Get_cx_data False)"

text \<open>
  Submissions of \<open>n\<close> real frames with frame indices \<open>fc, fc + 1, \<dots>\<close>, each with the
  flags the keyframe schedule gives its index.
\<close>

definition real_submits :: "int \<Rightarrow> int \<Rightarrow> nat \<Rightarrow> (bool \<times> int \<times> int) list" where
  "real_submits ki fc n = map (\<lambda>k. (True, fc + int k, force_kf_flags (fc + int k) ki)) [0..<n]"

text \<open>
  The states in which the input loop is at its head: at the start, with both counters 0,
  and after each pass that ends in \<open>Continue\<close>.
\<close>

inductive loop_head ::
  "'s env \<Rightarrow> aom_image_t \<Rightarrow> int \<Rightarrow> int \<Rightarrow> 's world \<Rightarrow> int \<Rightarrow> int \<Rightarrow> 's world \<Rightarrow> bool"
  for L :: "'s env" and raw ki mf w0 where
    loop_start: "loop_head L raw ki mf w0 0 0 w0"
  | loop_again: "loop_head L raw ki mf w0 fc fe w \<Longrightarrow>
                 main_iter L raw ki mf fc fe w = Some (Continue fc' fe', w') \<Longrightarrow>
                 loop_head L raw ki mf w0 fc' fe' w'"

text \<open>The report of the frame count on \<open>stdout\<close> (line 380).\<close>

definition processed_msg :: "int \<Rightarrow> string \<times> fmt_arg list" where
  "processed_msg n = (''Processed %d frames.\<newline>'', [D n])"

text \<open>
  What \<open>die\<close> leaves on \<open>stderr\<close>: the message, a newline, the usage text. And the
  world \<open>main\<close> starts in.
\<close>

definition usage_report :: "string \<Rightarrow> string \<Rightarrow> fmt_arg list \<Rightarrow> (string \<times> fmt_arg list) list" where
  "usage_report exec fmt as = [(fmt, as), (''\<newline>'', []), (usage_text, [S exec])]"

definition initial_world :: "'s \<Rightarrow> memory \<Rightarrow> 's world" where
  "initial_world s0 m0 =
     \<lparr>codec = s0, mem = m0, infile = [], outfile = [], outlimit = None,
      stdout = [], stderr = [], calls = []\<rparr>"

text \<open>The geometry test of lines 318-319.\<close>

definition bad_frame_size :: "args \<Rightarrow> bool" where
  "bad_frame_size a =
     (frame_width a \<le> 0 \<or> frame_height a \<le> 0 \<or>
      frame_width a smod 2 \<noteq> 0 \<or> frame_height a smod 2 \<noteq> 0)"

text \<open>
  A session that holds a number of packets, \<open>held s\<close> in state \<open>s\<close>: handing a packet
  out takes it from those held, and a null submission adds none. (A submission of a
  real frame may add any number.) This is the session "with a lookahead of \<open>n\<close> buffered
  packets" when \<open>held s = n\<close> at the start of the flush.
\<close>

definition drains_down :: "'s env \<Rightarrow> ('s \<Rightarrow> nat) \<Rightarrow> bool" where
  "drains_down L held =
     (\<forall>s it. case aom_codec_get_cx_data L s it of
               (pkt, it', s') \<Rightarrow> if pkt = None then held s' \<le> held s else held s' < held s)"

definition null_submit_adds_none :: "'s env \<Rightarrow> ('s \<Rightarrow> nat) \<Rightarrow> bool" where
  "null_submit_adds_none L held =
     (\<forall>s. held (snd (aom_codec_encode L s None (- 1) 1 0)) \<le> held s)"

text \<open>Every submission is accepted, and \<open>aom_codec_destroy\<close> succeeds.\<close>

definition encode_succeeds :: "'s env \<Rightarrow> bool" where
  "encode_succeeds L = (\<forall>s img pts d fl. fst (aom_codec_encode L s img pts d fl) = AOM_CODEC_OK)"

definition destroy_succeeds :: "'s env \<Rightarrow> bool" where
  "destroy_succeeds L = (\<forall>s. fst (aom_codec_destroy L s) = 0)"

text \<open>
  What the drain prints for a packet: \<open>K\<close> or \<open>.\<close> for a frame packet, nothing for a
  packet of another kind.
\<close>

fun pkt_mark :: "aom_codec_cx_pkt_t \<Rightarrow> (string \<times> fmt_arg list) list" where
  "pkt_mark (AOM_CODEC_CX_FRAME_PKT b f) =
     [(if f AND AOM_FRAME_IS_KEY \<noteq> 0 then ''K'' else ''.'', [])]"
| "pkt_mark (Other_pkt k) = []"

definition marks :: "aom_codec_cx_pkt_t list \<Rightarrow> (string \<times> fmt_arg list) list" where
  "marks ps = concat (map pkt_mark ps)"

text \<open>
  The calls one cycle of submitting and draining records when the session hands out the
  packets \<open>ps\<close>: the submission, a poll for each packet, and the poll that returns
  \<open>NULL\<close>. And the calls of the cycles of a flush, one list of packets for each cycle.
\<close>

definition cycle_calls :: "bool \<Rightarrow> int \<Rightarrow> int \<Rightarrow> aom_codec_cx_pkt_t list \<Rightarrow> call list" where
  "cycle_calls real pts fl ps =
     Encode real pts 1 fl # replicate (length ps) (Get_cx_data True) @ [Get_cx_data False]"

definition flush_calls :: "aom_codec_cx_pkt_t list list \<Rightarrow> call list" where
  "flush_calls pss = concat (map (cycle_calls False (- 1) 0) pss)"

text \<open>
  The world \<open>w\<close> after the calls \<open>cs\<close> that drained the packets \<open>ps\<close> and left the
  session in state \<open>s'\<close>: the payloads of the frame packets are in the output, their
  marks on \<open>stdout\<close>, and nothing else has changed.
\<close>

definition after_drains ::
  "call list \<Rightarrow> aom_codec_cx_pkt_t list \<Rightarrow> 's \<Rightarrow> 's world \<Rightarrow> 's world" where
  "after_drains cs ps s' w =
     w\<lparr>codec := s', outfile := outfile w @ output_of ps,
       outlimit := map_option (\<lambda>room. room - length (output_of ps)) (outlimit w),
       stdout := stdout w @ marks ps, calls := calls w @ cs\<rparr>"

text \<open>
  The session under a flush. From state \<open>s\<close> it accepts a null submission and then hands
  out the packets of the first list; if that list has a packet, it goes on in the same
  way with the next list; the list without a packet is the last one, and leaves the
  session in state \<open>s'\<close>. This is a notion of the session alone: the driver plays no part
  in it.
\<close>

inductive flush_cycles :: "'s env \<Rightarrow> 's \<Rightarrow> aom_codec_cx_pkt_t list list \<Rightarrow> 's \<Rightarrow> bool"
  for L :: "'s env" where
    last_cycle: "aom_codec_encode L s None (- 1) 1 0 = (AOM_CODEC_OK, s1) \<Longrightarrow>
                 yields L s1 0 [] s' \<Longrightarrow> flush_cycles L s [[]] s'"
  | next_cycle: "aom_codec_encode L s None (- 1) 1 0 = (AOM_CODEC_OK, s1) \<Longrightarrow>
                 yields L s1 0 ps s2 \<Longrightarrow> ps \<noteq> [] \<Longrightarrow> flush_cycles L s2 pss s' \<Longrightarrow>
                 flush_cycles L s (ps # pss) s'"

text \<open>Every null submission is accepted.\<close>

definition null_submit_succeeds :: "'s env \<Rightarrow> bool" where
  "null_submit_succeeds L = (\<forall>s. fst (aom_codec_encode L s None (- 1) 1 0) = AOM_CODEC_OK)"

subsection \<open>A test double\<close>

text \<open>
  A session for trying the driver: it keeps the packets of the last \<open>lookahead\<close> frames
  and releases the oldest one when a newer frame comes in; a null submission releases
  one packet if any is kept. A frame's packet carries the first byte of the frame's first
  plane and the low byte of its index, and is a key frame if that was asked for.
\<close>

record fake_session =
  waiting :: "aom_codec_cx_pkt_t list"
  ready :: "aom_codec_cx_pkt_t list"

definition fake_encode ::
  "nat \<Rightarrow> fake_session \<Rightarrow> (aom_image_t \<times> memory) option \<Rightarrow> int \<Rightarrow> int \<Rightarrow> int
     \<Rightarrow> int \<times> fake_session" where
  "fake_encode lookahead s img pts d fl =
     (case img of
        Some (i, m) \<Rightarrow>
          (let pkt = AOM_CODEC_CX_FRAME_PKT [m (planes i 0), word_of_int pts] (fl AND 1);
               q = waiting s @ [pkt]
           in if lookahead < length q
              then (0, \<lparr>waiting = tl q, ready = ready s @ [hd q]\<rparr>)
              else (0, \<lparr>waiting = q, ready = ready s\<rparr>))
      | None \<Rightarrow>
          (case waiting s of
             [] \<Rightarrow> (0, s)
           | p # q \<Rightarrow> (0, \<lparr>waiting = q, ready = ready s @ [p]\<rparr>)))"

definition fake_get_cx_data ::
  "fake_session \<Rightarrow> nat \<Rightarrow> aom_codec_cx_pkt_t option \<times> nat \<times> fake_session" where
  "fake_get_cx_data s it =
     (case ready s of
        [] \<Rightarrow> (None, it, s)
      | p # q \<Rightarrow> (Some p, Suc it, s\<lparr>ready := q\<rparr>))"

definition fake_held :: "fake_session \<Rightarrow> nat" where
  "fake_held s = length (waiting s) + length (ready s)"

text \<open>A 2x2 frame in 4:2:0: a 2x2 plane at address 0, then two 1x1 planes.\<close>

definition fake_image :: aom_image_t where
  "fake_image =
     \<lparr>planes = (\<lambda>p. if p = 0 then 0 else if p = 1 then 4 else 5),
      stride = (\<lambda>p. if p = 0 then 2 else 1),
      aom_img_plane_width = (\<lambda>p. if p = 0 then 2 else 1),
      aom_img_plane_height = (\<lambda>p. if p = 0 then 2 else 1),
      fmt_highbitdepth = False\<rparr>"

text \<open>
  The library and the files around the test double: one input file, one output file
  with a limit, and the result \<open>aom_codec_enc_init\<close> is to give.
\<close>

definition fake_env :: "nat \<Rightarrow> byte list \<Rightarrow> nat option \<Rightarrow> int \<Rightarrow> fake_session env" where
  "fake_env lookahead input limit init_res =
     \<lparr>aom_img_alloc = (\<lambda>w h. if w = 2 \<and> h = 2 then Some fake_image else None),
      aom_codec_iface_name = ''fake'',
      aom_codec_enc_config_default = 0,
      aom_codec_enc_init = (\<lambda>cfg. (init_res, \<lparr>waiting = [], ready = []\<rparr>)),
      aom_codec_control = (\<lambda>s c v. s),
      aom_codec_encode = fake_encode lookahead,
      aom_codec_get_cx_data = fake_get_cx_data,
      aom_codec_error = (\<lambda>s. ''Error''),
      aom_codec_error_detail = (\<lambda>s. Some ''detail''),
      aom_codec_destroy = (\<lambda>s. (0, s)),
      fopen_rb = (\<lambda>path. if path = ''in.yuv'' then Some input else None),
      fopen_wb = (\<lambda>path. if path = ''out.obu'' then Some limit else None)\<rparr>"

text \<open>Memory of zeros, and a world with the session in a given state and no call made.\<close>

definition blank_memory :: memory where
  "blank_memory = (\<lambda>a. 0)"

definition fake_world :: "fake_session \<Rightarrow> byte list \<Rightarrow> nat option \<Rightarrow> fake_session world" where
  "fake_world s input limit =
     \<lparr>codec = s, mem = (\<lambda>a. 0), infile = input, outfile = [], outlimit = limit,
      stdout = [], stderr = [], calls = []\<rparr>"

text \<open>Packets of both kinds, and three 2x2 frames of input.\<close>

definition three_pkts :: "aom_codec_cx_pkt_t list" where
  "three_pkts = [AOM_CODEC_CX_FRAME_PKT [1, 2] 1, Other_pkt 7, AOM_CODEC_CX_FRAME_PKT [3] 0]"

definition three_frames :: "byte list" where
  "three_frames = [1, 2, 3, 4, 5, 6, 7, 8, 9, 10, 11, 12, 13, 14, 15, 16, 17, 18]"

text \<open>
  Configurations for the test double: 2x2 frames, a keyframe every 2, at most 2 frames;
  and one with a negative keyframe interval.
\<close>

definition fake_args :: args where
  "fake_args =
     \<lparr>exec_name = ''enc'', codec_arg = ''av1'', frame_width = 2, frame_height = 2,
      infile_arg = ''in.yuv'', outfile_arg = ''out.obu'', keyframe_interval = 2,
      error_resilient = 0, max_frames = 2\<rparr>"

definition bad_interval_args :: args where
  "bad_interval_args =
     \<lparr>exec_name = ''enc'', codec_arg = ''av1'', frame_width = 2, frame_height = 2,
      infile_arg = ''in.yuv'', outfile_arg = ''out.obu'', keyframe_interval = - 1,
      error_resilient = 0, max_frames = 0\<rparr>"

text \<open>
  The world in which the loops start when \<open>main_body\<close> runs on the test double with
  \<open>fake_args\<close> and the given input.
\<close>

definition fake_start :: "byte list \<Rightarrow> fake_session world" where
  "fake_start input =
     \<lparr>codec = \<lparr>waiting = [], ready = []\<rparr>, mem = blank_memory, infile = input, outfile = [],
      outlimit = None, stdout = [(''Using %s\<newline>'', [S ''fake''])], stderr = [],
      calls = [Img_alloc 2 2, Enc_config_default, Fopen ''in.yuv'' ''rb'',
               Fopen ''out.obu'' ''wb'', Enc_init, Control AOME_SET_CPUUSED 8,
               Control AOME_SET_CQ_LEVEL 45]\<rparr>"

section \<open>Lemmas\<close>

lemma smod_zero_iff_mod_zero:
  fixes n k :: int
  shows "(n smod k = 0) = (n mod k = 0)"
proof -
  have "(n smod k = 0) = (\<bar>n\<bar> mod \<bar>k\<bar> = 0 \<or> n = 0)"
    by (auto simp: smod_int_alt_def sgn_if)
  also have "\<dots> = (\<bar>k\<bar> dvd \<bar>n\<bar>)"
    by (auto simp: dvd_eq_mod_eq_0)
  also have "\<dots> = (n mod k = 0)"
    by (simp add: dvd_eq_mod_eq_0 [symmetric])
  finally show ?thesis .
qed

subsection \<open>The frame reader\<close>

lemma fread_full:
  "n \<le> length inp \<Longrightarrow> fread buf n inp m = (n, drop n inp, store_bytes m buf (take n inp))"
  by (simp add: fread_def Let_def)

lemma fread_short:
  "length inp < n \<Longrightarrow> fread buf n inp m = (length inp, [], store_bytes m buf inp)"
  by (simp add: fread_def Let_def)

lemma read_rows_result:
  "read_rows y h buf strd w inp m = (ok, inp', m') \<Longrightarrow>
     ok = ((h - y) * w \<le> length inp) \<and> (ok \<longrightarrow> inp' = drop ((h - y) * w) inp)
     \<and> (\<not> ok \<longrightarrow> inp' = [])"
proof (induction y h buf strd w inp m arbitrary: ok inp' m' rule: read_rows.induct)
  case (1 y h buf strd w inp m)
  show ?case
  proof (cases "y < h")
    case False
    with "1.prems" show ?thesis by (simp add: read_rows.simps [of y])
  next
    case True
    then have hy: "(h - y) * w = w + (h - Suc y) * w"
      by (metis Suc_diff_Suc mult_Suc)
    show ?thesis
    proof (cases "w \<le> length inp")
      case False
      with True "1.prems" hy show ?thesis
        by (auto simp: read_rows.simps [of y] fread_short)
    next
      case full: True
      with True "1.prems"
      have rec: "read_rows (Suc y) h (buf + strd) strd w (drop w inp)
                   (store_bytes m buf (take w inp)) = (ok, inp', m')"
        by (simp add: read_rows.simps [of y] fread_full)
      from "1.IH" [OF True _ _ _ rec] full True
      have "ok = ((h - Suc y) * w \<le> length (drop w inp)) \<and>
            (ok \<longrightarrow> inp' = drop ((h - Suc y) * w) (drop w inp)) \<and> (\<not> ok \<longrightarrow> inp' = [])"
        by (simp add: fread_full)
      with full hy show ?thesis by (auto simp: add.commute)
    qed
  qed
qed

lemma planes_from_step: "p < 3 \<Longrightarrow> planes_from img p = plane_bytes img p + planes_from img (Suc p)"
  by (simp add: planes_from_def sum.atLeast_Suc_lessThan)

lemma planes_from_0: "planes_from img 0 = frame_bytes img"
  by (simp add: planes_from_def frame_bytes_def numeral_3_eq_3 numeral_2_eq_2)

lemma read_planes_end: "3 \<le> p \<Longrightarrow> read_planes p img inp m = (1, inp, m)"
  by (subst read_planes.simps) simp

lemma read_planes_fail:
  "p < 3 \<Longrightarrow>
   read_rows 0 (aom_img_plane_height img p) (planes img p) (stride img p) (row_bytes img p) inp m
     = (False, inp1, m1) \<Longrightarrow>
   read_planes p img inp m = (0, inp1, m1)"
  by (subst read_planes.simps) (simp add: Let_def)

lemma read_planes_next:
  "p < 3 \<Longrightarrow>
   read_rows 0 (aom_img_plane_height img p) (planes img p) (stride img p) (row_bytes img p) inp m
     = (True, inp1, m1) \<Longrightarrow>
   read_planes p img inp m = read_planes (Suc p) img inp1 m1"
  by (subst read_planes.simps) (simp add: Let_def)

lemma read_planes_result:
  "read_planes p img inp m = (r, inp', m') \<Longrightarrow> p \<le> 3 \<Longrightarrow>
     (r = 0 \<or> r = 1) \<and> (r = 1) = (planes_from img p \<le> length inp)
     \<and> (r = 1 \<longrightarrow> inp' = drop (planes_from img p) inp) \<and> (r = 0 \<longrightarrow> inp' = [])"
proof (induction "3 - p" arbitrary: p inp m)
  case 0
  then have "p = 3" by simp
  with "0.prems" read_planes_end [of p img inp m] show ?case
    by (auto simp: planes_from_def)
next
  case (Suc n)
  then have p3: "p < 3" by simp
  obtain ok inp1 m1 where rr:
    "read_rows 0 (aom_img_plane_height img p) (planes img p) (stride img p)
       (row_bytes img p) inp m = (ok, inp1, m1)"
    by (metis prod_cases3)
  from read_rows_result [OF rr]
  have ok: "ok = (plane_bytes img p \<le> length inp)"
    and inp1: "ok \<Longrightarrow> inp1 = drop (plane_bytes img p) inp"
    and inp0: "\<not> ok \<Longrightarrow> inp1 = []"
    by (simp_all add: plane_bytes_def)
  show ?case
  proof (cases ok)
    case False
    with read_planes_fail [OF p3, of img inp m inp1 m1] rr Suc.prems(1)
    have "r = 0" "inp' = inp1" by simp_all
    with False inp0 ok p3 show ?thesis
      by (simp add: planes_from_step)
  next
    case ok': True
    with read_planes_next [OF p3, of img inp m inp1 m1] rr Suc.prems(1)
    have rec: "read_planes (Suc p) img inp1 m1 = (r, inp', m')"
      by simp
    have "n = 3 - Suc p" "Suc p \<le> 3" using Suc.hyps(2) p3 by simp_all
    from Suc.hyps(1) [OF this(1) rec this(2)]
    have IH: "r = 0 \<or> r = 1" "(r = 1) = (planes_from img (Suc p) \<le> length inp1)"
          "r = 1 \<Longrightarrow> inp' = drop (planes_from img (Suc p)) inp1" "r = 0 \<Longrightarrow> inp' = []"
      by blast+
    have len: "length inp1 = length inp - plane_bytes img p"
      using inp1 [OF ok'] by simp
    have "(r = 1) = (planes_from img p \<le> length inp)"
      using IH(2) len ok ok' by (simp add: planes_from_step [OF p3]) linarith
    moreover have "r = 1 \<Longrightarrow> inp' = drop (planes_from img p) inp"
      using IH(3) inp1 [OF ok'] by (simp add: planes_from_step [OF p3] add.commute)
    ultimately show ?thesis using IH(1,4) by blast
  qed
qed

lemma aom_img_read_result:
  "aom_img_read img inp m = (r, inp', m') \<Longrightarrow>
     (r = 0 \<or> r = 1) \<and> (r = 1) = (frame_bytes img \<le> length inp)
     \<and> (r = 1 \<longrightarrow> inp' = drop (frame_bytes img) inp) \<and> (r = 0 \<longrightarrow> inp' = [])"
  using read_planes_result [of 0 img inp m r inp' m']
  unfolding aom_img_read_def planes_from_0 by blast

lemma store_bytes_outside:
  "a < b \<or> b + int (length bs) \<le> a \<Longrightarrow> store_bytes m b bs a = m a"
  by (auto simp: store_bytes_def)

lemma store_bytes_inside:
  "x < length bs \<Longrightarrow> store_bytes m b bs (b + int x) = bs ! x"
  by (simp add: store_bytes_def)

lemma read_rows_stop: "\<not> y < h \<Longrightarrow> read_rows y h buf strd w inp m = (True, inp, m)"
  by (subst read_rows.simps) simp

lemma read_rows_next:
  "y < h \<Longrightarrow> w \<le> length inp \<Longrightarrow>
   read_rows y h buf strd w inp m =
     read_rows (Suc y) h (buf + strd) strd w (drop w inp) (store_bytes m buf (take w inp))"
  by (subst read_rows.simps) (simp add: fread_full)

lemma read_rows_short:
  "y < h \<Longrightarrow> length inp < w \<Longrightarrow>
   read_rows y h buf strd w inp m = (False, [], store_bytes m buf inp)"
  by (subst read_rows.simps) (simp add: fread_short)

lemma read_rows_mem:
  "read_rows y h buf strd w inp m = (True, inp', m') \<Longrightarrow> int w \<le> strd \<Longrightarrow>
     (\<forall>a. a < buf \<or> buf + int (h - y) * strd \<le> a \<longrightarrow> m' a = m a) \<and>
     (\<forall>r x. r < h - y \<longrightarrow> x < w \<longrightarrow> m' (buf + int r * strd + int x) = inp ! (r * w + x))"
proof (induction "h - y" arbitrary: y buf inp m)
  case 0
  then have "\<not> y < h" by simp
  from read_rows_stop [OF this, of buf strd w inp m] "0.prems"(1) "0.hyps" show ?case
    by simp
next
  case (Suc n)
  then have yh: "y < h" by simp
  have full: "w \<le> length inp"
  proof (rule ccontr)
    assume "\<not> w \<le> length inp"
    then have "length inp < w" by simp
    from read_rows_short [OF yh this, of buf strd m] Suc.prems(1) show False by simp
  qed
  let ?m1 = "store_bytes m buf (take w inp)"
  from read_rows_next [OF yh full, of buf strd m] Suc.prems(1)
  have rec: "read_rows (Suc y) h (buf + strd) strd w (drop w inp) ?m1 = (True, inp', m')"
    by simp
  have n: "n = h - Suc y" using Suc.hyps(2) by simp
  from Suc.hyps(1) [OF n rec Suc.prems(2)]
  have out: "\<And>a. a < buf + strd \<or> buf + strd + int (h - Suc y) * strd \<le> a \<Longrightarrow> m' a = ?m1 a"
    and ins: "\<And>r x. r < h - Suc y \<Longrightarrow> x < w \<Longrightarrow>
               m' (buf + strd + int r * strd + int x) = drop w inp ! (r * w + x)"
    by blast+
  define R where "R = int (h - Suc y) * strd"
  have s0: "0 \<le> strd" using Suc.prems(2) by simp
  have R0: "0 \<le> R" using s0 by (simp add: R_def)
  have hy: "int (h - y) * strd = strd + R"
    using yh by (simp add: R_def Suc_diff_Suc algebra_simps)
  have lw: "length (take w inp) = w" using full by simp
  note out' = out [folded R_def]
  show ?case
  proof (intro conjI allI impI)
    fix a assume "a < buf \<or> buf + int (h - y) * strd \<le> a"
    then have a: "a < buf \<or> buf + strd + R \<le> a" by (simp add: hy add.assoc)
    then have "a < buf + strd \<or> buf + strd + R \<le> a" using s0 by linarith
    then have "m' a = ?m1 a" by (rule out')
    also have "?m1 a = m a"
    proof (rule store_bytes_outside)
      show "a < buf \<or> buf + int (length (take w inp)) \<le> a"
        unfolding lw using a R0 Suc.prems(2) by linarith
    qed
    finally show "m' a = m a" .
  next
    fix r x assume r: "r < h - y" and x: "x < w"
    show "m' (buf + int r * strd + int x) = inp ! (r * w + x)"
    proof (cases r)
      case 0
      have "m' (buf + int x) = ?m1 (buf + int x)"
        by (rule out') (use x Suc.prems(2) in linarith)
      also have "\<dots> = take w inp ! x"
        by (rule store_bytes_inside) (use x lw in simp)
      finally show ?thesis using 0 x by simp
    next
      case (Suc r')
      then have "r' < h - Suc y" using r by simp
      from ins [OF this x] full
      have "m' (buf + strd + int r' * strd + int x) = inp ! (w + (r' * w + x))"
        by simp
      then show ?thesis using Suc by (simp add: algebra_simps)
    qed
  qed
qed

lemma row_in_region:
  assumes "y < h" "x < w" "int w \<le> strd"
  shows "int y * strd + int x < int h * strd"
proof -
  have "int y * strd + int x < (int y + 1) * strd"
    using assms(2,3) by (simp add: algebra_simps)
  also have "\<dots> \<le> int h * strd"
    by (rule mult_right_mono) (use assms in auto)
  finally show ?thesis .
qed

lemma read_planes_mem:
  "read_planes p img inp m = (1, inp', m') \<Longrightarrow> planes_laid_out img \<Longrightarrow> p \<le> 3 \<Longrightarrow>
     (\<forall>a. (\<forall>q. p \<le> q \<and> q < 3 \<longrightarrow>
              a < planes img q \<or>
              planes img q + int (aom_img_plane_height img q) * stride img q \<le> a)
          \<longrightarrow> m' a = m a) \<and>
     (\<forall>q y x. p \<le> q \<and> q < 3 \<and> y < aom_img_plane_height img q \<and> x < row_bytes img q \<longrightarrow>
        m' (row_addr img q y + int x) =
        inp ! ((\<Sum>j = p..<q. plane_bytes img j) + y * row_bytes img q + x))"
proof (induction "3 - p" arbitrary: p inp m)
  case 0
  then have "p = 3" by simp
  with "0.prems"(1) read_planes_end [of p img inp m] show ?case
    by auto
next
  case (Suc n)
  then have p3: "p < 3" by simp
  let ?h = "aom_img_plane_height img p" and ?w = "row_bytes img p"
  let ?b = "planes img p" and ?s = "stride img p"
  obtain ok inp1 m1 where rr: "read_rows 0 ?h ?b ?s ?w inp m = (ok, inp1, m1)"
    by (metis prod_cases3)
  have ok: ok
  proof (rule ccontr)
    assume "\<not> ok"
    with read_planes_fail [OF p3, of img inp m inp1 m1] rr Suc.prems(1) show False by simp
  qed
  with rr have rr': "read_rows 0 ?h ?b ?s ?w inp m = (True, inp1, m1)" by simp
  from read_rows_result [OF rr] ok
  have len: "plane_bytes img p \<le> length inp" and inp1: "inp1 = drop (plane_bytes img p) inp"
    by (simp_all add: plane_bytes_def)
  from read_planes_next [OF p3 rr'] Suc.prems(1)
  have rec: "read_planes (Suc p) img inp1 m1 = (1, inp', m')" by simp
  have ws: "int ?w \<le> ?s" using Suc.prems(2) p3 by (simp add: planes_laid_out_def)
  note rm = read_rows_mem [OF rr' ws, simplified]
  have out1: "\<And>a. a < ?b \<or> ?b + int ?h * ?s \<le> a \<Longrightarrow> m1 a = m a"
    using rm by blast
  have ins1: "\<And>r x. r < ?h \<Longrightarrow> x < ?w \<Longrightarrow> m1 (?b + int r * ?s + int x) = inp ! (r * ?w + x)"
    using rm by blast
  have n: "n = 3 - Suc p" "Suc p \<le> 3" using Suc.hyps(2) p3 by simp_all
  from Suc.hyps(1) [OF n(1) rec Suc.prems(2) n(2)]
  have out2: "\<And>a. (\<And>q. Suc p \<le> q \<Longrightarrow> q < 3 \<Longrightarrow>
                 a < planes img q \<or>
                 planes img q + int (aom_img_plane_height img q) * stride img q \<le> a)
               \<Longrightarrow> m' a = m1 a"
    and ins2: "\<And>q y x. Suc p \<le> q \<Longrightarrow> q < 3 \<Longrightarrow> y < aom_img_plane_height img q \<Longrightarrow>
                 x < row_bytes img q \<Longrightarrow>
                 m' (row_addr img q y + int x) =
                 inp1 ! ((\<Sum>j = Suc p..<q. plane_bytes img j) + y * row_bytes img q + x)"
    by blast+
  show ?case
  proof (intro conjI allI impI)
    fix a
    assume a: "\<forall>q. p \<le> q \<and> q < 3 \<longrightarrow>
                 a < planes img q \<or>
                 planes img q + int (aom_img_plane_height img q) * stride img q \<le> a"
    have "m' a = m1 a" by (rule out2) (use a in auto)
    also have "m1 a = m a" by (rule out1) (use a p3 in auto)
    finally show "m' a = m a" .
  next
    fix q y x
    assume "p \<le> q \<and> q < 3 \<and> y < aom_img_plane_height img q \<and> x < row_bytes img q"
    then have q: "p \<le> q" "q < 3" and y: "y < aom_img_plane_height img q"
      and x: "x < row_bytes img q" by simp_all
    show "m' (row_addr img q y + int x) =
          inp ! ((\<Sum>j = p..<q. plane_bytes img j) + y * row_bytes img q + x)"
    proof (cases "q = p")
      case True
      let ?A = "?b + int y * ?s + int x"
      have below: "int y * ?s + int x < int ?h * ?s"
        by (rule row_in_region) (use y x ws True in auto)
      have "m' ?A = m1 ?A"
      proof (rule out2)
        fix q' assume q': "Suc p \<le> q'" "q' < 3"
        then have "?b + int ?h * ?s \<le> planes img q'"
          using Suc.prems(2) by (simp add: planes_laid_out_def)
        with below show "?A < planes img q' \<or>
              planes img q' + int (aom_img_plane_height img q') * stride img q' \<le> ?A"
          by linarith
      qed
      also have "\<dots> = inp ! (y * ?w + x)"
        by (rule ins1) (use y x True in auto)
      finally show ?thesis using True by (simp add: row_addr_def)
    next
      case False
      with q have q': "Suc p \<le> q" by simp
      have split: "(\<Sum>j = p..<q. plane_bytes img j) =
                   plane_bytes img p + (\<Sum>j = Suc p..<q. plane_bytes img j)"
        using q' by (simp add: sum.atLeast_Suc_lessThan)
      from ins2 [OF q' q(2) y x] len show ?thesis
        by (simp add: inp1 split add.assoc)
    qed
  qed
qed

lemma row_offset_sum: "row_offset img q y = (\<Sum>j = 0..<q. plane_bytes img j) + y * row_bytes img q"
  by (simp add: row_offset_def atLeast0LessThan)

lemma aom_img_read_mem:
  assumes "aom_img_read img inp m = (1, inp', m')" "planes_laid_out img"
    "q < 3" "y < aom_img_plane_height img q" "x < row_bytes img q"
  shows "m' (row_addr img q y + int x) = inp ! (row_offset img q y + x)"
  using read_planes_mem [of 0 img inp m inp' m'] assms
  by (simp add: aom_img_read_def row_offset_sum)

subsection \<open>Draining packets\<close>

lemma fwrite_fits:
  "outlimit w = None \<or> (\<exists>room. outlimit w = Some room \<and> length bs \<le> room) \<Longrightarrow>
   fwrite bs w = (length bs, w\<lparr>outfile := outfile w @ bs,
                               outlimit := map_option (\<lambda>room. room - length bs) (outlimit w)\<rparr>)"
  by (auto simp: fwrite_def Let_def)

lemma fwrite_short:
  "outlimit w = Some room \<Longrightarrow> room < length bs \<Longrightarrow>
   fwrite bs w = (room, w\<lparr>outfile := outfile w @ take room bs, outlimit := Some 0\<rparr>)"
  by (simp add: fwrite_def Let_def)

lemma fwrite_frame:
  "fwrite bs w = (n, w') \<Longrightarrow>
   codec w' = codec w \<and> mem w' = mem w \<and> infile w' = infile w \<and> calls w' = calls w
   \<and> stdout w' = stdout w \<and> stderr w' = stderr w"
  by (auto simp: fwrite_def Let_def split: option.splits)

lemma die_codec_frame:
  "die_codec L msg w = (r, w') \<Longrightarrow>
   r = Exit EXIT_FAILURE \<and> codec w' = codec w \<and> mem w' = mem w \<and> infile w' = infile w
   \<and> calls w' = calls w \<and> outfile w' = outfile w \<and> outlimit w' = outlimit w
   \<and> stderr w' = stderr w"
  by (auto simp: die_codec_def Let_def printf_def split: option.splits)

lemma get_pkts_none:
  "aom_codec_get_cx_data L (codec w) it = (None, it', s') \<Longrightarrow>
   get_pkts L it g w = Some (Return g, called (Get_cx_data False) (w\<lparr>codec := s'\<rparr>))"
  by (subst get_pkts.simps) simp

lemma get_pkts_other:
  "aom_codec_get_cx_data L (codec w) it = (Some (Other_pkt k), it', s') \<Longrightarrow>
   get_pkts L it g w = get_pkts L it' 1 (called (Get_cx_data True) (w\<lparr>codec := s'\<rparr>))"
  by (subst get_pkts.simps) simp

lemma get_pkts_frame_pkt:
  "aom_codec_get_cx_data L (codec w) it = (Some (AOM_CODEC_CX_FRAME_PKT b f), it', s') \<Longrightarrow>
   fwrite b (called (Get_cx_data True) (w\<lparr>codec := s'\<rparr>)) = (n, w2) \<Longrightarrow>
   get_pkts L it g w =
     (if n \<noteq> length b then Some (die_codec L ''Failed to write compressed frame'' w2)
      else get_pkts L it' 1 (printf (if f AND AOM_FRAME_IS_KEY \<noteq> 0 then ''K'' else ''.'') [] w2))"
  by (subst get_pkts.simps) (simp add: Let_def)

lemma get_pkts_effect_aux:
  "get_pkts L it g w = Some y \<Longrightarrow>
   mem (snd y) = mem w \<and> infile (snd y) = infile w \<and> stderr (snd y) = stderr w \<and>
   (\<exists>cs. calls (snd y) = calls w @ cs \<and> (\<forall>c \<in> set cs. is_get c) \<and>
      (\<forall>g'. fst y = Return g' \<longrightarrow> g' = (if Get_cx_data True \<in> set cs then 1 else g))) \<and>
   fst y \<noteq> Undefined \<and> (\<forall>c. fst y = Exit c \<longrightarrow> c = EXIT_FAILURE)"
proof (induction rule: get_pkts.raw_induct [rotated 1, consumes 1])
  case (1 get_pkts L it g w y)
  obtain pkt it' s' where gx: "aom_codec_get_cx_data L (codec w) it = (pkt, it', s')"
    by (metis prod_cases3)
  let ?w1 = "called (Get_cx_data True) (w\<lparr>codec := s'\<rparr>)"
  have w1: "mem ?w1 = mem w" "infile ?w1 = infile w" "stderr ?w1 = stderr w"
    "calls ?w1 = calls w @ [Get_cx_data True]"
    by (simp_all add: called_def)
  have step: ?case
    if rec: "mem (snd y) = mem wa \<and> infile (snd y) = infile wa \<and> stderr (snd y) = stderr wa \<and>
         (\<exists>cs. calls (snd y) = calls wa @ cs \<and> (\<forall>c \<in> set cs. is_get c) \<and>
           (\<forall>g'. fst y = Return g' \<longrightarrow> g' = 1)) \<and>
         fst y \<noteq> Undefined \<and> (\<forall>c. fst y = Exit c \<longrightarrow> c = EXIT_FAILURE)"
      and wa: "mem wa = mem w" "infile wa = infile w" "stderr wa = stderr w"
        "calls wa = calls w @ [Get_cx_data True]"
    for wa
  proof -
    from rec obtain cs where cs: "calls (snd y) = calls wa @ cs" "\<forall>c \<in> set cs. is_get c"
      "\<forall>g'. fst y = Return g' \<longrightarrow> g' = 1"
      by auto
    let ?cs = "Get_cx_data True # cs"
    have "calls (snd y) = calls w @ ?cs" using cs(1) wa(4) by simp
    moreover have "\<forall>c \<in> set ?cs. is_get c" using cs(2) by (simp add: is_get_def)
    moreover have "\<forall>g'. fst y = Return g' \<longrightarrow> g' = (if Get_cx_data True \<in> set ?cs then 1 else g)"
      using cs(3) by simp
    ultimately have "\<exists>cs. calls (snd y) = calls w @ cs \<and> (\<forall>c \<in> set cs. is_get c) \<and>
      (\<forall>g'. fst y = Return g' \<longrightarrow> g' = (if Get_cx_data True \<in> set cs then 1 else g))"
      by blast
    with rec wa show ?thesis by simp
  qed
  show ?case
  proof (cases pkt)
    case None
    with "1.hyps" gx have y: "y = (Return g, called (Get_cx_data False) (w\<lparr>codec := s'\<rparr>))"
      by simp
    have "\<exists>cs. calls (snd y) = calls w @ cs \<and> (\<forall>c \<in> set cs. is_get c) \<and>
      (\<forall>g'. fst y = Return g' \<longrightarrow> g' = (if Get_cx_data True \<in> set cs then 1 else g))"
      by (rule exI [of _ "[Get_cx_data False]"]) (simp add: y called_def is_get_def)
    then show ?thesis by (simp add: y called_def)
  next
    case (Some p)
    show ?thesis
    proof (cases p)
      case (Other_pkt k)
      with Some "1.hyps" gx
      have "get_pkts L it' 1 ?w1 = Some y" by simp
      from step [OF "1.IH" [OF this, simplified] w1] show ?thesis .
    next
      case (AOM_CODEC_CX_FRAME_PKT b f)
      obtain n w2 where fw: "fwrite b ?w1 = (n, w2)" by (metis surj_pair)
      from fwrite_frame [OF fw] w1
      have w2: "mem w2 = mem w" "infile w2 = infile w" "stderr w2 = stderr w"
        "calls w2 = calls w @ [Get_cx_data True]"
        by simp_all
      show ?thesis
      proof (cases "n = length b")
        case False
        with AOM_CODEC_CX_FRAME_PKT Some "1.hyps" gx fw
        have "die_codec L ''Failed to write compressed frame'' w2 = y"
          by (simp add: Let_def)
        then have "die_codec L ''Failed to write compressed frame'' w2 = (fst y, snd y)"
          by simp
        from die_codec_frame [OF this] w2
        have d: "fst y = Exit EXIT_FAILURE" "mem (snd y) = mem w" "infile (snd y) = infile w"
          "stderr (snd y) = stderr w" "calls (snd y) = calls w @ [Get_cx_data True]"
          by simp_all
        have "\<exists>cs. calls (snd y) = calls w @ cs \<and> (\<forall>c \<in> set cs. is_get c) \<and>
          (\<forall>g'. fst y = Return g' \<longrightarrow> g' = (if Get_cx_data True \<in> set cs then 1 else g))"
          by (rule exI [of _ "[Get_cx_data True]"]) (simp add: d is_get_def)
        with d show ?thesis by simp
      next
        case True
        let ?w3 = "printf (if f AND AOM_FRAME_IS_KEY \<noteq> 0 then ''K'' else ''.'') [] w2"
        from True AOM_CODEC_CX_FRAME_PKT Some "1.hyps" gx fw
        have rec: "get_pkts L it' 1 ?w3 = Some y"
          by (simp add: Let_def)
        have w3: "mem ?w3 = mem w" "infile ?w3 = infile w" "stderr ?w3 = stderr w"
          "calls ?w3 = calls w @ [Get_cx_data True]"
          using w2 by (simp_all add: printf_def)
        from step [OF "1.IH" [OF rec, simplified] w3] show ?thesis .
      qed
    qed
  qed
qed

lemma get_pkts_effect:
  "get_pkts L it g w = Some (r, w') \<Longrightarrow>
   mem w' = mem w \<and> infile w' = infile w \<and> stderr w' = stderr w \<and>
   (\<exists>cs. calls w' = calls w @ cs \<and> (\<forall>c \<in> set cs. is_get c) \<and>
      (\<forall>g'. r = Return g' \<longrightarrow> g' = (if Get_cx_data True \<in> set cs then 1 else g))) \<and>
   r \<noteq> Undefined \<and> (\<forall>c. r = Exit c \<longrightarrow> c = EXIT_FAILURE)"
  using get_pkts_effect_aux [of L it g w "(r, w')"] by simp

lemma output_of_simps [simp]:
  "output_of [] = []"
  "output_of (AOM_CODEC_CX_FRAME_PKT b f # ps) = b @ output_of ps"
  "output_of (Other_pkt k # ps) = output_of ps"
  by (simp_all add: output_of_def)

lemma get_pkts_yields_fit:
  "yields L s it ps s' \<Longrightarrow> codec w = s \<Longrightarrow> room_for (length (output_of ps)) w \<Longrightarrow>
   \<exists>w'. get_pkts L it g w = Some (Return (if ps = [] then g else 1), w') \<and>
        outfile w' = outfile w @ output_of ps \<and> codec w' = s' \<and>
        outlimit w' = map_option (\<lambda>room. room - length (output_of ps)) (outlimit w) \<and>
        calls w' = calls w @ replicate (length ps) (Get_cx_data True) @ [Get_cx_data False]"
proof (induction arbitrary: w g rule: yields.induct)
  case (yields_end s it it' s')
  then have "aom_codec_get_cx_data L (codec w) it = (None, it', s')" by simp
  from get_pkts_none [OF this, of g] show ?case
    by (cases "outlimit w") (simp_all add: called_def)
next
  case (yields_pkt s it p it' s1 ps s')
  let ?w1 = "called (Get_cx_data True) (w\<lparr>codec := s1\<rparr>)"
  have gx: "aom_codec_get_cx_data L (codec w) it = (Some p, it', s1)"
    using yields_pkt.hyps(1) yields_pkt.prems(1) by simp
  have w1: "codec ?w1 = s1" "outlimit ?w1 = outlimit w" "outfile ?w1 = outfile w"
    "calls ?w1 = calls w @ [Get_cx_data True]"
    by (simp_all add: called_def)
  show ?case
  proof (cases p)
    case (Other_pkt k)
    have "room_for (length (output_of ps)) ?w1"
      using yields_pkt.prems(2) Other_pkt by (simp add: room_for_def w1)
    from yields_pkt.IH [OF w1(1) this, of 1] obtain w' where
      w': "get_pkts L it' 1 ?w1 = Some (Return (if ps = [] then 1 else 1), w')"
        "outfile w' = outfile ?w1 @ output_of ps" "codec w' = s'"
        "outlimit w' = map_option (\<lambda>room. room - length (output_of ps)) (outlimit ?w1)"
        "calls w' = calls ?w1 @ replicate (length ps) (Get_cx_data True) @ [Get_cx_data False]"
      by blast
    have "get_pkts L it g w = Some (Return 1, w')"
      using get_pkts_other [of L w it k it' s1 g] gx Other_pkt w'(1) by simp
    with w' w1 Other_pkt show ?thesis by simp
  next
    case (AOM_CODEC_CX_FRAME_PKT b f)
    let ?w2 = "?w1\<lparr>outfile := outfile ?w1 @ b,
                    outlimit := map_option (\<lambda>room. room - length b) (outlimit ?w1)\<rparr>"
    let ?w3 = "printf (if f AND AOM_FRAME_IS_KEY \<noteq> 0 then ''K'' else ''.'') [] ?w2"
    have fits: "outlimit ?w1 = None \<or> (\<exists>room. outlimit ?w1 = Some room \<and> length b \<le> room)"
      using yields_pkt.prems(2) AOM_CODEC_CX_FRAME_PKT
      by (auto simp: room_for_def w1 split: option.splits)
    have fw: "fwrite b ?w1 = (length b, ?w2)" by (rule fwrite_fits [OF fits])
    have w3: "codec ?w3 = s1" "outlimit ?w3 = map_option (\<lambda>room. room - length b) (outlimit w)"
      "outfile ?w3 = outfile w @ b" "calls ?w3 = calls w @ [Get_cx_data True]"
      by (simp_all add: called_def printf_def)
    have "room_for (length (output_of ps)) ?w3"
      using yields_pkt.prems(2) AOM_CODEC_CX_FRAME_PKT
      by (auto simp: room_for_def w3 split: option.splits)
    from yields_pkt.IH [OF w3(1) this, of 1] obtain w' where
      w': "get_pkts L it' 1 ?w3 = Some (Return (if ps = [] then 1 else 1), w')"
        "outfile w' = outfile ?w3 @ output_of ps" "codec w' = s'"
        "outlimit w' = map_option (\<lambda>room. room - length (output_of ps)) (outlimit ?w3)"
        "calls w' = calls ?w3 @ replicate (length ps) (Get_cx_data True) @ [Get_cx_data False]"
      by blast
    have "get_pkts L it g w = Some (Return 1, w')"
      using get_pkts_frame_pkt [OF _ fw, of L it f it' g] gx AOM_CODEC_CX_FRAME_PKT w'(1)
      by simp
    with w' w3 AOM_CODEC_CX_FRAME_PKT show ?thesis
      by (cases "outlimit w") simp_all
  qed
qed

lemma get_pkts_yields_short:
  "yields L s it ps s' \<Longrightarrow> codec w = s \<Longrightarrow> outlimit w = Some room \<Longrightarrow>
   room < length (output_of ps) \<Longrightarrow>
   \<exists>w'. get_pkts L it g w = Some (Exit EXIT_FAILURE, w') \<and>
        outfile w' = outfile w @ take room (output_of ps)"
proof (induction arbitrary: w g room rule: yields.induct)
  case (yields_end s it it' s')
  then show ?case by simp
next
  case (yields_pkt s it p it' s1 ps s')
  let ?w1 = "called (Get_cx_data True) (w\<lparr>codec := s1\<rparr>)"
  have gx: "aom_codec_get_cx_data L (codec w) it = (Some p, it', s1)"
    using yields_pkt.hyps(1) yields_pkt.prems(1) by simp
  have w1: "codec ?w1 = s1" "outlimit ?w1 = Some room" "outfile ?w1 = outfile w"
    using yields_pkt.prems(2) by (simp_all add: called_def)
  show ?case
  proof (cases p)
    case (Other_pkt k)
    have "room < length (output_of ps)" using yields_pkt.prems(3) Other_pkt by simp
    from yields_pkt.IH [OF w1(1,2) this, of 1] obtain w' where
      "get_pkts L it' 1 ?w1 = Some (Exit EXIT_FAILURE, w')"
      "outfile w' = outfile ?w1 @ take room (output_of ps)"
      by blast
    with get_pkts_other [of L w it k it' s1 g] gx Other_pkt w1 show ?thesis by simp
  next
    case (AOM_CODEC_CX_FRAME_PKT b f)
    show ?thesis
    proof (cases "length b \<le> room")
      case True
      let ?w2 = "?w1\<lparr>outfile := outfile ?w1 @ b,
                      outlimit := map_option (\<lambda>room. room - length b) (outlimit ?w1)\<rparr>"
      let ?w3 = "printf (if f AND AOM_FRAME_IS_KEY \<noteq> 0 then ''K'' else ''.'') [] ?w2"
      have fw: "fwrite b ?w1 = (length b, ?w2)"
        by (rule fwrite_fits) (use True w1 in simp)
      have w3: "codec ?w3 = s1" "outlimit ?w3 = Some (room - length b)"
        "outfile ?w3 = outfile w @ b"
        using yields_pkt.prems(2) by (simp_all add: called_def printf_def)
      have "room - length b < length (output_of ps)"
        using yields_pkt.prems(3) AOM_CODEC_CX_FRAME_PKT True by simp
      from yields_pkt.IH [OF w3(1,2) this, of 1] obtain w' where
        w': "get_pkts L it' 1 ?w3 = Some (Exit EXIT_FAILURE, w')"
        "outfile w' = outfile ?w3 @ take (room - length b) (output_of ps)"
        by blast
      have "get_pkts L it g w = Some (Exit EXIT_FAILURE, w')"
        using get_pkts_frame_pkt [OF _ fw, of L it f it' g] gx AOM_CODEC_CX_FRAME_PKT w'(1)
        by simp
      with w' w3 AOM_CODEC_CX_FRAME_PKT True show ?thesis by simp
    next
      case False
      let ?w2 = "?w1\<lparr>outfile := outfile ?w1 @ take room b, outlimit := Some 0\<rparr>"
      have fw: "fwrite b ?w1 = (room, ?w2)"
        by (rule fwrite_short) (use False w1 in simp_all)
      obtain r :: "int outcome" and w'
        where d: "die_codec L ''Failed to write compressed frame'' ?w2 = (r, w')"
        by (metis surj_pair)
      from die_codec_frame [OF d] have r: "r = Exit EXIT_FAILURE"
        and o: "outfile w' = outfile w @ take room b"
        by (simp_all add: called_def)
      have "get_pkts L it g w = Some (Exit EXIT_FAILURE, w')"
        using get_pkts_frame_pkt [OF _ fw, of L it f it' g] gx AOM_CODEC_CX_FRAME_PKT False d r
        by simp
      with o AOM_CODEC_CX_FRAME_PKT False show ?thesis by simp
    qed
  qed
qed

lemma fake_yields_ready:
  "yields (fake_env n inp lim r) \<lparr>waiting = q, ready = ps\<rparr> it ps \<lparr>waiting = q, ready = []\<rparr>"
proof (induction ps arbitrary: it)
  case Nil
  show ?case
    by (rule yields_end [where it' = it]) (simp add: fake_env_def fake_get_cx_data_def)
next
  case (Cons p ps)
  show ?case
    by (rule yields_pkt [where it' = "Suc it", OF _ Cons])
       (simp add: fake_env_def fake_get_cx_data_def)
qed

subsection \<open>Submitting a frame\<close>

lemma submits_append [simp]: "submits (xs @ ys) = submits xs @ submits ys"
  by (simp add: submits_def)

lemma submits_Nil [simp]: "submits [] = []"
  by (simp add: submits_def)

lemma submits_Encode [simp]: "submits (Encode r p d f # cs) = (r, p, f) # submits cs"
  by (simp add: submits_def)

lemma submits_gets: "\<forall>c \<in> set cs. is_get c \<Longrightarrow> submits cs = []"
  by (induction cs) (auto simp: submits_def is_get_def)

lemma encode_frame_unfold:
  "aom_codec_encode L (codec w) (map_option (\<lambda>i. (i, mem w)) img) fi 1 fl = (res, s1) \<Longrightarrow>
   encode_frame L img fi fl w =
     (if res \<noteq> AOM_CODEC_OK
      then Some (die_codec L ''Failed to encode frame''
                   (called (Encode (img \<noteq> None) fi 1 fl) (w\<lparr>codec := s1\<rparr>)))
      else get_pkts L 0 0 (called (Encode (img \<noteq> None) fi 1 fl) (w\<lparr>codec := s1\<rparr>)))"
  by (simp add: encode_frame_def Let_def)

lemma encode_frame_effect:
  assumes "encode_frame L img fi fl w = Some (r, w')"
  shows "mem w' = mem w \<and> infile w' = infile w \<and> stderr w' = stderr w \<and>
   (\<exists>cs. calls w' = calls w @ Encode (img \<noteq> None) fi 1 fl # cs \<and> (\<forall>c \<in> set cs. is_get c) \<and>
      (\<forall>g'. r = Return g' \<longrightarrow> g' = (if Get_cx_data True \<in> set cs then 1 else 0))) \<and>
   r \<noteq> Undefined \<and> (\<forall>c. r = Exit c \<longrightarrow> c = EXIT_FAILURE)"
proof -
  obtain res s1 where
    enc: "aom_codec_encode L (codec w) (map_option (\<lambda>i. (i, mem w)) img) fi 1 fl = (res, s1)"
    by (metis surj_pair)
  let ?w1 = "called (Encode (img \<noteq> None) fi 1 fl) (w\<lparr>codec := s1\<rparr>)"
  have w1: "mem ?w1 = mem w" "infile ?w1 = infile w" "stderr ?w1 = stderr w"
    "calls ?w1 = calls w @ [Encode (img \<noteq> None) fi 1 fl]"
    by (simp_all add: called_def)
  show ?thesis
  proof (cases "res = AOM_CODEC_OK")
    case False
    with encode_frame_unfold [OF enc] assms
    have "die_codec L ''Failed to encode frame'' ?w1 = (r, w')" by simp
    from die_codec_frame [OF this] w1
    have d: "r = Exit EXIT_FAILURE" "mem w' = mem w" "infile w' = infile w"
      "stderr w' = stderr w" "calls w' = calls w @ [Encode (img \<noteq> None) fi 1 fl]"
      by simp_all
    have "\<exists>cs. calls w' = calls w @ Encode (img \<noteq> None) fi 1 fl # cs \<and>
            (\<forall>c \<in> set cs. is_get c) \<and>
            (\<forall>g'. r = Return g' \<longrightarrow> g' = (if Get_cx_data True \<in> set cs then 1 else 0))"
      by (rule exI [of _ "[]"]) (simp add: d)
    with d show ?thesis by simp
  next
    case True
    with encode_frame_unfold [OF enc] assms
    have "get_pkts L 0 0 ?w1 = Some (r, w')" by simp
    from get_pkts_effect [OF this] w1 show ?thesis by simp
  qed
qed

lemma encode_frame_submits:
  "encode_frame L img fi fl w = Some (r, w') \<Longrightarrow>
   submits (calls w') = submits (calls w) @ [(img \<noteq> None, fi, fl)]"
  using encode_frame_effect [of L img fi fl w r w'] by (auto simp: submits_gets)

lemma flush_loop_again:
  "encode_frame L None (- 1) 0 w = Some (Return got, w') \<Longrightarrow> got \<noteq> 0 \<Longrightarrow>
   flush_loop L w = flush_loop L w'"
  by (subst flush_loop.simps) simp

lemma flush_loop_stop:
  "encode_frame L None (- 1) 0 w = Some (Return 0, w') \<Longrightarrow>
   flush_loop L w = Some (Return (), w')"
  by (subst flush_loop.simps) simp

lemma flush_loop_exit:
  "encode_frame L None (- 1) 0 w = Some (Exit c, w') \<Longrightarrow>
   flush_loop L w = Some (Exit c, w')"
  by (subst flush_loop.simps) simp

subsection \<open>Termination of the drain and of the flush\<close>

lemma get_pkts_terminates:
  assumes dd: "drains_down L held"
  shows "\<exists>r w'. get_pkts L it g w = Some (r, w') \<and> held (codec w') \<le> held (codec w) \<and>
           (\<forall>g'. r = Return g' \<longrightarrow> g' \<noteq> g \<longrightarrow> held (codec w') < held (codec w)) \<and>
           (outlimit w = None \<longrightarrow> (\<exists>g'. r = Return g') \<and> outlimit w' = None)"
proof (induction "held (codec w)" arbitrary: w it g rule: less_induct)
  case less
  obtain pkt it' s' where gx: "aom_codec_get_cx_data L (codec w) it = (pkt, it', s')"
    by (metis prod_cases3)
  from dd [unfolded drains_down_def, rule_format, of "codec w" it] gx
  have down: "if pkt = None then held s' \<le> held (codec w) else held s' < held (codec w)"
    by simp
  let ?w1 = "called (Get_cx_data True) (w\<lparr>codec := s'\<rparr>)"
  have w1: "codec ?w1 = s'" "outlimit ?w1 = outlimit w" by (simp_all add: called_def)
  show ?case
  proof (cases pkt)
    case None
    with get_pkts_none [of L w it it' s' g] gx down show ?thesis
      by (simp add: called_def)
  next
    case (Some p)
    with down have lt: "held s' < held (codec w)" by simp
    show ?thesis
    proof (cases p)
      case (Other_pkt k)
      from less [of ?w1 it' 1] lt w1 obtain r w' where
        "get_pkts L it' 1 ?w1 = Some (r, w')" "held (codec w') \<le> held s'"
        "outlimit ?w1 = None \<longrightarrow> (\<exists>g'. r = Return g') \<and> outlimit w' = None"
        by auto
      with get_pkts_other [of L w it k it' s' g] gx Some Other_pkt lt w1(2) show ?thesis
        by auto
    next
      case (AOM_CODEC_CX_FRAME_PKT b f)
      obtain n w2 where fw: "fwrite b ?w1 = (n, w2)" by (metis surj_pair)
      from fwrite_frame [OF fw] w1 have w2: "codec w2 = s'" by simp
      have unl: "n = length b \<and> outlimit w2 = None" if "outlimit w = None"
        using fw that w1 by (auto simp: fwrite_def)
      note unfold = get_pkts_frame_pkt [OF _ fw, of L it f it' g]
      show ?thesis
      proof (cases "n = length b")
        case False
        obtain r :: "int outcome" and w'
          where d: "die_codec L ''Failed to write compressed frame'' w2 = (r, w')"
          by (metis surj_pair)
        from die_codec_frame [OF d] w2 have "r = Exit EXIT_FAILURE" "codec w' = s'"
          by simp_all
        with unfold gx Some AOM_CODEC_CX_FRAME_PKT False d lt unl show ?thesis
          by auto
      next
        case True
        let ?w3 = "printf (if f AND AOM_FRAME_IS_KEY \<noteq> 0 then ''K'' else ''.'') [] w2"
        have w3: "codec ?w3 = s'" "outlimit ?w3 = outlimit w2" using w2 by (simp_all add: printf_def)
        from less [of ?w3 it' 1] lt w3 obtain r w' where
          rec: "get_pkts L it' 1 ?w3 = Some (r, w')" "held (codec w') \<le> held s'"
          "outlimit ?w3 = None \<longrightarrow> (\<exists>g'. r = Return g') \<and> outlimit w' = None"
          by auto
        have "outlimit w = None \<longrightarrow> (\<exists>g'. r = Return g') \<and> outlimit w' = None"
          using rec(3) unl w3(2) by auto
        with rec(1,2) unfold gx Some AOM_CODEC_CX_FRAME_PKT True lt show ?thesis
          by auto
      qed
    qed
  qed
qed

lemma flush_loop_undefined:
  "encode_frame L None (- 1) 0 w = Some (Undefined, w') \<Longrightarrow>
   flush_loop L w = Some (Undefined, w')"
  by (subst flush_loop.simps) simp

lemma encode_frame_terminates:
  assumes dd: "drains_down L held"
    and enc: "aom_codec_encode L (codec w) (map_option (\<lambda>i. (i, mem w)) img) fi 1 fl = (res, s1)"
  shows "\<exists>r w'. encode_frame L img fi fl w = Some (r, w') \<and> held (codec w') \<le> held s1 \<and>
           (\<forall>g'. r = Return g' \<longrightarrow> g' \<noteq> 0 \<longrightarrow> held (codec w') < held s1) \<and>
           (res = AOM_CODEC_OK \<or> r = Exit EXIT_FAILURE) \<and>
           (res = AOM_CODEC_OK \<and> outlimit w = None \<longrightarrow>
              (\<exists>g'. r = Return g') \<and> outlimit w' = None)"
proof (cases "res = AOM_CODEC_OK")
  case False
  let ?w1 = "called (Encode (img \<noteq> None) fi 1 fl) (w\<lparr>codec := s1\<rparr>)"
  obtain r :: "int outcome" and w' where d: "die_codec L ''Failed to encode frame'' ?w1 = (r, w')"
    by (metis surj_pair)
  from die_codec_frame [OF d] have "r = Exit EXIT_FAILURE" "codec w' = s1"
    by (simp_all add: called_def)
  with encode_frame_unfold [OF enc] False d show ?thesis by auto
next
  case True
  let ?w1 = "called (Encode (img \<noteq> None) fi 1 fl) (w\<lparr>codec := s1\<rparr>)"
  have "codec ?w1 = s1" "outlimit ?w1 = outlimit w" by (simp_all add: called_def)
  with get_pkts_terminates [OF dd, of 0 0 ?w1] encode_frame_unfold [OF enc] True
  show ?thesis by auto
qed

lemma flush_loop_terminates:
  assumes dd: "drains_down L held" and ns: "null_submit_adds_none L held"
  shows "\<exists>r w' k. flush_loop L w = Some (r, w') \<and>
           submits (calls w') = submits (calls w) @ replicate k (False, - 1, 0) \<and>
           1 \<le> k \<and> k \<le> held (codec w) + 1 \<and> mem w' = mem w \<and> infile w' = infile w \<and>
           (encode_succeeds L \<and> outlimit w = None \<longrightarrow> r = Return () \<and> outlimit w' = None)"
proof (induction "held (codec w)" arbitrary: w rule: less_induct)
  case less
  obtain res s1 where
    enc: "aom_codec_encode L (codec w) (map_option (\<lambda>i. (i, mem w)) None) (- 1) 1 0 = (res, s1)"
    by (metis surj_pair)
  from ns [unfolded null_submit_adds_none_def, rule_format, of "codec w"] enc
  have s1: "held s1 \<le> held (codec w)" by simp
  from encode_frame_terminates [OF dd enc] obtain r w1 where
    ef: "encode_frame L None (- 1) 0 w = Some (r, w1)" and h1: "held (codec w1) \<le> held s1"
    and strict: "\<And>g'. r = Return g' \<Longrightarrow> g' \<noteq> 0 \<Longrightarrow> held (codec w1) < held s1"
    and good: "res = AOM_CODEC_OK \<and> outlimit w = None \<longrightarrow>
                 (\<exists>g'. r = Return g') \<and> outlimit w1 = None"
    by blast
  have res: "res = AOM_CODEC_OK" if "encode_succeeds L"
    using that [unfolded encode_succeeds_def, rule_format, of "codec w" None "- 1" 1 0] enc
    by simp
  from encode_frame_submits [OF ef]
  have sub: "submits (calls w1) = submits (calls w) @ replicate 1 (False, - 1, 0)"
    by simp
  from encode_frame_effect [OF ef] have fr: "mem w1 = mem w" "infile w1 = infile w"
    by simp_all
  show ?case
  proof (cases r)
    case (Exit c)
    with flush_loop_exit [of L w c w1] ef sub fr good res show ?thesis
      by (intro exI [of _ "Exit c"] exI [of _ w1] exI [of _ 1]) auto
  next
    case Undefined
    with flush_loop_undefined [of L w w1] ef sub fr good res show ?thesis
      by (intro exI [of _ Undefined] exI [of _ w1] exI [of _ 1]) auto
  next
    case (Return got)
    show ?thesis
    proof (cases "got = 0")
      case True
      with flush_loop_stop [of L w w1] ef Return sub fr good res show ?thesis
        by (intro exI [of _ "Return ()"] exI [of _ w1] exI [of _ 1]) auto
    next
      case False
      from strict [OF Return False] s1 have lt: "held (codec w1) < held (codec w)" by simp
      from less [OF lt] obtain r' w' k where
        rec: "flush_loop L w1 = Some (r', w')"
          "submits (calls w') = submits (calls w1) @ replicate k (False, - 1, 0)"
          "1 \<le> k" "k \<le> held (codec w1) + 1" "mem w' = mem w1" "infile w' = infile w1"
          "encode_succeeds L \<and> outlimit w1 = None \<longrightarrow> r' = Return () \<and> outlimit w' = None"
        by blast
      have "flush_loop L w = Some (r', w')"
        using flush_loop_again [of L w got w1] ef Return False rec(1) by simp
      moreover have "submits (calls w') = submits (calls w) @ replicate (Suc k) (False, - 1, 0)"
        using rec(2) sub by simp
      moreover have "1 \<le> Suc k" "Suc k \<le> held (codec w) + 1" using rec(4) lt by simp_all
      moreover have "mem w' = mem w" "infile w' = infile w" using rec(5,6) fr by simp_all
      moreover have "encode_succeeds L \<and> outlimit w = None \<longrightarrow>
                       r' = Return () \<and> outlimit w' = None"
        using rec(7) good res by blast
      ultimately show ?thesis by blast
    qed
  qed
qed

lemma fake_drains_down: "drains_down (fake_env n inp lim r) fake_held"
  by (auto simp: drains_down_def fake_env_def fake_get_cx_data_def fake_held_def
      split: list.splits)

lemma fake_null_submit: "null_submit_adds_none (fake_env n inp lim r) fake_held"
  by (auto simp: null_submit_adds_none_def fake_env_def fake_encode_def fake_held_def
      split: list.splits)

subsection \<open>The drain and the flush, cycle by cycle\<close>

lemma marks_simps [simp]:
  "marks [] = []"
  "marks (AOM_CODEC_CX_FRAME_PKT b f # ps) =
     (if f AND AOM_FRAME_IS_KEY \<noteq> 0 then ''K'' else ''.'', []) # marks ps"
  "marks (Other_pkt k # ps) = marks ps"
  by (simp_all add: marks_def)

lemma output_of_append [simp]: "output_of (ps @ qs) = output_of ps @ output_of qs"
  by (simp add: output_of_def)

lemma marks_append [simp]: "marks (ps @ qs) = marks ps @ marks qs"
  by (simp add: marks_def)

lemma after_drains_compose:
  "after_drains cs2 ps2 s2 (after_drains cs1 ps1 s1 w) = after_drains (cs1 @ cs2) (ps1 @ ps2) s2 w"
  by (cases "outlimit w") (simp_all add: after_drains_def)

lemma room_for_after_drains:
  "room_for (length (output_of (ps @ qs))) w \<Longrightarrow> room_for (length (output_of qs)) (after_drains cs ps s w)"
  by (cases "outlimit w") (simp_all add: room_for_def after_drains_def)

lemma room_for_first:
  "room_for (length (output_of (ps @ qs))) w \<Longrightarrow> room_for (length (output_of ps)) w"
  by (cases "outlimit w") (simp_all add: room_for_def)

lemma get_pkts_yields_exact:
  "yields L s it ps s' \<Longrightarrow> codec w = s \<Longrightarrow> room_for (length (output_of ps)) w \<Longrightarrow>
   get_pkts L it g w =
     Some (Return (if ps = [] then g else 1),
           after_drains (replicate (length ps) (Get_cx_data True) @ [Get_cx_data False]) ps s' w)"
proof (induction arbitrary: w g rule: yields.induct)
  case (yields_end s it it' s')
  then have "aom_codec_get_cx_data L (codec w) it = (None, it', s')" by simp
  from get_pkts_none [OF this, of g] show ?case
    by (cases "outlimit w") (simp_all add: called_def after_drains_def)
next
  case (yields_pkt s it p it' s1 ps s')
  let ?w1 = "called (Get_cx_data True) (w\<lparr>codec := s1\<rparr>)"
  let ?gets = "replicate (length ps) (Get_cx_data True) @ [Get_cx_data False]"
  have gx: "aom_codec_get_cx_data L (codec w) it = (Some p, it', s1)"
    using yields_pkt.hyps(1) yields_pkt.prems(1) by simp
  have w1: "?w1 = after_drains [Get_cx_data True] [] s1 w"
    by (cases "outlimit w") (simp_all add: called_def after_drains_def)
  show ?case
  proof (cases p)
    case (Other_pkt k)
    have room: "room_for (length (output_of ps)) ?w1"
      using yields_pkt.prems(2) Other_pkt by (simp add: room_for_def called_def)
    have c: "codec ?w1 = s1" by (simp add: called_def)
    have "get_pkts L it g w = get_pkts L it' 1 ?w1"
      using get_pkts_other [of L w it k it' s1 g] gx Other_pkt by simp
    also have "\<dots> = Some (Return 1, after_drains ?gets ps s' ?w1)"
      using yields_pkt.IH [OF c room, of 1] by simp
    also have "after_drains ?gets ps s' ?w1 = after_drains (Get_cx_data True # ?gets) (p # ps) s' w"
      unfolding w1 after_drains_compose using Other_pkt
      by (cases "outlimit w") (simp_all add: after_drains_def)
    finally show ?thesis by simp
  next
    case (AOM_CODEC_CX_FRAME_PKT b f)
    let ?w2 = "?w1\<lparr>outfile := outfile ?w1 @ b,
                    outlimit := map_option (\<lambda>room. room - length b) (outlimit ?w1)\<rparr>"
    let ?w3 = "printf (if f AND AOM_FRAME_IS_KEY \<noteq> 0 then ''K'' else ''.'') [] ?w2"
    have fits: "outlimit ?w1 = None \<or> (\<exists>room. outlimit ?w1 = Some room \<and> length b \<le> room)"
      using yields_pkt.prems(2) AOM_CODEC_CX_FRAME_PKT
      by (auto simp: room_for_def called_def split: option.splits)
    have fw: "fwrite b ?w1 = (length b, ?w2)" by (rule fwrite_fits [OF fits])
    have w3: "?w3 = after_drains [Get_cx_data True] [p] s1 w"
      using AOM_CODEC_CX_FRAME_PKT
      by (cases "outlimit w") (simp_all add: called_def after_drains_def printf_def)
    have c: "codec ?w3 = s1" by (simp add: called_def printf_def)
    have room: "room_for (length (output_of ps)) ?w3"
      unfolding w3 by (rule room_for_after_drains) (use yields_pkt.prems(2) in simp)
    have "get_pkts L it g w = get_pkts L it' 1 ?w3"
      using get_pkts_frame_pkt [OF _ fw, of L it f it' g] gx AOM_CODEC_CX_FRAME_PKT by simp
    also have "\<dots> = Some (Return 1, after_drains ?gets ps s' ?w3)"
      using yields_pkt.IH [OF c room, of 1] by simp
    also have "after_drains ?gets ps s' ?w3 = after_drains (Get_cx_data True # ?gets) (p # ps) s' w"
      unfolding w3 after_drains_compose by simp
    finally show ?thesis by simp
  qed
qed

lemma encode_frame_exact:
  assumes enc: "aom_codec_encode L (codec w) (map_option (\<lambda>i. (i, mem w)) img) fi 1 fl
                  = (AOM_CODEC_OK, s1)"
    and y: "yields L s1 0 ps s'" and room: "room_for (length (output_of ps)) w"
  shows "encode_frame L img fi fl w =
           Some (Return (if ps = [] then 0 else 1),
                 after_drains (cycle_calls (img \<noteq> None) fi fl ps) ps s' w)"
proof -
  let ?w1 = "called (Encode (img \<noteq> None) fi 1 fl) (w\<lparr>codec := s1\<rparr>)"
  let ?gets = "replicate (length ps) (Get_cx_data True) @ [Get_cx_data False]"
  have w1: "?w1 = after_drains [Encode (img \<noteq> None) fi 1 fl] [] s1 w"
    by (cases "outlimit w") (simp_all add: called_def after_drains_def)
  have c: "codec ?w1 = s1" by (simp add: called_def)
  have r: "room_for (length (output_of ps)) ?w1"
    using room by (simp add: room_for_def called_def)
  have "encode_frame L img fi fl w = get_pkts L 0 0 ?w1"
    using encode_frame_unfold [OF enc] by simp
  also have "\<dots> = Some (Return (if ps = [] then 0 else 1), after_drains ?gets ps s' ?w1)"
    using get_pkts_yields_exact [OF y c r, of 0] .
  also have "after_drains ?gets ps s' ?w1 = after_drains (cycle_calls (img \<noteq> None) fi fl ps) ps s' w"
    unfolding w1 after_drains_compose by (simp add: cycle_calls_def)
  finally show ?thesis .
qed

lemma flush_calls_simps [simp]:
  "flush_calls [] = []"
  "flush_calls (ps # pss) = cycle_calls False (- 1) 0 ps @ flush_calls pss"
  by (simp_all add: flush_calls_def)

lemma flush_loop_exact:
  "flush_cycles L s pss s' \<Longrightarrow> codec w = s \<Longrightarrow> room_for (length (output_of (concat pss))) w \<Longrightarrow>
   flush_loop L w = Some (Return (), after_drains (flush_calls pss) (concat pss) s' w)"
proof (induction arbitrary: w rule: flush_cycles.induct)
  case (last_cycle s s1 s')
  have enc: "aom_codec_encode L (codec w) (map_option (\<lambda>i. (i, mem w)) None) (- 1) 1 0
               = (AOM_CODEC_OK, s1)"
    using last_cycle.hyps(1) last_cycle.prems(1) by simp
  have room: "room_for (length (output_of [])) w"
    by (simp add: room_for_def split: option.splits)
  from encode_frame_exact [OF enc last_cycle.hyps(2) room]
  have "encode_frame L None (- 1) 0 w
          = Some (Return 0, after_drains (cycle_calls False (- 1) 0 []) [] s' w)"
    by simp
  from flush_loop_stop [OF this] show ?case by simp
next
  case (next_cycle s s1 ps s2 pss s')
  let ?w1 = "after_drains (cycle_calls False (- 1) 0 ps) ps s2 w"
  have enc: "aom_codec_encode L (codec w) (map_option (\<lambda>i. (i, mem w)) None) (- 1) 1 0
               = (AOM_CODEC_OK, s1)"
    using next_cycle.hyps(1) next_cycle.prems(1) by simp
  have all: "room_for (length (output_of (ps @ concat pss))) w"
    using next_cycle.prems(2) by simp
  from encode_frame_exact [OF enc next_cycle.hyps(2) room_for_first [OF all]] next_cycle.hyps(3)
  have "encode_frame L None (- 1) 0 w = Some (Return 1, ?w1)"
    by simp
  from flush_loop_again [OF this]
  have "flush_loop L w = flush_loop L ?w1" by simp
  also have "\<dots> = Some (Return (), after_drains (flush_calls pss) (concat pss) s' ?w1)"
    by (rule next_cycle.IH) (simp_all add: after_drains_def room_for_after_drains [OF all, unfolded after_drains_def])
  finally show ?case
    unfolding after_drains_compose by simp
qed

lemma flush_cycles_shape:
  "flush_cycles L s pss s' \<Longrightarrow> pss \<noteq> [] \<and> last pss = [] \<and> (\<forall>ps \<in> set (butlast pss). ps \<noteq> [])"
  by (induction rule: flush_cycles.induct) auto

lemma yields_held:
  assumes dd: "drains_down L held"
  shows "yields L s it ps s' \<Longrightarrow> held s' + length ps \<le> held s"
proof (induction rule: yields.induct)
  case (yields_end s it it' s')
  from dd [unfolded drains_down_def, rule_format, of s it] yields_end.hyps
  show ?case by simp
next
  case (yields_pkt s it p it' s1 ps s')
  from dd [unfolded drains_down_def, rule_format, of s it] yields_pkt.hyps(1)
  have "held s1 < held s" by simp
  with yields_pkt.IH show ?case by simp
qed

lemma flush_cycles_bound:
  assumes dd: "drains_down L held" and ns: "null_submit_adds_none L held"
  shows "flush_cycles L s pss s' \<Longrightarrow>
         held s' + length (concat pss) \<le> held s \<and> length pss \<le> length (concat pss) + 1"
proof (induction rule: flush_cycles.induct)
  case (last_cycle s s1 s')
  from ns [unfolded null_submit_adds_none_def, rule_format, of s] last_cycle.hyps(1)
  have "held s1 \<le> held s" by simp
  with yields_held [OF dd last_cycle.hyps(2)] show ?case by simp
next
  case (next_cycle s s1 ps s2 pss s')
  from ns [unfolded null_submit_adds_none_def, rule_format, of s] next_cycle.hyps(1)
  have "held s1 \<le> held s" by simp
  moreover have "1 \<le> length ps" using next_cycle.hyps(3) by (cases ps) simp_all
  ultimately show ?case
    using yields_held [OF dd next_cycle.hyps(2)] next_cycle.IH by (simp del: One_nat_def)
qed

lemma yields_exists:
  assumes dd: "drains_down L held"
  shows "\<exists>ps s'. yields L s it ps s'"
proof (induction "held s" arbitrary: s it rule: less_induct)
  case less
  obtain pkt it' s1 where gx: "aom_codec_get_cx_data L s it = (pkt, it', s1)"
    by (metis prod_cases3)
  show ?case
  proof (cases pkt)
    case None
    with gx have "yields L s it [] s1" by (auto intro: yields_end)
    then show ?thesis by blast
  next
    case (Some p)
    from dd [unfolded drains_down_def, rule_format, of s it] gx Some
    have "held s1 < held s" by simp
    from less.hyps [OF this, of it'] obtain ps s' where "yields L s1 it' ps s'" by blast
    with gx Some have "yields L s it (p # ps) s'" by (auto intro: yields_pkt)
    then show ?thesis by blast
  qed
qed

lemma flush_cycles_exists:
  assumes dd: "drains_down L held" and ns: "null_submit_adds_none L held"
    and ok: "null_submit_succeeds L"
  shows "\<exists>pss s'. flush_cycles L s pss s'"
proof (induction "held s" arbitrary: s rule: less_induct)
  case less
  obtain res s1 where enc0: "aom_codec_encode L s None (- 1) 1 0 = (res, s1)"
    by (metis surj_pair)
  with ok [unfolded null_submit_succeeds_def, rule_format, of s]
  have enc: "aom_codec_encode L s None (- 1) 1 0 = (AOM_CODEC_OK, s1)" by simp
  from ns [unfolded null_submit_adds_none_def, rule_format, of s] enc
  have h1: "held s1 \<le> held s" by simp
  from yields_exists [OF dd, of s1 0] obtain ps s2 where y: "yields L s1 0 ps s2" by blast
  show ?case
  proof (cases "ps = []")
    case True
    with enc y have "flush_cycles L s [[]] s2" by (auto intro: last_cycle)
    then show ?thesis by blast
  next
    case False
    then have "1 \<le> length ps" by (cases ps) simp_all
    with yields_held [OF dd y] h1 have "held s2 < held s" by arith
    from less.hyps [OF this] obtain pss s' where "flush_cycles L s2 pss s'" by blast
    from next_cycle [OF enc y False this] show ?thesis by blast
  qed
qed

subsection \<open>The input loop\<close>

lemma aom_img_read_cases:
  obtains (full) m' where "frame_bytes raw \<le> length inp"
      "aom_img_read raw inp m = (1, drop (frame_bytes raw) inp, m')"
  | (short) m' where "length inp < frame_bytes raw" "aom_img_read raw inp m = (0, [], m')"
proof -
  obtain r inp' m' where rd: "aom_img_read raw inp m = (r, inp', m')"
    by (metis prod_cases3)
  from aom_img_read_result [OF rd]
  have r: "r = 0 \<or> r = 1" and iff: "(r = 1) = (frame_bytes raw \<le> length inp)"
    and one: "r = 1 \<Longrightarrow> inp' = drop (frame_bytes raw) inp" and zero: "r = 0 \<Longrightarrow> inp' = []"
    by blast+
  show thesis
  proof (cases "r = 1")
    case True
    with iff one rd full show thesis by simp
  next
    case False
    with r have "r = 0" by simp
    with iff zero rd short show thesis by simp
  qed
qed

lemma main_iter_read_fail:
  "aom_img_read raw (infile w) (mem w) = (0, inp', m') \<Longrightarrow>
   main_iter L raw ki mf fc fe w = Some (Leave (Return (fc, fe)), w\<lparr>infile := inp', mem := m'\<rparr>)"
  by (simp add: main_iter_def)

lemma main_iter_overflow:
  "aom_img_read raw (infile w) (mem w) = (1, inp', m') \<Longrightarrow> fc = INT_MAX \<Longrightarrow>
   main_iter L raw ki mf fc fe w = Some (Leave Undefined, w\<lparr>infile := inp', mem := m'\<rparr>)"
  by (simp add: main_iter_def)

lemma main_iter_encoded:
  "aom_img_read raw (infile w) (mem w) = (1, inp', m') \<Longrightarrow> fc \<noteq> INT_MAX \<Longrightarrow>
   main_iter L raw ki mf fc fe w =
     (case encode_frame L (Some raw) fc (force_kf_flags fc ki) (w\<lparr>infile := inp', mem := m'\<rparr>) of
        None \<Rightarrow> None
      | Some (Exit c, w2) \<Rightarrow> Some (Leave (Exit c), w2)
      | Some (Undefined, w2) \<Rightarrow> Some (Leave Undefined, w2)
      | Some (Return got, w2) \<Rightarrow>
          Some (if fe = INT_MAX then Leave Undefined
                else if mf > 0 \<and> fe + 1 \<ge> mf then Leave (Return (fc + 1, fe + 1))
                else Continue (fc + 1) (fe + 1),
                printf ''encoded_frame: %d\<newline>'' [D fe] w2))"
  by (simp add: main_iter_def Let_def split: option.splits outcome.splits prod.splits)

lemma main_iter_effect:
  assumes "main_iter L raw ki mf fc fe w = Some (st, w')"
  shows "(st = Leave (Return (fc, fe)) \<and> length (infile w) < frame_bytes raw \<and>
          calls w' = calls w \<and> infile w' = [])
       \<or> (st = Leave Undefined \<and> fc = INT_MAX \<and> calls w' = calls w)
       \<or> (fc \<noteq> INT_MAX \<and> frame_bytes raw \<le> length (infile w) \<and>
          infile w' = drop (frame_bytes raw) (infile w) \<and>
          submits (calls w') = submits (calls w) @ [(True, fc, force_kf_flags fc ki)] \<and>
          (st = Leave (Exit EXIT_FAILURE) \<or> (st = Leave Undefined \<and> fe = INT_MAX) \<or>
           (fe \<noteq> INT_MAX \<and>
            st = (if mf > 0 \<and> fe + 1 \<ge> mf then Leave (Return (fc + 1, fe + 1))
                  else Continue (fc + 1) (fe + 1)))))"
proof -
  consider (full) m' where "frame_bytes raw \<le> length (infile w)"
      "aom_img_read raw (infile w) (mem w) = (1, drop (frame_bytes raw) (infile w), m')"
    | (short) m' where "length (infile w) < frame_bytes raw"
      "aom_img_read raw (infile w) (mem w) = (0, [], m')"
    by (rule aom_img_read_cases)
  then show ?thesis
  proof cases
  case (short m')
  from main_iter_read_fail [OF short(2), of L ki mf fc fe] assms short(1)
  show ?thesis by auto
next
  case (full m')
  let ?w1 = "w\<lparr>infile := drop (frame_bytes raw) (infile w), mem := m'\<rparr>"
  show ?thesis
  proof (cases "fc = INT_MAX")
    case True
    from main_iter_overflow [OF full(2) True, of L ki mf fe] assms True show ?thesis by auto
  next
    case False
    note unfold = main_iter_encoded [OF full(2) False, of L ki mf fe]
    show ?thesis
    proof (cases "encode_frame L (Some raw) fc (force_kf_flags fc ki) ?w1")
      case None
      with unfold assms show ?thesis by simp
    next
      case (Some y)
      obtain r w2 where y: "y = (r, w2)" by (metis surj_pair)
      with Some have ef: "encode_frame L (Some raw) fc (force_kf_flags fc ki) ?w1 = Some (r, w2)"
        by simp
      from encode_frame_effect [OF ef] encode_frame_submits [OF ef]
      have eff: "infile w2 = drop (frame_bytes raw) (infile w)"
        "submits (calls w2) = submits (calls w) @ [(True, fc, force_kf_flags fc ki)]"
        "r \<noteq> Undefined" "\<And>c. r = Exit c \<Longrightarrow> c = EXIT_FAILURE"
        by simp_all
      show ?thesis
      proof (cases r)
        case (Exit c)
        with unfold ef assms eff False full(1) show ?thesis by auto
      next
        case Undefined
        with eff show ?thesis by simp
      next
        case (Return got)
        with unfold ef assms eff False full(1) show ?thesis
          by (auto simp: printf_def)
      qed
    qed
  qed
qed
qed

lemma real_submits_0 [simp]: "real_submits ki fc 0 = []"
  by (simp add: real_submits_def)

lemma real_submits_Suc:
  "real_submits ki fc (Suc n) = (True, fc, force_kf_flags fc ki) # real_submits ki (fc + 1) n"
proof -
  have "[0..<Suc n] = 0 # map Suc [0..<n]"
    by (simp add: upt_conv_Cons map_Suc_upt del: upt_Suc)
  then show ?thesis
    by (simp add: real_submits_def comp_def ac_simps del: upt_Suc)
qed

lemma main_loop_leave:
  "main_iter L raw ki mf fc fe w = Some (Leave out, w') \<Longrightarrow>
   main_loop L raw ki mf fc fe w = Some (out, w')"
  by (subst main_loop.simps) simp

lemma main_loop_continue:
  "main_iter L raw ki mf fc fe w = Some (Continue fc' fe', w') \<Longrightarrow>
   main_loop L raw ki mf fc fe w = main_loop L raw ki mf fc' fe' w'"
  by (subst main_loop.simps) simp

lemma main_loop_invariant:
  "main_loop L raw ki mf fc fe w = Some y \<Longrightarrow> fc = fe \<Longrightarrow>
   \<exists>n. submits (calls (snd y)) = submits (calls w) @ real_submits ki fc n \<and>
       (\<forall>a b. fst y = Return (a, b) \<longrightarrow> a = fc + int n \<and> b = fc + int n)"
proof (induction rule: main_loop.raw_induct [rotated 1, consumes 1])
  case (1 main_loop L raw ki mf fc fe w y)
  from "1.hyps" obtain st w1 where mi: "main_iter L raw ki mf fc fe w = Some (st, w1)"
    by (cases "main_iter L raw ki mf fc fe w") auto
  note eff = main_iter_effect [OF mi]
  show ?case
  proof (cases st)
    case (Leave out)
    with "1.hyps" mi have y: "y = (out, w1)" by simp
    from eff Leave consider
      (same) "calls w1 = calls w" "out = Return (fc, fe) \<or> out = Undefined"
      | (one) "submits (calls w1) = submits (calls w) @ [(True, fc, force_kf_flags fc ki)]"
          "out = Exit EXIT_FAILURE \<or> out = Undefined \<or> out = Return (fc + 1, fe + 1)"
      by (auto split: if_splits)
    then show ?thesis
    proof cases
      case same
      with y "1.prems" show ?thesis
        by (intro exI [of _ 0]) auto
    next
      case one
      with y "1.prems" show ?thesis
        by (intro exI [of _ 1]) (auto simp: real_submits_Suc)
    qed
  next
    case (Continue fc' fe')
    with "1.hyps" mi have rec: "main_loop L raw ki mf fc' fe' w1 = Some y" by simp
    from eff Continue have st: "fc' = fc + 1" "fe' = fe + 1"
      "submits (calls w1) = submits (calls w) @ [(True, fc, force_kf_flags fc ki)]"
      by (auto split: if_splits)
    with "1.prems" have "fc' = fe'" by simp
    from "1.IH" [OF rec this] obtain n where
      n: "submits (calls (snd y)) = submits (calls w1) @ real_submits ki fc' n"
        "\<forall>a b. fst y = Return (a, b) \<longrightarrow> a = fc' + int n \<and> b = fc' + int n"
      by blast
    show ?thesis
      by (rule exI [of _ "Suc n"]) (use n st in \<open>auto simp: real_submits_Suc\<close>)
  qed
qed

lemma flush_loop_submits:
  "flush_loop L w = Some y \<Longrightarrow>
   \<exists>k. submits (calls (snd y)) = submits (calls w) @ replicate k (False, - 1, 0) \<and> 1 \<le> k"
proof (induction rule: flush_loop.raw_induct [rotated 1, consumes 1])
  case (1 flush_loop L w y)
  from "1.hyps" obtain r w1 where ef: "encode_frame L None (- 1) 0 w = Some (r, w1)"
    by (cases "encode_frame L None (- 1) 0 w") auto
  from encode_frame_submits [OF ef]
  have sub: "submits (calls w1) = submits (calls w) @ [(False, - 1, 0)]" by simp
  show ?case
  proof (cases "\<exists>got. r = Return got \<and> got \<noteq> 0")
    case True
    with "1.hyps" ef have "flush_loop L w1 = Some y" by auto
    from "1.IH" [OF this] obtain k where
      "submits (calls (snd y)) = submits (calls w1) @ replicate k (False, - 1, 0)" by blast
    with sub show ?thesis
      by (intro exI [of _ "Suc k"]) simp
  next
    case False
    with "1.hyps" ef have "snd y = w1"
      by (cases r) (auto split: if_splits)
    with sub show ?thesis
      by (intro exI [of _ 1]) simp
  qed
qed

lemma submits_Cons:
  "submits (c # cs) = (case c of Encode r p d f \<Rightarrow> [(r, p, f)] | _ \<Rightarrow> []) @ submits cs"
  by (simp add: submits_def)

lemma finish_effect:
  "finish L a fc w = (out, w') \<Longrightarrow>
   submits (calls w') = submits (calls w) \<and> processed_msg fc \<in> set (stdout w') \<and>
   infile w' = infile w \<and> outfile w' = outfile w \<and>
   (out = (if fst (aom_codec_destroy L (codec w)) \<noteq> 0 then Exit EXIT_FAILURE
           else Return EXIT_SUCCESS))"
  by (auto simp: finish_def Let_def called_def printf_def die_codec_def processed_msg_def
      submits_Cons split: prod.splits option.splits if_splits)

subsection \<open>Before the loops\<close>

lemma get_aom_encoder_by_name_av1:
  "get_aom_encoder_by_name nm = (if nm = ''av1'' then Some \<lparr>name = ''av1'', fourcc = AV1_FOURCC\<rparr> else None)"
proof -
  have "get_aom_encoder_from 1 nm = None"
    by (subst get_aom_encoder_from.simps) (simp add: aom_encoders_def)
  then show ?thesis
    unfolding get_aom_encoder_by_name_def
    by (subst get_aom_encoder_from.simps) (auto simp: aom_encoders_def Let_def)
qed

lemma main_setup_bad_codec:
  "codec_arg a \<noteq> ''av1'' \<Longrightarrow>
   main_setup L a s0 m0 =
     (Exit EXIT_FAILURE,
      (initial_world s0 m0)\<lparr>stderr := usage_report (exec_name a) ''Unsupported codec.'' []\<rparr>)"
  by (simp add: main_setup_def get_aom_encoder_by_name_av1 die_def usage_exit_def
      fprintf_stderr_def initial_world_def usage_report_def)

lemma main_setup_bad_size:
  "codec_arg a = ''av1'' \<Longrightarrow> bad_frame_size a \<Longrightarrow>
   main_setup L a s0 m0 =
     (Exit EXIT_FAILURE,
      (initial_world s0 m0)\<lparr>stderr := usage_report (exec_name a) ''Invalid frame size: %dx%d''
                                       [D (frame_width a), D (frame_height a)]\<rparr>)"
  unfolding bad_frame_size_def
  by (simp add: main_setup_def get_aom_encoder_by_name_av1 die_def usage_exit_def
      fprintf_stderr_def initial_world_def usage_report_def)

lemma main_setup_bad_interval:
  "codec_arg a = ''av1'' \<Longrightarrow> \<not> bad_frame_size a \<Longrightarrow>
   aom_img_alloc L (frame_width a) (frame_height a) = Some raw \<Longrightarrow> keyframe_interval a < 0 \<Longrightarrow>
   main_setup L a s0 m0 =
     (Exit EXIT_FAILURE,
      (initial_world s0 m0)\<lparr>stderr := usage_report (exec_name a) ''Invalid keyframe interval value.'' [],
                              calls := [Img_alloc (frame_width a) (frame_height a)]\<rparr>)"
  unfolding bad_frame_size_def
  by (simp add: main_setup_def get_aom_encoder_by_name_av1 die_def usage_exit_def
      fprintf_stderr_def initial_world_def usage_report_def called_def)

lemma main_body_exit:
  "main_setup L a s0 m0 = (Exit c, w) \<Longrightarrow> main_body L a s0 m0 = Some (Exit c, w)"
  by (simp add: main_body_def)

lemma main_body_run:
  "main_setup L a s0 m0 = (Return raw, w) \<Longrightarrow> main_body L a s0 m0 = encode_frames L a raw w"
  by (simp add: main_body_def)

lemma main_setup_init_fails:
  assumes "codec_arg a = ''av1''" "\<not> bad_frame_size a"
    "aom_img_alloc L (frame_width a) (frame_height a) = Some raw" "0 \<le> keyframe_interval a"
    "aom_codec_enc_config_default L = 0" "fopen_rb L (infile_arg a) = Some bytes"
    "fopen_wb L (outfile_arg a) = Some limit"
    "aom_codec_enc_init L (main_cfg a) = (res, s1)" "res \<noteq> 0"
  shows "main_setup L a s0 m0 =
     (Exit EXIT_FAILURE,
      \<lparr>codec = s1, mem = m0, infile = bytes, outfile = [], outlimit = limit,
       stdout = [(''Using %s\<newline>'', [S (aom_codec_iface_name L)]),
                 (''%s: %s\<newline>'', [S ''Failed to initialize encoder'', S (aom_codec_error L s1)])]
                @ (case aom_codec_error_detail L s1 of
                     None \<Rightarrow> [] | Some d \<Rightarrow> [(''    %s\<newline>'', [S d])]),
       stderr = [],
       calls = [Img_alloc (frame_width a) (frame_height a), Enc_config_default,
                Fopen (infile_arg a) ''rb'', Fopen (outfile_arg a) ''wb'', Enc_init]\<rparr>)"
  using assms unfolding bad_frame_size_def
  by (simp add: main_setup_def get_aom_encoder_by_name_av1 die_codec_def called_def printf_def
      Let_def split: option.splits)

lemma main_setup_ok:
  assumes "codec_arg a = ''av1''" "\<not> bad_frame_size a"
    "aom_img_alloc L (frame_width a) (frame_height a) = Some raw" "0 \<le> keyframe_interval a"
    "aom_codec_enc_config_default L = 0" "fopen_rb L (infile_arg a) = Some bytes"
    "fopen_wb L (outfile_arg a) = Some limit"
    "aom_codec_enc_init L (main_cfg a) = (0, s1)"
  shows "main_setup L a s0 m0 =
     (Return raw,
      \<lparr>codec = aom_codec_control L (aom_codec_control L s1 AOME_SET_CPUUSED 8)
                 AOME_SET_CQ_LEVEL 45,
       mem = m0, infile = bytes, outfile = [], outlimit = limit,
       stdout = [(''Using %s\<newline>'', [S (aom_codec_iface_name L)])],
       stderr = [],
       calls = [Img_alloc (frame_width a) (frame_height a), Enc_config_default,
                Fopen (infile_arg a) ''rb'', Fopen (outfile_arg a) ''wb'', Enc_init,
                Control AOME_SET_CPUUSED 8, Control AOME_SET_CQ_LEVEL 45]\<rparr>)"
  using assms unfolding bad_frame_size_def
  by (simp add: main_setup_def get_aom_encoder_by_name_av1 called_def printf_def Let_def)

lemma die_effect:
  "die fmt as exec w = (out, w') \<Longrightarrow> out = Exit EXIT_FAILURE \<and> calls w' = calls w"
  by (auto simp: die_def usage_exit_def fprintf_stderr_def)

lemma main_setup_submits:
  "main_setup L a s0 m0 = (out, w) \<Longrightarrow>
   submits (calls w) = [] \<and> out \<noteq> Undefined \<and> (\<forall>c. out = Exit c \<longrightarrow> c = EXIT_FAILURE)"
  unfolding main_setup_def Let_def
  by (auto simp: die_def usage_exit_def fprintf_stderr_def die_codec_def called_def printf_def
      submits_Cons Let_def split: option.splits if_splits prod.splits)

subsection \<open>Whole runs\<close>

lemma main_loop_reaches_max:
  assumes dd: "drains_down L held" and es: "encode_succeeds L"
  shows "0 < mf \<Longrightarrow> mf \<le> INT_MAX \<Longrightarrow> fe < mf \<Longrightarrow> outlimit w = None \<Longrightarrow>
    nat (mf - fe) * frame_bytes raw \<le> length (infile w) \<Longrightarrow>
    \<exists>w'. main_loop L raw ki mf fe fe w = Some (Return (mf, mf), w') \<and>
         infile w' = drop (nat (mf - fe) * frame_bytes raw) (infile w) \<and> outlimit w' = None \<and>
         submits (calls w') = submits (calls w) @ real_submits ki fe (nat (mf - fe))"
proof (induction "nat (mf - fe)" arbitrary: fe w)
  case 0
  then show ?case by simp
next
  case (Suc n)
  let ?fb = "frame_bytes raw"
  have n: "nat (mf - fe) = Suc n" using Suc.hyps(2) by simp
  have enough: "?fb \<le> length (infile w)" using Suc.prems(5) n by simp
  have nomax: "fe \<noteq> INT_MAX" using Suc.prems(2,3) by simp
  have "\<exists>m'. aom_img_read raw (infile w) (mem w) = (1, drop ?fb (infile w), m')"
    by (rule aom_img_read_cases [of raw "infile w" "mem w"]) (use enough in auto)
  then obtain m' where rd: "aom_img_read raw (infile w) (mem w) = (1, drop ?fb (infile w), m')"
    by blast
  let ?w1 = "w\<lparr>infile := drop ?fb (infile w), mem := m'\<rparr>"
  let ?fl = "force_kf_flags fe ki"
  obtain res s1 where
    enc: "aom_codec_encode L (codec ?w1) (map_option (\<lambda>i. (i, mem ?w1)) (Some raw)) fe 1 ?fl
            = (res, s1)"
    by (metis surj_pair)
  from es [unfolded encode_succeeds_def, rule_format,
      of "codec ?w1" "map_option (\<lambda>i. (i, mem ?w1)) (Some raw)" fe 1 ?fl] enc
  have res: "res = AOM_CODEC_OK" by simp
  from encode_frame_terminates [OF dd enc] res Suc.prems(4) obtain got w2 where
    ef: "encode_frame L (Some raw) fe ?fl ?w1 = Some (Return got, w2)"
    and lim2: "outlimit w2 = None"
    by auto
  from encode_frame_effect [OF ef] encode_frame_submits [OF ef]
  have w2: "infile w2 = drop ?fb (infile w)"
    "submits (calls w2) = submits (calls w) @ [(True, fe, ?fl)]"
    by simp_all
  let ?w3 = "printf ''encoded_frame: %d\<newline>'' [D fe] w2"
  have w3: "infile ?w3 = drop ?fb (infile w)" "outlimit ?w3 = None"
    "submits (calls ?w3) = submits (calls w) @ [(True, fe, ?fl)]"
    using w2 lim2 by (simp_all add: printf_def)
  note iter = main_iter_encoded [OF rd nomax, of L ki mf fe, unfolded ef, simplified]
  show ?case
  proof (cases "fe + 1 \<ge> mf")
    case True
    with Suc.prems(3) have last: "fe + 1 = mf" by simp
    then have n0: "nat (mf - fe) = 1" by simp
    from iter nomax True Suc.prems(1) last
    have "main_iter L raw ki mf fe fe w = Some (Leave (Return (mf, mf)), ?w3)"
      by simp
    from main_loop_leave [OF this] w3 show ?thesis
      unfolding n0 by (simp add: real_submits_Suc)
  next
    case False
    with iter nomax
    have "main_iter L raw ki mf fe fe w = Some (Continue (fe + 1) (fe + 1), ?w3)"
      by simp
    from main_loop_continue [OF this]
    have step: "main_loop L raw ki mf fe fe w = main_loop L raw ki mf (fe + 1) (fe + 1) ?w3" .
    have n': "n = nat (mf - (fe + 1))" using n by simp
    have lt: "fe + 1 < mf" using False by simp
    have len: "nat (mf - (fe + 1)) * ?fb \<le> length (infile ?w3)"
      using Suc.prems(5) n n' w3(1) by simp
    from Suc.hyps(1) [OF n' Suc.prems(1,2) lt w3(2) len] obtain w' where
      w': "main_loop L raw ki mf (fe + 1) (fe + 1) ?w3 = Some (Return (mf, mf), w')"
        "infile w' = drop (nat (mf - (fe + 1)) * ?fb) (infile ?w3)" "outlimit w' = None"
        "submits (calls w') = submits (calls ?w3) @ real_submits ki (fe + 1) (nat (mf - (fe + 1)))"
      by blast
    have "infile w' = drop (nat (mf - fe) * ?fb) (infile w)"
      using w'(2) w3(1) n n' by (simp add: add.commute)
    moreover have "submits (calls w') = submits (calls w) @ real_submits ki fe (nat (mf - fe))"
      using w'(4) w3(3) n n' by (simp add: real_submits_Suc)
    ultimately show ?thesis using step w'(1,3) by simp
  qed
qed

lemma encode_frames_effect:
  assumes "encode_frames L a raw w = Some (out, w')"
  shows "\<exists>n k. submits (calls w') =
            submits (calls w) @ real_submits (keyframe_interval a) 0 n
              @ replicate k (False, - 1, 0) \<and>
          (\<forall>r. out = Return r \<longrightarrow> r = EXIT_SUCCESS \<and> processed_msg (int n) \<in> set (stdout w'))"
proof -
  let ?ki = "keyframe_interval a"
  from assms obtain o1 w1 where
    ml: "main_loop L raw ?ki (max_frames a) 0 0 w = Some (o1, w1)"
    by (cases "main_loop L raw ?ki (max_frames a) 0 0 w") (auto simp: encode_frames_def)
  from main_loop_invariant [OF ml refl] obtain n where
    n: "submits (calls w1) = submits (calls w) @ real_submits ?ki 0 n"
      "\<forall>a b. o1 = Return (a, b) \<longrightarrow> a = int n \<and> b = int n"
    by auto
  have early: ?thesis if "out = o' \<and> w' = w1" "\<forall>r. o' \<noteq> Return r" for o' :: "int outcome"
    by (rule exI [of _ n], rule exI [of _ 0]) (use that n in simp)
  show ?thesis
  proof (cases o1)
    case (Exit c)
    with assms ml have "out = Exit c \<and> w' = w1" by (simp add: encode_frames_def)
    then show ?thesis by (rule early) simp
  next
    case Undefined
    with assms ml have "out = Undefined \<and> w' = w1" by (simp add: encode_frames_def)
    then show ?thesis by (rule early) simp
  next
    case (Return cnt)
    obtain fc fe where cnt: "cnt = (fc, fe)" by (metis surj_pair)
    with n(2) Return have fc: "fc = int n" by simp
    from assms ml Return cnt obtain o2 w2 where fl: "flush_loop L w1 = Some (o2, w2)"
      by (cases "flush_loop L w1") (auto simp: encode_frames_def)
    from flush_loop_submits [OF fl] obtain k where
      k: "submits (calls w2) = submits (calls w1) @ replicate k (False, - 1, 0)"
      by auto
    have late: ?thesis if "out = o' \<and> w' = w2" "\<forall>r. o' \<noteq> Return r" for o' :: "int outcome"
      by (rule exI [of _ n], rule exI [of _ k]) (use that n k in simp)
    show ?thesis
    proof (cases o2)
      case (Exit c)
      with assms ml Return cnt fl have "out = Exit c \<and> w' = w2"
        by (simp add: encode_frames_def)
      then show ?thesis by (rule late) simp
    next
      case Undefined
      with assms ml Return cnt fl have "out = Undefined \<and> w' = w2"
        by (simp add: encode_frames_def)
      then show ?thesis by (rule late) simp
    next
      case (Return u)
      with assms ml \<open>o1 = Return cnt\<close> cnt fl have "finish L a fc w2 = (out, w')"
        by (simp add: encode_frames_def)
      from finish_effect [OF this]
      have "submits (calls w') = submits (calls w2)" "processed_msg fc \<in> set (stdout w')"
        "out = Return EXIT_SUCCESS \<or> out = Exit EXIT_FAILURE"
        by (auto split: if_splits)
      then show ?thesis
        by (intro exI [of _ n] exI [of _ k]) (use n k fc in auto)
    qed
  qed
qed

lemma main_body_effect:
  assumes "main_body L a s0 m0 = Some (out, w')"
  shows "\<exists>n k. submits (calls w') =
            real_submits (keyframe_interval a) 0 n @ replicate k (False, - 1, 0) \<and>
          (\<forall>r. out = Return r \<longrightarrow> r = EXIT_SUCCESS \<and> processed_msg (int n) \<in> set (stdout w'))"
proof -
  obtain o0 w where st: "main_setup L a s0 m0 = (o0, w)" by (metis surj_pair)
  note s = main_setup_submits [OF st]
  show ?thesis
  proof (cases o0)
    case (Return raw)
    with st assms have "encode_frames L a raw w = Some (out, w')" by (simp add: main_body_def)
    from encode_frames_effect [OF this] s show ?thesis by simp
  next
    case (Exit c)
    with st assms have "out = Exit c" "w' = w" by (simp_all add: main_body_def)
    with s show ?thesis by (intro exI [of _ 0]) simp
  next
    case Undefined
    with s show ?thesis by simp
  qed
qed

lemma filter_real_submits:
  "filter fst (real_submits ki fc n @ replicate k (False, p, f)) = real_submits ki fc n"
  by (simp add: real_submits_def filter_map comp_def)

lemma pts_real_submits: "map (fst \<circ> snd) (real_submits ki 0 n) = map int [0..<n]"
  by (simp add: real_submits_def comp_def)

lemma main_body_completes:
  assumes dd: "drains_down L held" and ns: "null_submit_adds_none L held"
    and es: "encode_succeeds L" and ds: "destroy_succeeds L"
    and st: "main_setup L a s0 m0 = (Return raw, w)" and lim: "outlimit w = None"
    and mf: "0 < max_frames a" "max_frames a \<le> INT_MAX"
    and len: "nat (max_frames a) * frame_bytes raw \<le> length (infile w)"
  shows "\<exists>w1 w2 w' k.
           main_loop L raw (keyframe_interval a) (max_frames a) 0 0 w
             = Some (Return (max_frames a, max_frames a), w1) \<and>
           infile w1 = drop (nat (max_frames a) * frame_bytes raw) (infile w) \<and>
           flush_loop L w1 = Some (Return (), w2) \<and>
           main_body L a s0 m0 = Some (Return EXIT_SUCCESS, w') \<and>
           infile w' = infile w1 \<and> processed_msg (max_frames a) \<in> set (stdout w') \<and>
           submits (calls w') =
             real_submits (keyframe_interval a) 0 (nat (max_frames a))
               @ replicate k (False, - 1, 0) \<and>
           1 \<le> k \<and> k \<le> held (codec w1) + 1"
proof -
  let ?ki = "keyframe_interval a" and ?mf = "max_frames a"
  from main_loop_reaches_max [OF dd es mf(1,2), of 0 w raw ?ki] mf(1) lim len
  obtain w1 where
    w1: "main_loop L raw ?ki ?mf 0 0 w = Some (Return (?mf, ?mf), w1)"
      "infile w1 = drop (nat ?mf * frame_bytes raw) (infile w)" "outlimit w1 = None"
      "submits (calls w1) = submits (calls w) @ real_submits ?ki 0 (nat ?mf)"
    by auto
  from flush_loop_terminates [OF dd ns, of w1] es w1(3) obtain w2 k where
    w2: "flush_loop L w1 = Some (Return (), w2)"
      "submits (calls w2) = submits (calls w1) @ replicate k (False, - 1, 0)"
      "1 \<le> k" "k \<le> held (codec w1) + 1" "infile w2 = infile w1"
    by auto
  obtain out w' where fin: "finish L a ?mf w2 = (out, w')" by (metis surj_pair)
  from finish_effect [OF fin] ds
  have f: "submits (calls w') = submits (calls w2)" "processed_msg ?mf \<in> set (stdout w')"
    "infile w' = infile w2" "out = Return EXIT_SUCCESS"
    by (simp_all add: destroy_succeeds_def)
  have "encode_frames L a raw w = Some (Return EXIT_SUCCESS, w')"
    using w1(1) w2(1) fin f(4) by (simp add: encode_frames_def)
  then have run: "main_body L a s0 m0 = Some (Return EXIT_SUCCESS, w')"
    using main_body_run [OF st] by simp
  have "submits (calls w) = []" using main_setup_submits [OF st] by simp
  then have "submits (calls w') = real_submits ?ki 0 (nat ?mf) @ replicate k (False, - 1, 0)"
    using f(1) w2(2) w1(4) by simp
  with w1(1,2) w2(1,3,4,5) run f(2,3) show ?thesis by auto
qed

lemma fake_encode_succeeds: "encode_succeeds (fake_env n inp lim r)"
  by (auto simp: encode_succeeds_def fake_env_def fake_encode_def AOM_CODEC_OK_def Let_def
      split: option.splits list.splits)

lemma fake_destroy_succeeds: "destroy_succeeds (fake_env n inp lim r)"
  by (simp add: destroy_succeeds_def fake_env_def)

lemma frame_bytes_fake_image: "frame_bytes fake_image = 6"
  by (simp add: frame_bytes_def plane_bytes_def row_bytes_def fake_image_def)

lemma fake_main_setup:
  "main_setup (fake_env n inp None 0) fake_args \<lparr>waiting = [], ready = []\<rparr> blank_memory
     = (Return fake_image, fake_start inp)"
proof -
  have "main_setup (fake_env n inp None 0) fake_args \<lparr>waiting = [], ready = []\<rparr> blank_memory
     = (Return fake_image,
        \<lparr>codec = aom_codec_control (fake_env n inp None 0)
                   (aom_codec_control (fake_env n inp None 0) \<lparr>waiting = [], ready = []\<rparr>
                      AOME_SET_CPUUSED 8) AOME_SET_CQ_LEVEL 45,
         mem = blank_memory, infile = inp, outfile = [], outlimit = None,
         stdout = [(''Using %s\<newline>'', [S (aom_codec_iface_name (fake_env n inp None 0))])],
         stderr = [],
         calls = [Img_alloc (frame_width fake_args) (frame_height fake_args), Enc_config_default,
                  Fopen (infile_arg fake_args) ''rb'', Fopen (outfile_arg fake_args) ''wb'',
                  Enc_init, Control AOME_SET_CPUUSED 8, Control AOME_SET_CQ_LEVEL 45]\<rparr>)"
    by (rule main_setup_ok)
       (simp_all add: fake_args_def fake_env_def bad_frame_size_def smod_int_alt_def)
  then show ?thesis
    by (simp add: fake_start_def fake_env_def fake_args_def)
qed

lemma fake_run:
  "\<exists>w1 w2 w' k.
     main_loop (fake_env 1 three_frames None 0) fake_image 2 2 0 0 (fake_start three_frames)
       = Some (Return (2, 2), w1) \<and>
     infile w1 = [13, 14, 15, 16, 17, 18] \<and>
     flush_loop (fake_env 1 three_frames None 0) w1 = Some (Return (), w2) \<and>
     main_body (fake_env 1 three_frames None 0) fake_args \<lparr>waiting = [], ready = []\<rparr>
       blank_memory = Some (Return EXIT_SUCCESS, w') \<and>
     infile w' = infile w1 \<and> processed_msg 2 \<in> set (stdout w') \<and>
     submits (calls w') = real_submits 2 0 2 @ replicate k (False, - 1, 0) \<and> 1 \<le> k"
proof -
  have a: "max_frames fake_args = 2" "keyframe_interval fake_args = 2"
    by (simp_all add: fake_args_def)
  let ?L = "fake_env 1 three_frames None 0"
  have len: "nat (max_frames fake_args) * frame_bytes fake_image
          \<le> length (infile (fake_start three_frames))"
    by (simp add: a frame_bytes_fake_image fake_start_def three_frames_def)
  have lim: "outlimit (fake_start three_frames) = None"
    by (simp add: fake_start_def)
  have mf: "0 < max_frames fake_args" "max_frames fake_args \<le> INT_MAX"
    by (simp_all add: a INT_MAX_def)
  note run = main_body_completes [where L = ?L and held = fake_held,
      OF fake_drains_down fake_null_submit fake_encode_succeeds fake_destroy_succeeds
         fake_main_setup lim mf len]
  have inp: "drop 12 (infile (fake_start three_frames)) = [13, 14, 15, 16, 17, 18]"
    by (simp add: fake_start_def three_frames_def)
  from run show ?thesis
    unfolding a frame_bytes_fake_image by (simp add: inp) blast
qed

lemma real_submits_snoc:
  "real_submits ki fc (Suc n) =
     real_submits ki fc n @ [(True, fc + int n, force_kf_flags (fc + int n) ki)]"
  by (simp add: real_submits_def)

lemma loop_head_invariant:
  "loop_head L raw ki mf w0 fc fe w \<Longrightarrow>
   fc = fe \<and> 0 \<le> fc \<and> submits (calls w) = submits (calls w0) @ real_submits ki 0 (nat fc)"
proof (induction rule: loop_head.induct)
  case loop_start
  show ?case by simp
next
  case (loop_again fc fe w fc' fe' w')
  from main_iter_effect [OF loop_again.hyps(2)]
  have st: "fc' = fc + 1" "fe' = fe + 1"
    "submits (calls w') = submits (calls w) @ [(True, fc, force_kf_flags fc ki)]"
    by (auto split: if_splits)
  from loop_again.IH have ih: "fc = fe" "0 \<le> fc"
    "submits (calls w) = submits (calls w0) @ real_submits ki 0 (nat fc)"
    by simp_all
  have "nat fc' = Suc (nat fc)" using st(1) ih(2) by simp
  with st ih show ?case by (simp add: real_submits_snoc)
qed

lemma fake_image_laid_out: "planes_laid_out fake_image"
  by (auto simp: planes_laid_out_def fake_image_def row_bytes_def)

lemma main_iter_good:
  assumes dd: "drains_down L held" and es: "encode_succeeds L"
    and nomax: "fe \<noteq> INT_MAX" and lim: "outlimit w = None"
    and enough: "frame_bytes raw \<le> length (infile w)"
  shows "\<exists>w'. main_iter L raw ki mf fe fe w =
           Some (if mf > 0 \<and> fe + 1 \<ge> mf then Leave (Return (fe + 1, fe + 1))
                 else Continue (fe + 1) (fe + 1), w') \<and>
         infile w' = drop (frame_bytes raw) (infile w) \<and> outlimit w' = None \<and>
         submits (calls w') = submits (calls w) @ [(True, fe, force_kf_flags fe ki)]"
proof -
  let ?fb = "frame_bytes raw"
  have "\<exists>m'. aom_img_read raw (infile w) (mem w) = (1, drop ?fb (infile w), m')"
    by (rule aom_img_read_cases [of raw "infile w" "mem w"]) (use enough in auto)
  then obtain m' where rd: "aom_img_read raw (infile w) (mem w) = (1, drop ?fb (infile w), m')"
    by blast
  let ?w1 = "w\<lparr>infile := drop ?fb (infile w), mem := m'\<rparr>"
  let ?fl = "force_kf_flags fe ki"
  obtain res s1 where
    enc: "aom_codec_encode L (codec ?w1) (map_option (\<lambda>i. (i, mem ?w1)) (Some raw)) fe 1 ?fl
            = (res, s1)"
    by (metis surj_pair)
  from es [unfolded encode_succeeds_def, rule_format,
      of "codec ?w1" "map_option (\<lambda>i. (i, mem ?w1)) (Some raw)" fe 1 ?fl] enc
  have res: "res = AOM_CODEC_OK" by simp
  from encode_frame_terminates [OF dd enc] res lim obtain got w2 where
    ef: "encode_frame L (Some raw) fe ?fl ?w1 = Some (Return got, w2)"
    and lim2: "outlimit w2 = None"
    by auto
  from encode_frame_effect [OF ef] encode_frame_submits [OF ef]
  have w2: "infile w2 = drop ?fb (infile w)"
    "submits (calls w2) = submits (calls w) @ [(True, fe, ?fl)]"
    by simp_all
  let ?w3 = "printf ''encoded_frame: %d\<newline>'' [D fe] w2"
  have w3: "infile ?w3 = drop ?fb (infile w)" "outlimit ?w3 = None"
    "submits (calls ?w3) = submits (calls w) @ [(True, fe, ?fl)]"
    using w2 lim2 by (simp_all add: printf_def)
  from main_iter_encoded [OF rd nomax, of L ki mf fe, unfolded ef, simplified] nomax
  have "main_iter L raw ki mf fe fe w =
           Some (if mf > 0 \<and> fe + 1 \<ge> mf then Leave (Return (fe + 1, fe + 1))
                 else Continue (fe + 1) (fe + 1), ?w3)"
    by simp
  with w3 show ?thesis by blast
qed

lemma fake_loop_head:
  "\<exists>w. loop_head (fake_env 1 three_frames None 0) fake_image 2 2 (fake_start three_frames)
         1 1 w"
proof -
  let ?L = "fake_env 1 three_frames None 0" and ?w0 = "fake_start three_frames"
  have "\<exists>w'. main_iter ?L fake_image 2 2 0 0 ?w0 =
           Some (if (2::int) > 0 \<and> (0::int) + 1 \<ge> 2 then Leave (Return (0 + 1, 0 + 1))
                 else Continue (0 + 1) (0 + 1), w') \<and>
         infile w' = drop (frame_bytes fake_image) (infile ?w0) \<and> outlimit w' = None \<and>
         submits (calls w') = submits (calls ?w0) @ [(True, 0, force_kf_flags 0 2)]"
    by (rule main_iter_good [OF fake_drains_down fake_encode_succeeds])
       (simp_all add: INT_MAX_def fake_start_def frame_bytes_fake_image three_frames_def)
  then obtain w' where "main_iter ?L fake_image 2 2 0 0 ?w0 = Some (Continue 1 1, w')"
    by auto
  from loop_again [OF loop_start this] show ?thesis by blast
qed

lemma fake_flush_empty:
  "encode_frame (fake_env n inp lim r) None (- 1) 0 (fake_world \<lparr>waiting = [], ready = []\<rparr> [] None)
   = Some (Return 0,
       \<lparr>codec = \<lparr>waiting = [], ready = []\<rparr>, mem = (\<lambda>a. 0), infile = [], outfile = [],
        outlimit = None, stdout = [], stderr = [],
        calls = [Encode False (- 1) 1 0, Get_cx_data False]\<rparr>)"
proof -
  let ?L = "fake_env n inp lim r"
  let ?w = "fake_world \<lparr>waiting = [], ready = []\<rparr> [] None"
  have enc: "aom_codec_encode ?L (codec ?w) (map_option (\<lambda>i. (i, mem ?w)) None) (- 1) 1 0
               = (AOM_CODEC_OK, \<lparr>waiting = [], ready = []\<rparr>)"
    by (simp add: fake_env_def fake_encode_def fake_world_def AOM_CODEC_OK_def)
  show ?thesis
    apply (simp add: encode_frame_unfold [OF enc])
    apply (subst get_pkts.simps)
    apply (simp add: fake_env_def fake_get_cx_data_def fake_world_def called_def)
    done
qed

lemma force_kf_flags_forces:
  "forces_keyframe (force_kf_flags n k) = (0 < k \<and> n mod k = 0)"
  by (simp add: forces_keyframe_def force_kf_flags_def AOM_EFLAG_FORCE_KF_def
      smod_zero_iff_mod_zero)

lemma real_submits_nth:
  "i < n \<Longrightarrow> real_submits ki 0 n ! i = (True, int i, force_kf_flags (int i) ki)"
  by (simp add: real_submits_def)

lemma length_real_submits [simp]: "length (real_submits ki fc n) = n"
  by (simp add: real_submits_def)

subsection \<open>Exact effects, and a whole run of the test double\<close>

lemma submits_cycle_calls [simp]: "submits (cycle_calls real pts fl ps) = [(real, pts, fl)]"
  by (simp add: cycle_calls_def submits_gets is_get_def)

lemma submits_flush_calls: "submits (flush_calls pss) = replicate (length pss) (False, - 1, 0)"
  by (induction pss) simp_all

lemma after_drains_fields [simp]:
  "codec (after_drains cs ps s' w) = s'"
  "mem (after_drains cs ps s' w) = mem w"
  "infile (after_drains cs ps s' w) = infile w"
  "outfile (after_drains cs ps s' w) = outfile w @ output_of ps"
  "outlimit (after_drains cs ps s' w) = map_option (\<lambda>room. room - length (output_of ps)) (outlimit w)"
  "stdout (after_drains cs ps s' w) = stdout w @ marks ps"
  "stderr (after_drains cs ps s' w) = stderr w"
  "calls (after_drains cs ps s' w) = calls w @ cs"
  by (simp_all add: after_drains_def)

lemma main_iter_exact:
  assumes rd: "aom_img_read raw (infile w) (mem w) = (1, inp', m')"
    and nomax: "fc \<noteq> INT_MAX" "fe \<noteq> INT_MAX"
    and enc: "aom_codec_encode L (codec w) (Some (raw, m')) fc 1 (force_kf_flags fc ki)
                = (AOM_CODEC_OK, s1)"
    and y: "yields L s1 0 ps s2" and room: "room_for (length (output_of ps)) w"
  shows "main_iter L raw ki mf fc fe w =
           Some (if mf > 0 \<and> fe + 1 \<ge> mf then Leave (Return (fc + 1, fe + 1))
                 else Continue (fc + 1) (fe + 1),
                 printf ''encoded_frame: %d\<newline>'' [D fe]
                   (after_drains (cycle_calls True fc (force_kf_flags fc ki) ps) ps s2
                      (w\<lparr>infile := inp', mem := m'\<rparr>)))"
proof -
  let ?w1 = "w\<lparr>infile := inp', mem := m'\<rparr>"
  let ?fl = "force_kf_flags fc ki"
  have enc1: "aom_codec_encode L (codec ?w1) (map_option (\<lambda>i. (i, mem ?w1)) (Some raw)) fc 1 ?fl
                = (AOM_CODEC_OK, s1)"
    using enc by simp
  have room1: "room_for (length (output_of ps)) ?w1"
    using room by (simp add: room_for_def)
  from encode_frame_exact [OF enc1 y room1]
  have ef: "encode_frame L (Some raw) fc ?fl ?w1 =
          Some (Return (if ps = [] then 0 else 1), after_drains (cycle_calls True fc ?fl ps) ps s2 ?w1)"
    by simp
  show ?thesis
    using main_iter_encoded [OF rd nomax(1), of L ki mf fe] nomax(2) unfolding ef by simp
qed

lemma finish_ok:
  "aom_codec_destroy L (codec w) = (0, s') \<Longrightarrow>
   finish L a fc w =
     (Return EXIT_SUCCESS,
      w\<lparr>codec := s',
        stdout := stdout w @ [(''\<newline>'', []), processed_msg fc, (''Process completed'', [])],
        calls := calls w @ [Fclose (infile_arg a), Img_free, Destroy, Fclose (outfile_arg a)]\<rparr>)"
  by (simp add: finish_def Let_def called_def printf_def processed_msg_def)

lemma fake_read:
  assumes "6 \<le> length inp"
  shows "\<exists>m'. aom_img_read fake_image inp m = (1, drop 6 inp, m') \<and> m' 0 = inp ! 0"
proof -
  have "\<exists>m'. aom_img_read fake_image inp m = (1, drop (frame_bytes fake_image) inp, m')"
    by (rule aom_img_read_cases [of fake_image inp m])
       (use assms in \<open>auto simp: frame_bytes_fake_image\<close>)
  then obtain m' where rd: "aom_img_read fake_image inp m = (1, drop 6 inp, m')"
    by (auto simp: frame_bytes_fake_image)
  have "m' (row_addr fake_image 0 0 + int 0) = inp ! (row_offset fake_image 0 0 + 0)"
    by (rule aom_img_read_mem [OF rd fake_image_laid_out])
       (simp_all add: fake_image_def row_bytes_def)
  then have "m' 0 = inp ! 0"
    by (simp add: fake_image_def row_addr_def row_offset_def)
  with rd show ?thesis by blast
qed

lemma fake_null_submit_succeeds: "null_submit_succeeds (fake_env n inp lim r)"
  by (auto simp: null_submit_succeeds_def fake_env_def fake_encode_def AOM_CODEC_OK_def
      split: list.splits)

lemma fake_flush_cycle:
  "flush_cycles (fake_env n inp lim r) \<lparr>waiting = q, ready = []\<rparr> pss s' \<Longrightarrow>
   flush_cycles (fake_env n inp lim r) \<lparr>waiting = p # q, ready = []\<rparr> ([p] # pss) s'"
  by (rule next_cycle [where ?s1.0 = "\<lparr>waiting = q, ready = [p]\<rparr>", OF _ fake_yields_ready])
     (simp_all add: fake_env_def fake_encode_def AOM_CODEC_OK_def)

lemma fake_flush_last:
  "flush_cycles (fake_env n inp lim r) \<lparr>waiting = [], ready = []\<rparr> [[]] \<lparr>waiting = [], ready = []\<rparr>"
  by (rule last_cycle [where ?s1.0 = "\<lparr>waiting = [], ready = []\<rparr>", OF _ fake_yields_ready])
     (simp_all add: fake_env_def fake_encode_def AOM_CODEC_OK_def)

lemma fake_run_exact:
  "\<exists>w1 w2 w'.
     main_loop (fake_env 1 three_frames None 0) fake_image 2 2 0 0 (fake_start three_frames)
       = Some (Return (2, 2), w1) \<and>
     codec w1 = \<lparr>waiting = [AOM_CODEC_CX_FRAME_PKT [7, 1] 0], ready = []\<rparr> \<and>
     outfile w1 = [1, 0] \<and>
     flush_loop (fake_env 1 three_frames None 0) w1 = Some (Return (), w2) \<and>
     w2 = after_drains (flush_calls [[AOM_CODEC_CX_FRAME_PKT [7, 1] 0], []])
            [AOM_CODEC_CX_FRAME_PKT [7, 1] 0] \<lparr>waiting = [], ready = []\<rparr> w1 \<and>
     main_body (fake_env 1 three_frames None 0) fake_args \<lparr>waiting = [], ready = []\<rparr>
       blank_memory = Some (Return EXIT_SUCCESS, w') \<and>
     codec w' = \<lparr>waiting = [], ready = []\<rparr> \<and>
     infile w' = [13, 14, 15, 16, 17, 18] \<and>
     outfile w' = [1, 0, 7, 1] \<and>
     stdout w' = [(''Using %s\<newline>'', [S ''fake'']), (''encoded_frame: %d\<newline>'', [D 0]),
                  (''K'', []), (''encoded_frame: %d\<newline>'', [D 1]), (''.'', []),
                  (''\<newline>'', []), (''Processed %d frames.\<newline>'', [D 2]),
                  (''Process completed'', [])] \<and>
     stderr w' = [] \<and>
     calls w' = [Img_alloc 2 2, Enc_config_default, Fopen ''in.yuv'' ''rb'',
                 Fopen ''out.obu'' ''wb'', Enc_init, Control AOME_SET_CPUUSED 8,
                 Control AOME_SET_CQ_LEVEL 45,
                 Encode True 0 1 1, Get_cx_data False,
                 Encode True 1 1 0, Get_cx_data True, Get_cx_data False,
                 Encode False (- 1) 1 0, Get_cx_data True, Get_cx_data False,
                 Encode False (- 1) 1 0, Get_cx_data False,
                 Fclose ''in.yuv'', Img_free, Destroy, Fclose ''out.obu'']"
proof -
  let ?L = "fake_env 1 three_frames None 0"
  let ?w0 = "fake_start three_frames"
  let ?p0 = "AOM_CODEC_CX_FRAME_PKT [1, 0] 1" and ?p1 = "AOM_CODEC_CX_FRAME_PKT [7, 1] 0"
  let ?s1 = "\<lparr>waiting = [?p0], ready = []\<rparr>"
  let ?s2 = "\<lparr>waiting = [?p1], ready = [?p0]\<rparr>"
  let ?s3 = "\<lparr>waiting = [?p1], ready = []\<rparr>"
  let ?s4 = "\<lparr>waiting = [], ready = []\<rparr>"
  have kf: "force_kf_flags 0 2 = 1" "force_kf_flags 1 2 = 0"
    by (simp_all add: force_kf_flags_def AOM_EFLAG_FORCE_KF_def smod_int_alt_def)
  have nomax: "(0::int) \<noteq> INT_MAX" "(1::int) \<noteq> INT_MAX"
    by (simp_all add: INT_MAX_def)
  have "\<exists>m'. aom_img_read fake_image (infile ?w0) (mem ?w0) = (1, drop 6 (infile ?w0), m') \<and>
          m' 0 = infile ?w0 ! 0"
    by (rule fake_read) (simp add: fake_start_def three_frames_def)
  then obtain m1 where
    rd1: "aom_img_read fake_image (infile ?w0) (mem ?w0) = (1, drop 6 (infile ?w0), m1)"
    and m1: "m1 0 = 1"
    by (auto simp: fake_start_def three_frames_def)
  have enc1: "aom_codec_encode ?L (codec ?w0) (Some (fake_image, m1)) 0 1 (force_kf_flags 0 2)
                = (AOM_CODEC_OK, ?s1)"
    by (simp add: kf fake_env_def fake_encode_def fake_start_def fake_image_def m1
        AOM_CODEC_OK_def)
  have y1: "yields ?L ?s1 0 [] ?s1" by (rule fake_yields_ready)
  define w1 where "w1 = printf ''encoded_frame: %d\<newline>'' [D 0]
     (after_drains (cycle_calls True 0 (force_kf_flags 0 2) []) [] ?s1
        (?w0\<lparr>infile := drop 6 (infile ?w0), mem := m1\<rparr>))"
  have it1: "main_iter ?L fake_image 2 2 0 0 ?w0 = Some (Continue 1 1, w1)"
    using main_iter_exact [OF rd1 nomax(1) nomax(1) enc1 y1, of 2]
    by (simp add: w1_def room_for_def fake_start_def)
  have w1: "codec w1 = ?s1" "mem w1 = m1" "infile w1 = [7, 8, 9, 10, 11, 12, 13, 14, 15, 16, 17, 18]"
    "outfile w1 = []" "outlimit w1 = None" "stderr w1 = []"
    "stdout w1 = [(''Using %s\<newline>'', [S ''fake'']), (''encoded_frame: %d\<newline>'', [D 0])]"
    "calls w1 = calls ?w0 @ [Encode True 0 1 1, Get_cx_data False]"
    by (simp_all add: w1_def printf_def kf cycle_calls_def fake_start_def three_frames_def)
  have "\<exists>m'. aom_img_read fake_image (infile w1) (mem w1) = (1, drop 6 (infile w1), m') \<and>
          m' 0 = infile w1 ! 0"
    by (rule fake_read) (simp add: w1)
  then obtain m2 where
    rd2: "aom_img_read fake_image (infile w1) (mem w1) = (1, drop 6 (infile w1), m2)"
    and m2: "m2 0 = 7"
    by (auto simp: w1)
  have enc2: "aom_codec_encode ?L (codec w1) (Some (fake_image, m2)) 1 1 (force_kf_flags 1 2)
                = (AOM_CODEC_OK, ?s2)"
    by (simp add: kf fake_env_def fake_encode_def w1 fake_image_def m2 AOM_CODEC_OK_def)
  have y2: "yields ?L ?s2 0 [?p0] ?s3" by (rule fake_yields_ready)
  define w2 where "w2 = printf ''encoded_frame: %d\<newline>'' [D 1]
     (after_drains (cycle_calls True 1 (force_kf_flags 1 2) [?p0]) [?p0] ?s3
        (w1\<lparr>infile := drop 6 (infile w1), mem := m2\<rparr>))"
  have it2: "main_iter ?L fake_image 2 2 1 1 w1 = Some (Leave (Return (2, 2)), w2)"
    using main_iter_exact [OF rd2 nomax(2) nomax(2) enc2 y2, of 2]
    by (simp add: w2_def room_for_def w1)
  have w2: "codec w2 = ?s3" "mem w2 = m2" "infile w2 = [13, 14, 15, 16, 17, 18]"
    "outfile w2 = [1, 0]" "outlimit w2 = None" "stderr w2 = []"
    "stdout w2 = [(''Using %s\<newline>'', [S ''fake'']), (''encoded_frame: %d\<newline>'', [D 0]),
                  (''K'', []), (''encoded_frame: %d\<newline>'', [D 1])]"
    "calls w2 = calls ?w0 @ [Encode True 0 1 1, Get_cx_data False,
                             Encode True 1 1 0, Get_cx_data True, Get_cx_data False]"
    by (simp_all add: w2_def printf_def kf cycle_calls_def w1 AOM_FRAME_IS_KEY_def)
  have ml: "main_loop ?L fake_image 2 2 0 0 ?w0 = Some (Return (2, 2), w2)"
    using main_loop_continue [OF it1] main_loop_leave [OF it2] by simp
  have fc: "flush_cycles ?L (codec w2) [[?p1], []] ?s4"
    unfolding w2 by (rule fake_flush_cycle [OF fake_flush_last])
  define w3 where "w3 = after_drains (flush_calls [[?p1], []]) [?p1] ?s4 w2"
  have fl: "flush_loop ?L w2 = Some (Return (), w3)"
    using flush_loop_exact [OF fc refl] by (simp add: w3_def room_for_def w2)
  have w3: "codec w3 = ?s4" "infile w3 = [13, 14, 15, 16, 17, 18]"
    "outfile w3 = [1, 0, 7, 1]" "stderr w3 = []"
    "stdout w3 = [(''Using %s\<newline>'', [S ''fake'']), (''encoded_frame: %d\<newline>'', [D 0]),
                  (''K'', []), (''encoded_frame: %d\<newline>'', [D 1]), (''.'', [])]"
    "calls w3 = calls ?w0 @ [Encode True 0 1 1, Get_cx_data False,
                             Encode True 1 1 0, Get_cx_data True, Get_cx_data False,
                             Encode False (- 1) 1 0, Get_cx_data True, Get_cx_data False,
                             Encode False (- 1) 1 0, Get_cx_data False]"
    by (simp_all add: w3_def w2 cycle_calls_def AOM_FRAME_IS_KEY_def)
  define w4 where "w4 = w3\<lparr>codec := ?s4,
        stdout := stdout w3 @ [(''\<newline>'', []), processed_msg 2, (''Process completed'', [])],
        calls := calls w3 @ [Fclose (infile_arg fake_args), Img_free, Destroy,
                             Fclose (outfile_arg fake_args)]\<rparr>"
  have fin: "finish ?L fake_args 2 w3 = (Return EXIT_SUCCESS, w4)"
    unfolding w4_def by (rule finish_ok) (simp add: fake_env_def w3)
  have "encode_frames ?L fake_args fake_image ?w0 = Some (Return EXIT_SUCCESS, w4)"
    using ml fl fin by (simp add: encode_frames_def fake_args_def)
  then have run: "main_body ?L fake_args ?s4 blank_memory = Some (Return EXIT_SUCCESS, w4)"
    using main_body_run [OF fake_main_setup, of 1 three_frames] by simp
  have w4: "codec w4 = ?s4" "infile w4 = [13, 14, 15, 16, 17, 18]" "outfile w4 = [1, 0, 7, 1]"
    "stderr w4 = []"
    "stdout w4 = [(''Using %s\<newline>'', [S ''fake'']), (''encoded_frame: %d\<newline>'', [D 0]),
                  (''K'', []), (''encoded_frame: %d\<newline>'', [D 1]), (''.'', []),
                  (''\<newline>'', []), (''Processed %d frames.\<newline>'', [D 2]),
                  (''Process completed'', [])]"
    "calls w4 = [Img_alloc 2 2, Enc_config_default, Fopen ''in.yuv'' ''rb'',
                 Fopen ''out.obu'' ''wb'', Enc_init, Control AOME_SET_CPUUSED 8,
                 Control AOME_SET_CQ_LEVEL 45,
                 Encode True 0 1 1, Get_cx_data False,
                 Encode True 1 1 0, Get_cx_data True, Get_cx_data False,
                 Encode False (- 1) 1 0, Get_cx_data True, Get_cx_data False,
                 Encode False (- 1) 1 0, Get_cx_data False,
                 Fclose ''in.yuv'', Img_free, Destroy, Fclose ''out.obu'']"
    by (simp_all add: w4_def w3 processed_msg_def fake_args_def fake_start_def)
  show ?thesis
    by (intro exI [of _ w2] exI [of _ w3] exI [of _ w4] conjI ml w2(1) w2(4) fl w3_def run w4)
qed

lemma encode_null_succeeds: "encode_succeeds L \<Longrightarrow> null_submit_succeeds L"
  by (simp add: encode_succeeds_def null_submit_succeeds_def)

lemma finish_fields:
  assumes "finish L a fc w = (Return EXIT_SUCCESS, w')"
  shows "calls w' = calls w @ [Fclose (infile_arg a), Img_free, Destroy, Fclose (outfile_arg a)]"
    and "outfile w' = outfile w" and "infile w' = infile w"
    and "processed_msg fc \<in> set (stdout w')"
proof -
  obtain res s' where d: "aom_codec_destroy L (codec w) = (res, s')" by (metis surj_pair)
  have c: "codec (called Img_free (printf ''Processed %d frames.\<newline>'' [D fc]
             (called (Fclose (infile_arg a)) (printf ''\<newline>'' [] w)))) = codec w"
    by (simp add: called_def printf_def)
  have "res = 0"
    using assms d c by (auto simp: finish_def Let_def die_codec_def split: if_splits)
  with d have "aom_codec_destroy L (codec w) = (0, s')" by simp
  from finish_ok [OF this, of a fc] assms
  have w': "w' = w\<lparr>codec := s',
        stdout := stdout w @ [(''\<newline>'', []), processed_msg fc, (''Process completed'', [])],
        calls := calls w @ [Fclose (infile_arg a), Img_free, Destroy, Fclose (outfile_arg a)]\<rparr>"
    by simp
  show "calls w' = calls w @ [Fclose (infile_arg a), Img_free, Destroy, Fclose (outfile_arg a)]"
    and "outfile w' = outfile w" and "infile w' = infile w"
    and "processed_msg fc \<in> set (stdout w')"
    unfolding w' by simp_all
qed

lemma main_body_completes_exact:
  assumes dd: "drains_down L held" and ns: "null_submit_adds_none L held"
    and es: "encode_succeeds L" and ds: "destroy_succeeds L"
    and st: "main_setup L a s0 m0 = (Return raw, w)" and lim: "outlimit w = None"
    and mf: "0 < max_frames a" "max_frames a \<le> INT_MAX"
    and len: "nat (max_frames a) * frame_bytes raw \<le> length (infile w)"
  shows "\<exists>w1 w2 w' k pss.
           main_loop L raw (keyframe_interval a) (max_frames a) 0 0 w
             = Some (Return (max_frames a, max_frames a), w1) \<and>
           infile w1 = drop (nat (max_frames a) * frame_bytes raw) (infile w) \<and>
           flush_loop L w1 = Some (Return (), w2) \<and>
           main_body L a s0 m0 = Some (Return EXIT_SUCCESS, w') \<and>
           infile w' = infile w1 \<and> processed_msg (max_frames a) \<in> set (stdout w') \<and>
           submits (calls w') =
             real_submits (keyframe_interval a) 0 (nat (max_frames a))
               @ replicate k (False, - 1, 0) \<and>
           1 \<le> k \<and>
           flush_cycles L (codec w1) pss (codec w2) \<and>
           last pss = [] \<and> (\<forall>ps \<in> set (butlast pss). ps \<noteq> []) \<and>
           k = length pss \<and> k \<le> held (codec w1) + 1 \<and>
           w2 = after_drains (flush_calls pss) (concat pss) (codec w2) w1 \<and>
           finish L a (max_frames a) w2 = (Return EXIT_SUCCESS, w') \<and>
           calls w' = calls w1 @ flush_calls pss
                        @ [Fclose (infile_arg a), Img_free, Destroy, Fclose (outfile_arg a)] \<and>
           outfile w' = outfile w1 @ output_of (concat pss)"
proof -
  let ?ki = "keyframe_interval a" and ?mf = "max_frames a"
  from main_loop_reaches_max [OF dd es mf(1,2), of 0 w raw ?ki] mf(1) lim len
  obtain w1 where
    w1: "main_loop L raw ?ki ?mf 0 0 w = Some (Return (?mf, ?mf), w1)"
      "infile w1 = drop (nat ?mf * frame_bytes raw) (infile w)" "outlimit w1 = None"
      "submits (calls w1) = submits (calls w) @ real_submits ?ki 0 (nat ?mf)"
    by auto
  from flush_cycles_exists [OF dd ns encode_null_succeeds [OF es], of "codec w1"]
  obtain pss s' where fc: "flush_cycles L (codec w1) pss s'" by blast
  define w2 where "w2 = after_drains (flush_calls pss) (concat pss) s' w1"
  have room: "room_for (length (output_of (concat pss))) w1"
    using w1(3) by (simp add: room_for_def)
  have fl: "flush_loop L w1 = Some (Return (), w2)"
    unfolding w2_def by (rule flush_loop_exact [OF fc refl room])
  have c2: "codec w2 = s'" by (simp add: w2_def)
  have shape: "last pss = []" "\<forall>ps \<in> set (butlast pss). ps \<noteq> []" "1 \<le> length pss"
    using flush_cycles_shape [OF fc] by (simp_all, cases pss, simp_all)
  have bound: "length pss \<le> held (codec w1) + 1"
    using flush_cycles_bound [OF dd ns fc] by simp
  obtain out w' where fin0: "finish L a ?mf w2 = (out, w')" by (metis surj_pair)
  from finish_effect [OF fin0] ds have "out = Return EXIT_SUCCESS"
    by (simp add: destroy_succeeds_def)
  with fin0 have fin: "finish L a ?mf w2 = (Return EXIT_SUCCESS, w')" by simp
  note f = finish_fields [OF fin]
  have "encode_frames L a raw w = Some (Return EXIT_SUCCESS, w')"
    using w1(1) fl fin by (simp add: encode_frames_def)
  then have run: "main_body L a s0 m0 = Some (Return EXIT_SUCCESS, w')"
    using main_body_run [OF st] by simp
  have s0: "submits (calls w) = []" using main_setup_submits [OF st] by simp
  have calls: "calls w' = calls w1 @ flush_calls pss
                 @ [Fclose (infile_arg a), Img_free, Destroy, Fclose (outfile_arg a)]"
    using f(1) by (simp add: w2_def)
  have sub: "submits (calls w') = real_submits ?ki 0 (nat ?mf)
               @ replicate (length pss) (False, - 1, 0)"
    unfolding calls by (simp add: w1(4) s0 submits_flush_calls submits_Cons)
  have inf: "infile w' = infile w1" using f(3) by (simp add: w2_def)
  have out: "outfile w' = outfile w1 @ output_of (concat pss)" using f(2) by (simp add: w2_def)
  have fc2: "flush_cycles L (codec w1) pss (codec w2)" using fc c2 by simp
  have w2eq: "w2 = after_drains (flush_calls pss) (concat pss) (codec w2) w1"
    unfolding c2 by (rule w2_def)
  show ?thesis
    by (intro exI [of _ w1] exI [of _ w2] exI [of _ w'] exI [of _ "length pss"] exI [of _ pss]
        conjI w1(1) w1(2) fl run inf f(4) sub shape fc2 refl bound w2eq fin calls out)
qed

section \<open>The claims\<close>

text \<open>
  C1. The flags computed for frame index \<open>n\<close> and interval \<open>k\<close> force a keyframe exactly
  when \<open>k > 0\<close> and \<open>n mod k = 0\<close>, for every \<open>n\<close> and \<open>k\<close> (the C remainder and the
  mathematical one agree on being zero): they depend on nothing else. So index 0 is
  forced exactly when the interval is positive, and interval 0 forces nothing. And in
  every run of \<open>main_body\<close> that ends, the i-th real frame submitted carries these flags
  for index \<open>i\<close> and the configured interval: its keyframe is forced exactly when the
  interval is positive and divides \<open>i\<close>.
\<close>

theorem keyframe_forced_iff:
  "forces_keyframe (force_kf_flags n k) = (0 < k \<and> n mod k = 0) \<and>
   forces_keyframe (force_kf_flags 0 k) = (0 < k) \<and>
   forces_keyframe (force_kf_flags n 0) = False \<and>
   (main_body L a s0 m0 = Some (out, w') \<longrightarrow>
      (\<forall>i < length (filter fst (submits (calls w'))).
         filter fst (submits (calls w')) ! i
           = (True, int i, force_kf_flags (int i) (keyframe_interval a)) \<and>
         forces_keyframe (snd (snd (filter fst (submits (calls w')) ! i)))
           = (0 < keyframe_interval a \<and> int i mod keyframe_interval a = 0)))"
proof (intro conjI impI allI)
  show "forces_keyframe (force_kf_flags n k) = (0 < k \<and> n mod k = 0)"
    by (rule force_kf_flags_forces)
  show "forces_keyframe (force_kf_flags 0 k) = (0 < k)"
    by (simp add: force_kf_flags_forces)
  show "forces_keyframe (force_kf_flags n 0) = False"
    by (simp add: force_kf_flags_forces)
next
  fix i
  assume run: "main_body L a s0 m0 = Some (out, w')"
    and i: "i < length (filter fst (submits (calls w')))"
  from main_body_effect [OF run] obtain n' k' where
    "submits (calls w') = real_submits (keyframe_interval a) 0 n' @ replicate k' (False, - 1, 0)"
    by blast
  then have f: "filter fst (submits (calls w')) = real_submits (keyframe_interval a) 0 n'"
    by (simp only: filter_real_submits)
  with i have "i < n'" by simp
  then show nth: "filter fst (submits (calls w')) ! i
           = (True, int i, force_kf_flags (int i) (keyframe_interval a))"
    unfolding f by (rule real_submits_nth)
  show "forces_keyframe (snd (snd (filter fst (submits (calls w')) ! i)))
           = (0 < keyframe_interval a \<and> int i mod keyframe_interval a = 0)"
    unfolding nth by (simp add: force_kf_flags_forces)
qed

theorem keyframe_forced_iff_witness:
  "\<exists>w'. main_body (fake_env 1 three_frames None 0) fake_args \<lparr>waiting = [], ready = []\<rparr>
          blank_memory = Some (Return EXIT_SUCCESS, w') \<and>
        forces_keyframe (snd (snd (filter fst (submits (calls w')) ! 0))) \<and>
        \<not> forces_keyframe (snd (snd (filter fst (submits (calls w')) ! 1)))"
proof -
  from fake_run obtain w' k where
    run: "main_body (fake_env 1 three_frames None 0) fake_args \<lparr>waiting = [], ready = []\<rparr>
            blank_memory = Some (Return EXIT_SUCCESS, w')"
    and s: "submits (calls w') = real_submits 2 0 2 @ replicate k (False, - 1, 0)"
    by blast
  have len: "length (filter fst (submits (calls w'))) = 2"
    unfolding s filter_real_submits by simp
  note t = keyframe_forced_iff [of 0 2 "fake_env 1 three_frames None 0" fake_args
      "\<lparr>waiting = [], ready = []\<rparr>" blank_memory "Return EXIT_SUCCESS" w',
      THEN conjunct2, THEN conjunct2, THEN conjunct2, rule_format, OF run, unfolded len]
  have i: "(0::nat) < 2" "(1::nat) < 2" by simp_all
  from t [OF i(1), THEN conjunct2] t [OF i(2), THEN conjunct2]
  have "forces_keyframe (snd (snd (filter fst (submits (calls w')) ! 0)))"
    "\<not> forces_keyframe (snd (snd (filter fst (submits (calls w')) ! 1)))"
    by (simp_all add: fake_args_def)
  with run show ?thesis by (intro exI [of _ w'] conjI)
qed

text \<open>
  C2. \<open>aom_img_read\<close> returns 0 or 1, and it returns 1 exactly when the stream still
  holds a whole frame, so that every row of every plane is read in full. Then it has
  taken exactly the frame's bytes from the stream, and in a buffer whose rows do not
  overlap every byte of every row of every plane is the stream's byte for that place: the
  frame is complete. When it returns 0 the stream has been read to its end, and the
  input loop of \<open>main\<close> ends there without submitting anything: the buffer, which a
  failed read has overwritten as far as it got, is not handed to the encoder. A row that
  cannot be read in full ends \<open>read_rows\<close> at once, whatever rows are still to come,
  and then \<open>read_planes\<close> returns 0 without going on to the next plane.
\<close>

theorem aom_img_read_all_or_nothing:
  assumes "aom_img_read img inp m = (r, inp', m')"
  shows "(r = 0 \<or> r = 1) \<and> (r \<noteq> 0) = (frame_bytes img \<le> length inp) \<and>
     (r \<noteq> 0 \<longrightarrow> inp' = drop (frame_bytes img) inp \<and>
        (planes_laid_out img \<longrightarrow>
           (\<forall>q y x. q < 3 \<and> y < aom_img_plane_height img q \<and> x < row_bytes img q \<longrightarrow>
              m' (row_addr img q y + int x) = inp ! (row_offset img q y + x)))) \<and>
     (r = 0 \<longrightarrow> inp' = [] \<and>
        (\<forall>L ki mf fc fe w. infile w = inp \<and> mem w = m \<longrightarrow>
           main_iter L img ki mf fc fe w =
             Some (Leave (Return (fc, fe)), w\<lparr>infile := inp', mem := m'\<rparr>))) \<and>
     (\<forall>y h buf strd n f mm. y < h \<and> length f < n \<longrightarrow>
        read_rows y h buf strd n f mm = (False, [], store_bytes mm buf f)) \<and>
     (\<forall>p f mm f1 m1. p < 3 \<and>
        read_rows 0 (aom_img_plane_height img p) (planes img p) (stride img p)
          (row_bytes img p) f mm = (False, f1, m1) \<longrightarrow>
        read_planes p img f mm = (0, f1, m1))"
proof -
  note res = aom_img_read_result [OF assms]
  have r01: "r = 0 \<or> r = 1" and iff: "(r = 1) = (frame_bytes img \<le> length inp)"
    and one: "r = 1 \<Longrightarrow> inp' = drop (frame_bytes img) inp" and zero: "r = 0 \<Longrightarrow> inp' = []"
    using res by blast+
  have a: "(r \<noteq> 0) = (frame_bytes img \<le> length inp)" using r01 iff by auto
  have b: "r \<noteq> 0 \<longrightarrow> inp' = drop (frame_bytes img) inp \<and>
        (planes_laid_out img \<longrightarrow>
           (\<forall>q y x. q < 3 \<and> y < aom_img_plane_height img q \<and> x < row_bytes img q \<longrightarrow>
              m' (row_addr img q y + int x) = inp ! (row_offset img q y + x)))"
  proof (intro impI conjI allI)
    assume "r \<noteq> 0"
    with r01 have r1: "r = 1" by simp
    then show "inp' = drop (frame_bytes img) inp" by (rule one)
    fix q y x
    assume "planes_laid_out img"
      and "q < 3 \<and> y < aom_img_plane_height img q \<and> x < row_bytes img q"
    with aom_img_read_mem [of img inp m inp' m' q y x] assms r1
    show "m' (row_addr img q y + int x) = inp ! (row_offset img q y + x)" by simp
  qed
  have c: "r = 0 \<longrightarrow> inp' = [] \<and>
        (\<forall>L ki mf fc fe w. infile w = inp \<and> mem w = m \<longrightarrow>
           main_iter L img ki mf fc fe w =
             Some (Leave (Return (fc, fe)), w\<lparr>infile := inp', mem := m'\<rparr>))"
    using zero assms by (auto intro: main_iter_read_fail)
  have d: "\<forall>y h buf strd n f mm. y < h \<and> length f < n \<longrightarrow>
        read_rows y h buf strd n f mm = (False, [], store_bytes mm buf f)"
    by (simp add: read_rows_short)
  have e: "\<forall>p f mm f1 m1. p < 3 \<and>
        read_rows 0 (aom_img_plane_height img p) (planes img p) (stride img p)
          (row_bytes img p) f mm = (False, f1, m1) \<longrightarrow>
        read_planes p img f mm = (0, f1, m1)"
    by (simp add: read_planes_fail)
  from r01 a b c d e show ?thesis by blast
qed

theorem aom_img_read_all_or_nothing_witness:
  "(\<exists>m'. aom_img_read fake_image three_frames blank_memory
            = (1, [7, 8, 9, 10, 11, 12, 13, 14, 15, 16, 17, 18], m') \<and>
         m' 0 = 1 \<and> m' 3 = 4 \<and> m' 4 = 5 \<and> m' 5 = 6) \<and>
   (\<exists>m'. aom_img_read fake_image [1, 2, 3, 4, 5] blank_memory = (0, [], m') \<and>
         main_iter (fake_env 1 [] None 0) fake_image 2 2 0 0
           (fake_world \<lparr>waiting = [], ready = []\<rparr> [1, 2, 3, 4, 5] None)
         = Some (Leave (Return (0, 0)),
                 (fake_world \<lparr>waiting = [], ready = []\<rparr> [1, 2, 3, 4, 5] None)
                   \<lparr>infile := [], mem := m'\<rparr>))"
proof -
  obtain r inp' m' where
    rd: "aom_img_read fake_image three_frames blank_memory = (r, inp', m')"
    by (metis prod_cases3)
  note t = aom_img_read_all_or_nothing [OF rd]
  note t1 = t [THEN conjunct1]
    and t2 = t [THEN conjunct2, THEN conjunct1]
    and t3 = t [THEN conjunct2, THEN conjunct2, THEN conjunct1]
  have len: "frame_bytes fake_image \<le> length three_frames"
    by (simp add: frame_bytes_fake_image three_frames_def)
  with t1 t2 have r: "r = 1" by auto
  then have r0: "r \<noteq> 0" by simp
  note full = t3 [rule_format, OF r0]
  have inp': "inp' = drop (frame_bytes fake_image) three_frames"
    by (rule full [THEN conjunct1])
  note cells = full [THEN conjunct2, rule_format, OF fake_image_laid_out]
  have cell: "m' (row_addr fake_image q y + int x) = three_frames ! (row_offset fake_image q y + x)"
    if "q < 3" "y < aom_img_plane_height fake_image q" "x < row_bytes fake_image q" for q y x
    by (rule cells) (use that in simp)
  have m0: "m' 0 = 1"
    using cell [of 0 0 0]
    by (simp add: fake_image_def row_bytes_def row_addr_def row_offset_def three_frames_def)
  have m3: "m' 3 = 4"
    using cell [of 0 1 1]
    by (simp add: fake_image_def row_bytes_def row_addr_def row_offset_def three_frames_def)
  have m4: "m' 4 = 5"
    using cell [of 1 0 0]
    by (simp add: fake_image_def row_bytes_def row_addr_def row_offset_def three_frames_def
        plane_bytes_def)
  have m5: "m' 5 = 6"
    using cell [of 2 0 0]
    by (simp add: fake_image_def row_bytes_def row_addr_def row_offset_def three_frames_def
        plane_bytes_def lessThan_Suc numeral_2_eq_2)
  have first: "\<exists>m'. aom_img_read fake_image three_frames blank_memory
            = (1, [7, 8, 9, 10, 11, 12, 13, 14, 15, 16, 17, 18], m') \<and>
         m' 0 = 1 \<and> m' 3 = 4 \<and> m' 4 = 5 \<and> m' 5 = 6"
    using rd r inp' m0 m3 m4 m5
    by (intro exI [of _ m']) (simp add: frame_bytes_fake_image three_frames_def)
  let ?w = "fake_world \<lparr>waiting = [], ready = []\<rparr> [1, 2, 3, 4, 5] None"
  obtain r2 inp2 m2 where
    rd2: "aom_img_read fake_image [1, 2, 3, 4, 5] blank_memory = (r2, inp2, m2)"
    by (metis prod_cases3)
  note u = aom_img_read_all_or_nothing [OF rd2]
  note u2 = u [THEN conjunct2, THEN conjunct1]
    and u4 = u [THEN conjunct2, THEN conjunct2, THEN conjunct2, THEN conjunct1]
  from u2 have r2: "r2 = 0" by (simp add: frame_bytes_fake_image)
  note short = u4 [rule_format, OF r2]
  have inp2: "inp2 = []" by (rule short [THEN conjunct1])
  have w: "infile ?w = [1, 2, 3, 4, 5] \<and> mem ?w = blank_memory"
    by (simp add: fake_world_def blank_memory_def)
  have "main_iter (fake_env 1 [] None 0) fake_image 2 2 0 0 ?w =
             Some (Leave (Return (0, 0)), ?w\<lparr>infile := inp2, mem := m2\<rparr>)"
    by (rule short [THEN conjunct2, rule_format, OF w])
  with rd2 r2 inp2 have second: "\<exists>m'. aom_img_read fake_image [1, 2, 3, 4, 5] blank_memory = (0, [], m') \<and>
         main_iter (fake_env 1 [] None 0) fake_image 2 2 0 0 ?w
         = Some (Leave (Return (0, 0)), ?w\<lparr>infile := [], mem := m'\<rparr>)"
    by (intro exI [of _ m2]) simp
  from first second show ?thesis by (rule conjI)
qed

text \<open>
  C3. With a session that holds \<open>held s\<close> packets (handing one out takes it from those
  held, a null submission adds none), the flush loop started in world \<open>w\<close> returns. It
  makes \<open>k\<close> submissions of the null frame and nothing else is submitted, with
  \<open>1 \<le> k \<le> held (codec w) + 1\<close>. A cycle that yields no packet ends the loop at once.

  What the loop does is fixed by the session, cycle by cycle. Let the session, under
  null submissions from its state in \<open>w\<close>, hand out the packet lists \<open>pss\<close>, one list
  for each submission (\<open>flush_cycles\<close>), and let the output take their payloads. Then the
  loop returns in the world \<open>after_drains (flush_calls pss) (concat pss) s' w\<close>: for each
  list in turn it has submitted the null frame, polled every packet of the list and
  then the \<open>NULL\<close> that ends the drain, and written the payloads of the frame packets; it
  has gone round again after every list that had a packet, and stopped after the first
  list that had none, which is the last one. There are at most \<open>held (codec w) + 1\<close>
  lists: at most \<open>L + 1\<close> cycles for a session holding \<open>L\<close> packets. Such lists exist
  whenever every null submission is accepted.
\<close>

theorem flush_terminates:
  assumes "drains_down L held" and "null_submit_adds_none L held"
  shows "(\<exists>r w' k. flush_loop L w = Some (r, w') \<and>
            submits (calls w') = submits (calls w) @ replicate k (False, - 1, 0) \<and>
            1 \<le> k \<and> k \<le> held (codec w) + 1) \<and>
         (\<forall>w1. encode_frame L None (- 1) 0 w = Some (Return 0, w1) \<longrightarrow>
            flush_loop L w = Some (Return (), w1)) \<and>
         (\<forall>pss s'. flush_cycles L (codec w) pss s' \<and>
                    room_for (length (output_of (concat pss))) w \<longrightarrow>
            flush_loop L w = Some (Return (), after_drains (flush_calls pss) (concat pss) s' w) \<and>
            last pss = [] \<and> (\<forall>ps \<in> set (butlast pss). ps \<noteq> []) \<and>
            1 \<le> length pss \<and> length pss \<le> held (codec w) + 1) \<and>
         (null_submit_succeeds L \<longrightarrow> (\<exists>pss s'. flush_cycles L (codec w) pss s'))"
proof (intro conjI allI impI)
  show "\<exists>r w' k. flush_loop L w = Some (r, w') \<and>
            submits (calls w') = submits (calls w) @ replicate k (False, - 1, 0) \<and>
            1 \<le> k \<and> k \<le> held (codec w) + 1"
    using flush_loop_terminates [OF assms, of w] by blast
next
  fix w1 assume "encode_frame L None (- 1) 0 w = Some (Return 0, w1)"
  then show "flush_loop L w = Some (Return (), w1)" by (rule flush_loop_stop)
next
  fix pss s'
  assume a: "flush_cycles L (codec w) pss s' \<and> room_for (length (output_of (concat pss))) w"
  then have fc: "flush_cycles L (codec w) pss s'"
    and room: "room_for (length (output_of (concat pss))) w"
    by simp_all
  show "flush_loop L w = Some (Return (), after_drains (flush_calls pss) (concat pss) s' w)"
    by (rule flush_loop_exact [OF fc refl room])
  from flush_cycles_shape [OF fc]
  show "last pss = []" and "\<forall>ps \<in> set (butlast pss). ps \<noteq> []" by simp_all
  from flush_cycles_shape [OF fc] show "1 \<le> length pss" by (cases pss) simp_all
  from flush_cycles_bound [OF assms fc] show "length pss \<le> held (codec w) + 1" by simp
next
  assume "null_submit_succeeds L"
  from flush_cycles_exists [OF assms this] show "\<exists>pss s'. flush_cycles L (codec w) pss s'" .
qed

theorem flush_terminates_witness:
  "flush_loop (fake_env 2 [] None 0)
     (fake_world \<lparr>waiting = [Other_pkt 1, AOM_CODEC_CX_FRAME_PKT [5] 0], ready = []\<rparr> [] None)
     = Some (Return (),
         \<lparr>codec = \<lparr>waiting = [], ready = []\<rparr>, mem = (\<lambda>a. 0), infile = [], outfile = [5],
          outlimit = None, stdout = [(''.'', [])], stderr = [],
          calls = [Encode False (- 1) 1 0, Get_cx_data True, Get_cx_data False,
                   Encode False (- 1) 1 0, Get_cx_data True, Get_cx_data False,
                   Encode False (- 1) 1 0, Get_cx_data False]\<rparr>) \<and>
   length [[Other_pkt 1], [AOM_CODEC_CX_FRAME_PKT [5] 0], []]
     \<le> fake_held \<lparr>waiting = [Other_pkt 1, AOM_CODEC_CX_FRAME_PKT [5] 0], ready = []\<rparr> + 1 \<and>
   (\<exists>pss s'. flush_cycles (fake_env 2 [] None 0)
       \<lparr>waiting = [Other_pkt 1, AOM_CODEC_CX_FRAME_PKT [5] 0], ready = []\<rparr> pss s') \<and>
   (\<exists>r w' k. flush_loop (fake_env 2 [] None 0)
               (fake_world \<lparr>waiting = [Other_pkt 1, AOM_CODEC_CX_FRAME_PKT [5] 0], ready = []\<rparr>
                  [] None) = Some (r, w') \<and>
      submits (calls w') = replicate k (False, - 1, 0) \<and> 1 \<le> k \<and> k \<le> 3) \<and>
   flush_loop (fake_env 2 [] None 0) (fake_world \<lparr>waiting = [], ready = []\<rparr> [] None)
     = Some (Return (),
         \<lparr>codec = \<lparr>waiting = [], ready = []\<rparr>, mem = (\<lambda>a. 0), infile = [], outfile = [],
          outlimit = None, stdout = [], stderr = [],
          calls = [Encode False (- 1) 1 0, Get_cx_data False]\<rparr>)"
proof -
  let ?L = "fake_env 2 [] None 0"
  let ?s = "\<lparr>waiting = [Other_pkt 1, AOM_CODEC_CX_FRAME_PKT [5] 0], ready = []\<rparr>"
  let ?w = "fake_world ?s [] None"
  let ?pss = "[[Other_pkt 1], [AOM_CODEC_CX_FRAME_PKT [5] 0], []]"
  let ?e = "\<lparr>waiting = [], ready = []\<rparr>"
  have h: "fake_held (codec ?w) + 1 = 3" and c: "submits (calls ?w) = []"
    and cw: "codec ?w = ?s"
    by (simp_all add: fake_world_def fake_held_def)
  note t = flush_terminates [OF fake_drains_down fake_null_submit, of 2 "[]" None 0]
  have fc: "flush_cycles ?L (codec ?w) ?pss ?e"
    unfolding cw by (intro fake_flush_cycle fake_flush_last)
  have room: "room_for (length (output_of (concat ?pss))) ?w"
    by (simp add: room_for_def fake_world_def)
  note cyc = t [of ?w, THEN conjunct2, THEN conjunct2, THEN conjunct1, rule_format,
      OF conjI [OF fc room]]
  have "after_drains (flush_calls ?pss) (concat ?pss) ?e ?w =
         \<lparr>codec = ?e, mem = (\<lambda>a. 0), infile = [], outfile = [5],
          outlimit = None, stdout = [(''.'', [])], stderr = [],
          calls = [Encode False (- 1) 1 0, Get_cx_data True, Get_cx_data False,
                   Encode False (- 1) 1 0, Get_cx_data True, Get_cx_data False,
                   Encode False (- 1) 1 0, Get_cx_data False]\<rparr>"
    by (simp add: after_drains_def fake_world_def cycle_calls_def AOM_FRAME_IS_KEY_def)
  with cyc [THEN conjunct1] have run: "flush_loop ?L ?w
     = Some (Return (),
         \<lparr>codec = ?e, mem = (\<lambda>a. 0), infile = [], outfile = [5],
          outlimit = None, stdout = [(''.'', [])], stderr = [],
          calls = [Encode False (- 1) 1 0, Get_cx_data True, Get_cx_data False,
                   Encode False (- 1) 1 0, Get_cx_data True, Get_cx_data False,
                   Encode False (- 1) 1 0, Get_cx_data False]\<rparr>)"
    by simp
  have bound: "length ?pss \<le> fake_held ?s + 1"
    using cyc [THEN conjunct2, THEN conjunct2, THEN conjunct2, THEN conjunct2]
    unfolding cw .
  have ex: "\<exists>pss s'. flush_cycles ?L ?s pss s'"
    using t [of ?w, THEN conjunct2, THEN conjunct2, THEN conjunct2, rule_format,
        OF fake_null_submit_succeeds]
    unfolding cw .
  from t [of ?w, THEN conjunct1]
  obtain r w' k where "flush_loop ?L ?w = Some (r, w')"
    "submits (calls w') = submits (calls ?w) @ replicate k (False, - 1, 0)"
    "1 \<le> k" "k \<le> fake_held (codec ?w) + 1"
    by blast
  then have first: "\<exists>r w' k. flush_loop ?L ?w = Some (r, w') \<and>
      submits (calls w') = replicate k (False, - 1, 0) \<and> 1 \<le> k \<and> k \<le> 3"
    unfolding h c by auto
  from t [of "fake_world ?e [] None", THEN conjunct2, THEN conjunct1, rule_format,
      OF fake_flush_empty]
  have empty: "flush_loop ?L (fake_world ?e [] None)
     = Some (Return (),
         \<lparr>codec = ?e, mem = (\<lambda>a. 0), infile = [], outfile = [],
          outlimit = None, stdout = [], stderr = [],
          calls = [Encode False (- 1) 1 0, Get_cx_data False]\<rparr>)" .
  show ?thesis
    by (intro conjI run bound ex first empty)
qed

text \<open>
  C4. Let the session hand out the packets \<open>ps\<close> (of any kinds) and then \<open>NULL\<close>. If the
  output takes that many bytes, the drain loop returns, and the output file has grown by
  exactly the payloads of the frame packets among \<open>ps\<close>, each verbatim, in the order the
  packets were handed out; a packet of another kind adds nothing (\<open>output_of\<close>,
  \<open>payload\<close>). If it does not, the first frame packet that is cut short ends the
  process with \<open>EXIT_FAILURE\<close>, the output holding what fitted.
\<close>

theorem sink_writes_frame_payloads:
  assumes "yields L (codec w) it ps s'"
  shows "(room_for (length (output_of ps)) w \<longrightarrow>
           (\<exists>w'. get_pkts L it g w = Some (Return (if ps = [] then g else 1), w') \<and>
                 outfile w' = outfile w @ output_of ps)) \<and>
         (\<not> room_for (length (output_of ps)) w \<longrightarrow>
           (\<exists>w' room. outlimit w = Some room \<and>
                 get_pkts L it g w = Some (Exit EXIT_FAILURE, w') \<and>
                 outfile w' = outfile w @ take room (output_of ps)))"
proof (intro conjI impI)
  assume "room_for (length (output_of ps)) w"
  from get_pkts_yields_fit [OF assms refl this, of g]
  show "\<exists>w'. get_pkts L it g w = Some (Return (if ps = [] then g else 1), w') \<and>
             outfile w' = outfile w @ output_of ps"
    by blast
next
  assume "\<not> room_for (length (output_of ps)) w"
  then obtain room where room: "outlimit w = Some room" "room < length (output_of ps)"
    by (auto simp: room_for_def split: option.splits)
  from get_pkts_yields_short [OF assms refl room, of g] room(1)
  show "\<exists>w' room. outlimit w = Some room \<and>
          get_pkts L it g w = Some (Exit EXIT_FAILURE, w') \<and>
          outfile w' = outfile w @ take room (output_of ps)"
    by blast
qed

theorem sink_writes_frame_payloads_witness:
  "(\<exists>w'. get_pkts (fake_env 0 [] None 0) 0 0
            (fake_world \<lparr>waiting = [], ready = three_pkts\<rparr> [] None) = Some (Return 1, w') \<and>
         outfile w' = [1, 2, 3]) \<and>
   (\<exists>w'. get_pkts (fake_env 0 [] None 0) 0 0
            (fake_world \<lparr>waiting = [], ready = three_pkts\<rparr> [] (Some 2))
            = Some (Exit EXIT_FAILURE, w') \<and>
         outfile w' = [1, 2])"
proof -
  let ?L = "fake_env 0 [] None 0" and ?s = "\<lparr>waiting = [], ready = three_pkts\<rparr>"
  have out: "output_of three_pkts = [1, 2, 3]" by (simp add: three_pkts_def)
  have y: "yields ?L (codec (fake_world ?s [] lim)) 0 three_pkts \<lparr>waiting = [], ready = []\<rparr>"
    for lim
    using fake_yields_ready [of 0 "[]" None 0 "[]" three_pkts 0] by (simp add: fake_world_def)
  have "room_for (length (output_of three_pkts)) (fake_world ?s [] None)"
    by (simp add: room_for_def fake_world_def)
  with sink_writes_frame_payloads [OF y [of None], of 0]
  have "\<exists>w'. get_pkts ?L 0 0 (fake_world ?s [] None) = Some (Return 1, w') \<and>
          outfile w' = [1, 2, 3]"
    by (simp add: out fake_world_def three_pkts_def)
  moreover
  have "\<not> room_for (length (output_of three_pkts)) (fake_world ?s [] (Some 2))"
    by (simp add: room_for_def fake_world_def out)
  with sink_writes_frame_payloads [OF y [of "Some 2"], of 0]
  have "\<exists>w'. get_pkts ?L 0 0 (fake_world ?s [] (Some 2)) = Some (Exit EXIT_FAILURE, w') \<and>
          outfile w' = [1, 2]"
    by (simp add: out fake_world_def)
  ultimately show ?thesis by blast
qed

text \<open>
  C5. Take a session that accepts every frame, hands out finitely many packets and can be
  destroyed, an output that takes any number of bytes, a set-up that succeeded, and a
  limit \<open>max_frames a > 0\<close> that the input can reach (it holds that many frames, or
  more). Then the input loop ends by its \<open>break\<close> with both counters at the limit, having
  read exactly that many frames: what is left of the input, however much, is never read.
  The flush loop then runs to its end, the report says \<open>max_frames a\<close> frames, and
  \<open>main_body\<close> returns \<open>EXIT_SUCCESS\<close>. The submissions of the run are those of
  \<open>max_frames a\<close> real frames, then the null submissions of the flush.

  The flush is the full one. From its state at the end of the input loop the session,
  under null submissions, hands out packet lists \<open>pss\<close>, the last one empty and no other;
  the flush loop makes one cycle for each list (\<open>k = length pss\<close> null submissions, each
  drained to its \<open>NULL\<close>) and ends in the world \<open>w2\<close> that \<open>after_drains\<close> gives; \<open>finish\<close>
  runs from \<open>w2\<close> and its world is the one \<open>main_body\<close> ends in. So after the input loop
  the calls of the run are those cycles, then closing the input, freeing the image,
  destroying the encoder and closing the output; and the output has gained the payloads
  of every packet the session still held.
\<close>

theorem max_frames_ends_input_loop:
  assumes "drains_down L held" and "null_submit_adds_none L held"
    and "encode_succeeds L" and "destroy_succeeds L"
    and "main_setup L a s0 m0 = (Return raw, w)" and "outlimit w = None"
    and "0 < max_frames a" and "max_frames a \<le> INT_MAX"
    and "nat (max_frames a) * frame_bytes raw \<le> length (infile w)"
  shows "\<exists>w1 w2 w' k pss.
           main_loop L raw (keyframe_interval a) (max_frames a) 0 0 w
             = Some (Return (max_frames a, max_frames a), w1) \<and>
           infile w1 = drop (nat (max_frames a) * frame_bytes raw) (infile w) \<and>
           flush_loop L w1 = Some (Return (), w2) \<and>
           main_body L a s0 m0 = Some (Return EXIT_SUCCESS, w') \<and>
           infile w' = infile w1 \<and> processed_msg (max_frames a) \<in> set (stdout w') \<and>
           submits (calls w') =
             real_submits (keyframe_interval a) 0 (nat (max_frames a))
               @ replicate k (False, - 1, 0) \<and>
           1 \<le> k \<and>
           flush_cycles L (codec w1) pss (codec w2) \<and>
           last pss = [] \<and> (\<forall>ps \<in> set (butlast pss). ps \<noteq> []) \<and>
           k = length pss \<and> k \<le> held (codec w1) + 1 \<and>
           w2 = after_drains (flush_calls pss) (concat pss) (codec w2) w1 \<and>
           finish L a (max_frames a) w2 = (Return EXIT_SUCCESS, w') \<and>
           calls w' = calls w1 @ flush_calls pss
                        @ [Fclose (infile_arg a), Img_free, Destroy, Fclose (outfile_arg a)] \<and>
           outfile w' = outfile w1 @ output_of (concat pss)"
  by (rule main_body_completes_exact [OF assms])

theorem max_frames_ends_input_loop_witness:
  "\<exists>w1 w2 w'.
     main_loop (fake_env 1 three_frames None 0) fake_image 2 2 0 0 (fake_start three_frames)
       = Some (Return (2, 2), w1) \<and>
     infile w1 = [13, 14, 15, 16, 17, 18] \<and>
     codec w1 = \<lparr>waiting = [AOM_CODEC_CX_FRAME_PKT [7, 1] 0], ready = []\<rparr> \<and>
     outfile w1 = [1, 0] \<and>
     flush_loop (fake_env 1 three_frames None 0) w1 = Some (Return (), w2) \<and>
     w2 = after_drains (flush_calls [[AOM_CODEC_CX_FRAME_PKT [7, 1] 0], []])
            [AOM_CODEC_CX_FRAME_PKT [7, 1] 0] \<lparr>waiting = [], ready = []\<rparr> w1 \<and>
     finish (fake_env 1 three_frames None 0) fake_args 2 w2 = (Return EXIT_SUCCESS, w') \<and>
     main_body (fake_env 1 three_frames None 0) fake_args \<lparr>waiting = [], ready = []\<rparr>
       blank_memory = Some (Return EXIT_SUCCESS, w') \<and>
     infile w' = [13, 14, 15, 16, 17, 18] \<and> processed_msg 2 \<in> set (stdout w') \<and>
     submits (calls w') = real_submits 2 0 2 @ replicate 2 (False, - 1, 0) \<and>
     outfile w' = [1, 0, 7, 1] \<and>
     calls w' = [Img_alloc 2 2, Enc_config_default, Fopen ''in.yuv'' ''rb'',
                 Fopen ''out.obu'' ''wb'', Enc_init, Control AOME_SET_CPUUSED 8,
                 Control AOME_SET_CQ_LEVEL 45,
                 Encode True 0 1 1, Get_cx_data False,
                 Encode True 1 1 0, Get_cx_data True, Get_cx_data False,
                 Encode False (- 1) 1 0, Get_cx_data True, Get_cx_data False,
                 Encode False (- 1) 1 0, Get_cx_data False,
                 Fclose ''in.yuv'', Img_free, Destroy, Fclose ''out.obu'']"
proof -
  have a: "max_frames fake_args = 2" "keyframe_interval fake_args = 2"
    by (simp_all add: fake_args_def)
  let ?L = "fake_env 1 three_frames None 0"
  let ?p1 = "AOM_CODEC_CX_FRAME_PKT [7, 1] 0"
  have len: "nat (max_frames fake_args) * frame_bytes fake_image
          \<le> length (infile (fake_start three_frames))"
    by (simp add: a frame_bytes_fake_image fake_start_def three_frames_def)
  have lim: "outlimit (fake_start three_frames) = None"
    by (simp add: fake_start_def)
  have mf: "0 < max_frames fake_args" "max_frames fake_args \<le> INT_MAX"
    by (simp_all add: a INT_MAX_def)
  have inp: "drop 12 (infile (fake_start three_frames)) = [13, 14, 15, 16, 17, 18]"
    by (simp add: fake_start_def three_frames_def)
  from max_frames_ends_input_loop [where L = ?L and held = fake_held,
      OF fake_drains_down fake_null_submit fake_encode_succeeds fake_destroy_succeeds
         fake_main_setup lim mf len, unfolded a frame_bytes_fake_image]
  obtain w1 w2 w' k pss where
    t: "main_loop ?L fake_image 2 2 0 0 (fake_start three_frames) = Some (Return (2, 2), w1)"
      "infile w1 = drop (nat 2 * 6) (infile (fake_start three_frames))"
      "flush_loop ?L w1 = Some (Return (), w2)"
      "main_body ?L fake_args \<lparr>waiting = [], ready = []\<rparr> blank_memory
         = Some (Return EXIT_SUCCESS, w')"
      "infile w' = infile w1" "processed_msg 2 \<in> set (stdout w')"
      "finish ?L fake_args 2 w2 = (Return EXIT_SUCCESS, w')"
    by blast
  from fake_run_exact obtain v1 v2 v' where
    v: "main_loop ?L fake_image 2 2 0 0 (fake_start three_frames) = Some (Return (2, 2), v1)"
      "codec v1 = \<lparr>waiting = [?p1], ready = []\<rparr>" "outfile v1 = [1, 0]"
      "flush_loop ?L v1 = Some (Return (), v2)"
      "v2 = after_drains (flush_calls [[?p1], []]) [?p1] \<lparr>waiting = [], ready = []\<rparr> v1"
      "main_body ?L fake_args \<lparr>waiting = [], ready = []\<rparr> blank_memory
         = Some (Return EXIT_SUCCESS, v')"
      "outfile v' = [1, 0, 7, 1]"
      "calls v' = [Img_alloc 2 2, Enc_config_default, Fopen ''in.yuv'' ''rb'',
                 Fopen ''out.obu'' ''wb'', Enc_init, Control AOME_SET_CPUUSED 8,
                 Control AOME_SET_CQ_LEVEL 45,
                 Encode True 0 1 1, Get_cx_data False,
                 Encode True 1 1 0, Get_cx_data True, Get_cx_data False,
                 Encode False (- 1) 1 0, Get_cx_data True, Get_cx_data False,
                 Encode False (- 1) 1 0, Get_cx_data False,
                 Fclose ''in.yuv'', Img_free, Destroy, Fclose ''out.obu'']"
    by blast
  have e1: "v1 = w1" using t(1) v(1) by simp
  have e2: "v2 = w2" using t(3) v(4) e1 by simp
  have e3: "v' = w'" using t(4) v(6) by simp
  have i1: "infile w1 = [13, 14, 15, 16, 17, 18]" using t(2) inp by simp
  have i2: "infile w' = [13, 14, 15, 16, 17, 18]" using t(5) i1 by simp
  have sub: "submits (calls w') = real_submits 2 0 2 @ replicate 2 (False, - 1, 0)"
    unfolding e3 [symmetric] v(8)
    by (simp add: submits_Cons real_submits_def force_kf_flags_def AOM_EFLAG_FORCE_KF_def
        smod_int_alt_def numeral_2_eq_2)
  show ?thesis
    by (intro exI [of _ w1] exI [of _ w2] exI [of _ w'] conjI t(1) i1 v(2) [unfolded e1]
        v(3) [unfolded e1] t(3) v(5) [unfolded e1 e2] t(7) t(4) i2 t(6) sub
        v(7) [unfolded e3] v(8) [unfolded e3])
qed

text \<open>
  C6, as the code has it. The codec table knows one name, \<open>av1\<close>. An unknown codec name
  and a bad frame size (a width or height that is not positive or not even) end the
  process before any library call: no call is recorded, so nothing is allocated and no
  file is opened. A negative keyframe interval ends it after the image has been
  allocated, \<open>Img_alloc\<close> being the one call recorded, and before any file is opened or
  the encoder is touched. In the three cases \<open>stderr\<close> gets the message, a newline and
  the usage text, nothing goes to \<open>stdout\<close>, and the exit status is \<open>EXIT_FAILURE\<close>,
  which is not 0.
\<close>

theorem config_errors_exit_with_usage:
  "(get_aom_encoder_by_name (codec_arg a) = None) = (codec_arg a \<noteq> ''av1'') \<and>
   (codec_arg a \<noteq> ''av1'' \<longrightarrow>
      main_body L a s0 m0 =
        Some (Exit EXIT_FAILURE,
              (initial_world s0 m0)
                \<lparr>stderr := usage_report (exec_name a) ''Unsupported codec.'' []\<rparr>)) \<and>
   (codec_arg a = ''av1'' \<and> bad_frame_size a \<longrightarrow>
      main_body L a s0 m0 =
        Some (Exit EXIT_FAILURE,
              (initial_world s0 m0)
                \<lparr>stderr := usage_report (exec_name a) ''Invalid frame size: %dx%d''
                              [D (frame_width a), D (frame_height a)]\<rparr>)) \<and>
   (codec_arg a = ''av1'' \<and> \<not> bad_frame_size a \<and>
    aom_img_alloc L (frame_width a) (frame_height a) = Some raw \<and> keyframe_interval a < 0 \<longrightarrow>
      main_body L a s0 m0 =
        Some (Exit EXIT_FAILURE,
              (initial_world s0 m0)
                \<lparr>stderr := usage_report (exec_name a) ''Invalid keyframe interval value.'' [],
                 calls := [Img_alloc (frame_width a) (frame_height a)]\<rparr>)) \<and>
   EXIT_FAILURE \<noteq> 0"
  using main_body_exit [OF main_setup_bad_codec, of a L s0 m0]
    main_body_exit [OF main_setup_bad_size, of a L s0 m0]
    main_body_exit [OF main_setup_bad_interval, of a L raw s0 m0]
  by (simp add: get_aom_encoder_by_name_av1 EXIT_FAILURE_def)

theorem config_errors_exit_with_usage_witness:
  "main_body (fake_env 0 [] None 0) (bad_interval_args\<lparr>codec_arg := ''vp9''\<rparr>)
     \<lparr>waiting = [], ready = []\<rparr> blank_memory =
     Some (Exit EXIT_FAILURE,
           (initial_world \<lparr>waiting = [], ready = []\<rparr> blank_memory)
             \<lparr>stderr := usage_report ''enc'' ''Unsupported codec.'' []\<rparr>) \<and>
   main_body (fake_env 0 [] None 0) (bad_interval_args\<lparr>frame_width := 3\<rparr>)
     \<lparr>waiting = [], ready = []\<rparr> blank_memory =
     Some (Exit EXIT_FAILURE,
           (initial_world \<lparr>waiting = [], ready = []\<rparr> blank_memory)
             \<lparr>stderr := usage_report ''enc'' ''Invalid frame size: %dx%d'' [D 3, D 2]\<rparr>) \<and>
   main_body (fake_env 0 [] None 0) bad_interval_args
     \<lparr>waiting = [], ready = []\<rparr> blank_memory =
     Some (Exit EXIT_FAILURE,
           (initial_world \<lparr>waiting = [], ready = []\<rparr> blank_memory)
             \<lparr>stderr := usage_report ''enc'' ''Invalid keyframe interval value.'' [],
              calls := [Img_alloc 2 2]\<rparr>)"
  using config_errors_exit_with_usage
      [of "bad_interval_args\<lparr>codec_arg := ''vp9''\<rparr>" "fake_env 0 [] None 0"
          "\<lparr>waiting = [], ready = []\<rparr>" blank_memory fake_image]
    config_errors_exit_with_usage
      [of "bad_interval_args\<lparr>frame_width := 3\<rparr>" "fake_env 0 [] None 0"
          "\<lparr>waiting = [], ready = []\<rparr>" blank_memory fake_image]
    config_errors_exit_with_usage
      [of bad_interval_args "fake_env 0 [] None 0"
          "\<lparr>waiting = [], ready = []\<rparr>" blank_memory fake_image]
  by (simp add: bad_interval_args_def bad_frame_size_def fake_env_def smod_int_alt_def)

text \<open>
  The claim as it was stated fails for the keyframe interval: with a negative interval
  the process exits with the image allocated.
\<close>

theorem interval_checked_after_allocation:
  "keyframe_interval bad_interval_args < 0 \<and>
   map_option (calls \<circ> snd)
     (main_body (fake_env 0 [] None 0) bad_interval_args \<lparr>waiting = [], ready = []\<rparr>
        blank_memory)
   = Some [Img_alloc 2 2]"
  using main_body_exit [OF main_setup_bad_interval,
      of bad_interval_args "fake_env 0 [] None 0" fake_image "\<lparr>waiting = [], ready = []\<rparr>"
         blank_memory]
  by (simp add: bad_interval_args_def bad_frame_size_def fake_env_def smod_int_alt_def)

text \<open>
  C7. Let everything before \<open>aom_codec_enc_init\<close> succeed and that call return an error
  \<open>res \<noteq> 0\<close>, leaving the session in state \<open>s1\<close>. Then \<open>main_body\<close> exits with
  \<open>EXIT_FAILURE\<close> (not 0), and in the world it leaves: the input is still whole and the
  frame buffer as it was (nothing was read), the output file is empty, the last call
  recorded is \<open>Enc_init\<close> (no submission, no drain, no control call, no destroy), and
  \<open>stdout\<close> ends with the session's error string and, if there is one, its detail.
\<close>

theorem init_failure_aborts:
  assumes "codec_arg a = ''av1''" and "\<not> bad_frame_size a"
    and "aom_img_alloc L (frame_width a) (frame_height a) = Some raw"
    and "0 \<le> keyframe_interval a"
    and "aom_codec_enc_config_default L = 0"
    and "fopen_rb L (infile_arg a) = Some bytes"
    and "fopen_wb L (outfile_arg a) = Some limit"
    and "aom_codec_enc_init L (main_cfg a) = (res, s1)" and "res \<noteq> 0"
  shows "main_body L a s0 m0 =
     Some (Exit EXIT_FAILURE,
      \<lparr>codec = s1, mem = m0, infile = bytes, outfile = [], outlimit = limit,
       stdout = [(''Using %s\<newline>'', [S (aom_codec_iface_name L)]),
                 (''%s: %s\<newline>'', [S ''Failed to initialize encoder'', S (aom_codec_error L s1)])]
                @ (case aom_codec_error_detail L s1 of
                     None \<Rightarrow> [] | Some d \<Rightarrow> [(''    %s\<newline>'', [S d])]),
       stderr = [],
       calls = [Img_alloc (frame_width a) (frame_height a), Enc_config_default,
                Fopen (infile_arg a) ''rb'', Fopen (outfile_arg a) ''wb'', Enc_init]\<rparr>)
     \<and> EXIT_FAILURE \<noteq> 0"
  using main_body_exit [OF main_setup_init_fails [OF assms]]
  by (simp add: EXIT_FAILURE_def)

theorem init_failure_aborts_witness:
  "main_body (fake_env 1 three_frames None 1) fake_args \<lparr>waiting = [], ready = []\<rparr>
     blank_memory =
     Some (Exit EXIT_FAILURE,
      \<lparr>codec = \<lparr>waiting = [], ready = []\<rparr>, mem = blank_memory, infile = three_frames,
       outfile = [], outlimit = None,
       stdout = [(''Using %s\<newline>'', [S ''fake'']),
                 (''%s: %s\<newline>'', [S ''Failed to initialize encoder'', S ''Error'']),
                 (''    %s\<newline>'', [S ''detail''])],
       stderr = [],
       calls = [Img_alloc 2 2, Enc_config_default, Fopen ''in.yuv'' ''rb'',
                Fopen ''out.obu'' ''wb'', Enc_init]\<rparr>)"
proof -
  let ?L = "fake_env 1 three_frames None 1"
  have "main_body ?L fake_args \<lparr>waiting = [], ready = []\<rparr> blank_memory =
     Some (Exit EXIT_FAILURE,
      \<lparr>codec = \<lparr>waiting = [], ready = []\<rparr>, mem = blank_memory, infile = three_frames,
       outfile = [], outlimit = None,
       stdout = [(''Using %s\<newline>'', [S (aom_codec_iface_name ?L)]),
                 (''%s: %s\<newline>'', [S ''Failed to initialize encoder'',
                    S (aom_codec_error ?L \<lparr>waiting = [], ready = []\<rparr>)])]
                @ (case aom_codec_error_detail ?L \<lparr>waiting = [], ready = []\<rparr> of
                     None \<Rightarrow> [] | Some d \<Rightarrow> [(''    %s\<newline>'', [S d])]),
       stderr = [],
       calls = [Img_alloc (frame_width fake_args) (frame_height fake_args), Enc_config_default,
                Fopen (infile_arg fake_args) ''rb'', Fopen (outfile_arg fake_args) ''wb'',
                Enc_init]\<rparr>)
     \<and> EXIT_FAILURE \<noteq> 0"
    by (rule init_failure_aborts [where raw = fake_image and res = 1])
       (simp_all add: fake_args_def fake_env_def bad_frame_size_def smod_int_alt_def)
  then show ?thesis
    by (simp add: fake_env_def fake_args_def)
qed

text \<open>
  C8. In every run of \<open>main_body\<close> that ends, however it ends, the submissions are those
  of some \<open>n\<close> real frames followed by null submissions, and the real frames carry the
  frame indices \<open>0, 1, \<dots>, n - 1\<close> in this order: the k-th one is submitted with index k,
  and the indices increase strictly from one real frame to the next.
\<close>

theorem real_frames_indexed_in_order:
  assumes "main_body L a s0 m0 = Some (out, w')"
  shows "\<exists>n k. submits (calls w') =
            real_submits (keyframe_interval a) 0 n @ replicate k (False, - 1, 0) \<and>
          map (fst \<circ> snd) (filter fst (submits (calls w'))) = map int [0..<n] \<and>
          sorted_wrt (<) (map (fst \<circ> snd) (filter fst (submits (calls w'))))"
proof -
  from main_body_effect [OF assms] obtain n k where
    s: "submits (calls w') = real_submits (keyframe_interval a) 0 n @ replicate k (False, - 1, 0)"
    by blast
  have p: "map (fst \<circ> snd) (filter fst (submits (calls w'))) = map int [0..<n]"
    unfolding s filter_real_submits by (rule pts_real_submits)
  have "sorted_wrt (<) (map int [0..<n])"
    by (simp add: sorted_wrt_map)
  with s p show ?thesis by auto
qed

theorem real_frames_indexed_in_order_witness:
  "\<exists>w'. main_body (fake_env 1 three_frames None 0) fake_args \<lparr>waiting = [], ready = []\<rparr>
          blank_memory = Some (Return EXIT_SUCCESS, w') \<and>
        map (fst \<circ> snd) (filter fst (submits (calls w'))) = [0, 1]"
proof -
  from fake_run obtain w' k where
    run: "main_body (fake_env 1 three_frames None 0) fake_args \<lparr>waiting = [], ready = []\<rparr>
            blank_memory = Some (Return EXIT_SUCCESS, w')"
    and s: "submits (calls w') = real_submits 2 0 2 @ replicate k (False, - 1, 0)"
    by blast
  from real_frames_indexed_in_order [OF run] obtain n where
    n: "map (fst \<circ> snd) (filter fst (submits (calls w'))) = map int [0..<n]"
    by blast
  have "length (filter fst (submits (calls w'))) = 2"
    unfolding s filter_real_submits by (simp add: real_submits_def)
  with n have "n = 2" by (metis length_map length_upt diff_zero)
  with n have "map (fst \<circ> snd) (filter fst (submits (calls w'))) = [0, 1]"
    by (simp add: upt_rec)
  with run show ?thesis by (intro exI [of _ w'] conjI)
qed

text \<open>
  C9. The two counters of \<open>main\<close>, \<open>frame_count\<close> and \<open>frames_encoded\<close>, are equal
  whenever the input loop is at its head, and equal when the loop has ended; their value
  is the number of real frames submitted so far. So when \<open>main_body\<close> returns, the count
  it reported (\<open>frame_count\<close>, line 380) is the number of real frames it submitted.
\<close>

theorem counters_in_lockstep:
  "(loop_head L raw ki mf w0 fc fe w \<longrightarrow>
      fc = fe \<and> 0 \<le> fc \<and>
      submits (calls w) = submits (calls w0) @ real_submits ki 0 (nat fc)) \<and>
   (main_loop L raw ki mf 0 0 w0 = Some (Return (fc', fe'), w1) \<longrightarrow>
      fc' = fe' \<and> 0 \<le> fc' \<and>
      submits (calls w1) = submits (calls w0) @ real_submits ki 0 (nat fc')) \<and>
   (main_body L a s0 m0 = Some (Return r, w') \<longrightarrow>
      processed_msg (int (length (filter fst (submits (calls w'))))) \<in> set (stdout w'))"
proof (intro conjI impI)
  assume "loop_head L raw ki mf w0 fc fe w"
  from loop_head_invariant [OF this]
  show "fc = fe" "0 \<le> fc" "submits (calls w) = submits (calls w0) @ real_submits ki 0 (nat fc)"
    by simp_all
next
  assume ml: "main_loop L raw ki mf 0 0 w0 = Some (Return (fc', fe'), w1)"
  from main_loop_invariant [OF ml refl] obtain n where
    "submits (calls w1) = submits (calls w0) @ real_submits ki 0 n" "fc' = int n" "fe' = int n"
    by auto
  then show "fc' = fe'" "0 \<le> fc'"
    "submits (calls w1) = submits (calls w0) @ real_submits ki 0 (nat fc')"
    by simp_all
next
  assume "main_body L a s0 m0 = Some (Return r, w')"
  from main_body_effect [OF this] obtain n k where
    s: "submits (calls w') = real_submits (keyframe_interval a) 0 n @ replicate k (False, - 1, 0)"
    and p: "processed_msg (int n) \<in> set (stdout w')"
    by auto
  have "length (filter fst (submits (calls w'))) = n"
    unfolding s filter_real_submits by (simp add: real_submits_def)
  with p show "processed_msg (int (length (filter fst (submits (calls w'))))) \<in> set (stdout w')"
    by simp
qed

theorem counters_in_lockstep_witness:
  "\<exists>w w1 w'.
     loop_head (fake_env 1 three_frames None 0) fake_image 2 2 (fake_start three_frames) 1 1 w \<and>
     submits (calls w) = real_submits 2 0 1 \<and>
     main_loop (fake_env 1 three_frames None 0) fake_image 2 2 0 0 (fake_start three_frames)
       = Some (Return (2, 2), w1) \<and>
     submits (calls w1) = real_submits 2 0 2 \<and>
     main_body (fake_env 1 three_frames None 0) fake_args \<lparr>waiting = [], ready = []\<rparr>
       blank_memory = Some (Return EXIT_SUCCESS, w') \<and>
     length (filter fst (submits (calls w'))) = 2 \<and>
     processed_msg (int (length (filter fst (submits (calls w'))))) \<in> set (stdout w')"
proof -
  let ?L = "fake_env 1 three_frames None 0" and ?w0 = "fake_start three_frames"
  from fake_run obtain w1 w' k where
    ml: "main_loop ?L fake_image 2 2 0 0 ?w0 = Some (Return (2, 2), w1)"
    and run: "main_body ?L fake_args \<lparr>waiting = [], ready = []\<rparr> blank_memory
                = Some (Return EXIT_SUCCESS, w')"
    and s: "submits (calls w') = real_submits 2 0 2 @ replicate k (False, - 1, 0)"
    by blast
  from fake_loop_head obtain w where head: "loop_head ?L fake_image 2 2 ?w0 1 1 w"
    by blast
  have s0: "submits (calls ?w0) = []"
    by (simp add: fake_start_def submits_Cons)
  note t = counters_in_lockstep [of ?L fake_image 2 2 ?w0 1 1 w 2 2 w1 fake_args
      "\<lparr>waiting = [], ready = []\<rparr>" blank_memory EXIT_SUCCESS w']
  from t [THEN conjunct1, rule_format, OF head] s0
  have a: "submits (calls w) = real_submits 2 0 1" by simp
  from t [THEN conjunct2, THEN conjunct1, rule_format, OF ml] s0
  have b: "submits (calls w1) = real_submits 2 0 2" by simp
  note c = t [THEN conjunct2, THEN conjunct2, rule_format, OF run]
  have "length (filter fst (submits (calls w'))) = 2"
    unfolding s filter_real_submits by simp
  with head a ml b run c show ?thesis
    by (intro exI [of _ w] exI [of _ w1] exI [of _ w'] conjI)
qed

text \<open>
  C10. Let a submission be accepted and the session then hand out the packets \<open>ps\<close>, of
  whatever kinds. If \<open>encode_frame\<close> returns, its result is 1 when \<open>ps\<close> has a packet
  and 0 when it has none: the kinds play no part; and it returns in the world in which
  every packet of \<open>ps\<close> has been polled. So a flush submission after which any packet at
  all was handed out makes the flush loop go round again: the loop from \<open>w\<close> is the loop
  from the world \<open>w'\<close> after that cycle, and when the session goes on from there with
  the packet lists \<open>pss\<close> (at least one list, the empty one that ends the flush), the
  loop from \<open>w\<close> returns after the first cycle and one more cycle for each list of
  \<open>pss\<close>: at least two null submissions, also when \<open>ps\<close> holds informational packets
  only and nothing was written. On the test double, a session with one informational
  packet ready makes the flush loop submit the null frame twice.
\<close>

theorem got_pkts_counts_every_kind:
  assumes "aom_codec_encode L (codec w) (map_option (\<lambda>i. (i, mem w)) img) fi 1 fl
             = (AOM_CODEC_OK, s1)"
    and "yields L s1 0 ps s'"
    and "encode_frame L img fi fl w = Some (Return got, w')"
  shows "got = (if ps = [] then 0 else 1) \<and>
         (img = None \<and> fi = - 1 \<and> fl = 0 \<and> ps \<noteq> [] \<longrightarrow> flush_loop L w = flush_loop L w') \<and>
         w' = after_drains (cycle_calls (img \<noteq> None) fi fl ps) ps s' w \<and>
         (img = None \<and> fi = - 1 \<and> fl = 0 \<and> ps \<noteq> [] \<longrightarrow>
            (\<forall>pss s''. flush_cycles L s' pss s'' \<and>
                        room_for (length (output_of (concat pss))) w' \<longrightarrow>
               (\<exists>w2. flush_loop L w = Some (Return (), w2) \<and>
                      w2 = after_drains (flush_calls pss) (concat pss) s'' w' \<and>
                      calls w2 = calls w @ cycle_calls False (- 1) 0 ps @ flush_calls pss \<and>
                      submits (calls w2) =
                        submits (calls w) @ replicate (Suc (length pss)) (False, - 1, 0) \<and>
                      1 \<le> length pss \<and>
                      outfile w2 = outfile w @ output_of ps @ output_of (concat pss))))"
proof -
  let ?w1 = "called (Encode (img \<noteq> None) fi 1 fl) (w\<lparr>codec := s1\<rparr>)"
  from encode_frame_unfold [OF assms(1)] assms(3)
  have gp: "get_pkts L 0 0 ?w1 = Some (Return got, w')" by simp
  have y: "yields L (codec ?w1) 0 ps s'" using assms(2) by (simp add: called_def)
  have room1: "room_for (length (output_of ps)) ?w1"
  proof (rule ccontr)
    assume "\<not> room_for (length (output_of ps)) ?w1"
    then obtain room where "outlimit ?w1 = Some room" "room < length (output_of ps)"
      by (auto simp: room_for_def split: option.splits)
    from get_pkts_yields_short [OF y refl this, of 0] gp show False by auto
  qed
  then have room: "room_for (length (output_of ps)) w"
    by (simp add: room_for_def called_def)
  note ex = encode_frame_exact [OF assms(1,2) room]
  with assms(3) have got: "got = (if ps = [] then 0 else 1)"
    and w': "w' = after_drains (cycle_calls (img \<noteq> None) fi fl ps) ps s' w"
    by simp_all
  have again: "flush_loop L w = flush_loop L w'"
    if "img = None" "fi = - 1" "fl = 0" "ps \<noteq> []"
    using flush_loop_again [of L w got w'] assms(3) that got by simp
  have rest: "\<exists>w2. flush_loop L w = Some (Return (), w2) \<and>
                      w2 = after_drains (flush_calls pss) (concat pss) s'' w' \<and>
                      calls w2 = calls w @ cycle_calls False (- 1) 0 ps @ flush_calls pss \<and>
                      submits (calls w2) =
                        submits (calls w) @ replicate (Suc (length pss)) (False, - 1, 0) \<and>
                      1 \<le> length pss \<and>
                      outfile w2 = outfile w @ output_of ps @ output_of (concat pss)"
    if c: "img = None \<and> fi = - 1 \<and> fl = 0 \<and> ps \<noteq> []"
      and f: "flush_cycles L s' pss s'' \<and> room_for (length (output_of (concat pss))) w'"
    for pss s''
  proof -
    let ?w2 = "after_drains (flush_calls pss) (concat pss) s'' w'"
    have cw: "codec w' = s'" unfolding w' by simp
    from f have fc: "flush_cycles L (codec w') pss s''"
      and r: "room_for (length (output_of (concat pss))) w'"
      unfolding cw by simp_all
    have "flush_loop L w = flush_loop L w'" using again c by simp
    also have "\<dots> = Some (Return (), ?w2)" by (rule flush_loop_exact [OF fc refl r])
    finally have run: "flush_loop L w = Some (Return (), ?w2)" .
    have calls: "calls ?w2 = calls w @ cycle_calls False (- 1) 0 ps @ flush_calls pss"
      unfolding w' using c by simp
    have sub: "submits (calls ?w2) =
            submits (calls w) @ replicate (Suc (length pss)) (False, - 1, 0)"
      unfolding calls by (simp add: submits_flush_calls)
    have len: "1 \<le> length pss" using flush_cycles_shape [OF fc] by (cases pss) simp_all
    have out: "outfile ?w2 = outfile w @ output_of ps @ output_of (concat pss)"
      unfolding w' by simp
    show ?thesis
      by (intro exI [of _ ?w2] conjI run refl calls sub len out)
  qed
  show ?thesis
    using got again w' rest by (intro conjI impI allI) blast+
qed

theorem got_pkts_counts_every_kind_witness:
  "encode_frame (fake_env 0 [] None 0) None (- 1) 0
     (fake_world \<lparr>waiting = [], ready = [Other_pkt 7]\<rparr> [] None)
   = Some (Return 1,
       \<lparr>codec = \<lparr>waiting = [], ready = []\<rparr>, mem = (\<lambda>a. 0), infile = [], outfile = [],
        outlimit = None, stdout = [], stderr = [],
        calls = [Encode False (- 1) 1 0, Get_cx_data True, Get_cx_data False]\<rparr>)
   \<and> flush_loop (fake_env 0 [] None 0)
       (fake_world \<lparr>waiting = [], ready = [Other_pkt 7]\<rparr> [] None)
     = flush_loop (fake_env 0 [] None 0)
       \<lparr>codec = \<lparr>waiting = [], ready = []\<rparr>, mem = (\<lambda>a. 0), infile = [], outfile = [],
        outlimit = None, stdout = [], stderr = [],
        calls = [Encode False (- 1) 1 0, Get_cx_data True, Get_cx_data False]\<rparr>
   \<and> flush_loop (fake_env 0 [] None 0)
       (fake_world \<lparr>waiting = [], ready = [Other_pkt 7]\<rparr> [] None)
     = Some (Return (),
         \<lparr>codec = \<lparr>waiting = [], ready = []\<rparr>, mem = (\<lambda>a. 0), infile = [], outfile = [],
          outlimit = None, stdout = [], stderr = [],
          calls = [Encode False (- 1) 1 0, Get_cx_data True, Get_cx_data False,
                   Encode False (- 1) 1 0, Get_cx_data False]\<rparr>)
   \<and> submits [Encode False (- 1) 1 0, Get_cx_data True, Get_cx_data False,
               Encode False (- 1) 1 0, Get_cx_data False]
     = [(False, - 1, 0), (False, - 1, 0)]"
proof -
  let ?L = "fake_env 0 [] None 0"
  let ?s = "\<lparr>waiting = [], ready = [Other_pkt 7]\<rparr>"
  let ?e = "\<lparr>waiting = [], ready = []\<rparr>"
  let ?w = "fake_world ?s [] None"
  let ?w' = "\<lparr>codec = ?e, mem = (\<lambda>a. 0), infile = [], outfile = [],
        outlimit = None, stdout = [], stderr = [],
        calls = [Encode False (- 1) 1 0, Get_cx_data True, Get_cx_data False]\<rparr>"
  let ?w2 = "\<lparr>codec = ?e, mem = (\<lambda>a. 0), infile = [], outfile = [],
          outlimit = None, stdout = [], stderr = [],
          calls = [Encode False (- 1) 1 0, Get_cx_data True, Get_cx_data False,
                   Encode False (- 1) 1 0, Get_cx_data False]\<rparr>"
  have enc: "aom_codec_encode ?L (codec ?w) (map_option (\<lambda>i. (i, mem ?w)) None) (- 1) 1 0
               = (AOM_CODEC_OK, ?s)"
    by (simp add: fake_env_def fake_encode_def fake_world_def AOM_CODEC_OK_def)
  have y: "yields ?L ?s 0 [Other_pkt 7] ?e"
    by (rule fake_yields_ready)
  have run: "encode_frame ?L None (- 1) 0 ?w = Some (Return 1, ?w')"
    apply (simp add: encode_frame_unfold [OF enc])
    apply (subst get_pkts.simps)
    apply (simp add: fake_env_def fake_get_cx_data_def fake_world_def called_def)
    apply (subst get_pkts.simps)
    apply (simp add: fake_env_def fake_get_cx_data_def fake_world_def called_def)
    done
  note t = got_pkts_counts_every_kind [OF enc y run]
  have eq: "flush_loop ?L ?w = flush_loop ?L ?w'"
    using t [THEN conjunct2, THEN conjunct1] by simp
  have fc: "flush_cycles ?L ?e [[]] ?e \<and> room_for (length (output_of (concat [[]]))) ?w'"
    using fake_flush_last [of 0 "[]" None 0] by (simp add: room_for_def)
  have c: "(None :: aom_image_t option) = None \<and> (- 1 :: int) = - 1 \<and> (0 :: int) = 0
             \<and> [Other_pkt 7] \<noteq> []"
    by simp
  from t [THEN conjunct2, THEN conjunct2, THEN conjunct2, rule_format, OF c fc]
  obtain w2 where w2: "flush_loop ?L ?w = Some (Return (), w2)"
    "w2 = after_drains (flush_calls [[]]) (concat [[]]) ?e ?w'"
    "submits (calls w2) = submits (calls ?w) @ replicate (Suc (length [[] :: aom_codec_cx_pkt_t list])) (False, - 1, 0)"
    by blast
  have w2eq: "w2 = ?w2"
    unfolding w2(2) by (simp add: after_drains_def cycle_calls_def)
  have sub: "submits (calls ?w2) = [(False, - 1, 0), (False, - 1, 0)]"
    using w2(3) unfolding w2eq by (simp add: fake_world_def)
  show ?thesis
    using run eq w2(1) [unfolded w2eq] sub by simp
qed

end
